theory Spec2Isabelle
  imports Main "HOL-Library.Char_ord" "HOL-Library.List_Lexorder"
begin

section \<open>Strings\<close>

text \<open>
  A JavaScript string is modelled as a \<open>string\<close> whose characters are the code units
  \<open>0..255\<close> (the Latin-1 range); \<open>length\<close> is the JavaScript \<open>.length\<close>, and the order of
  \<open>HOL-Library.List_Lexorder\<close> over \<open>HOL-Library.Char_ord\<close> is the code-unit order that
  \<open>Array.prototype.sort()\<close> uses when it is called without a comparator. An optional string
  argument that the source only tests for truthiness is read as \<open>''''\<close> when it is absent.
\<close>

definition isDigit :: "char \<Rightarrow> bool" where
  "isDigit c = (48 \<le> (of_char c :: nat) \<and> (of_char c :: nat) \<le> 57)"

definition isLetter :: "char \<Rightarrow> bool" where
  "isLetter c = ((65 \<le> (of_char c :: nat) \<and> (of_char c :: nat) \<le> 90) \<or>
                 (97 \<le> (of_char c :: nat) \<and> (of_char c :: nat) \<le> 122))"

definition isSpace :: "char \<Rightarrow> bool" where
  "isSpace c = ((9 \<le> (of_char c :: nat) \<and> (of_char c :: nat) \<le> 13) \<or>
                (of_char c :: nat) = 32 \<or> (of_char c :: nat) = 160)"

definition lowerChar :: "char \<Rightarrow> char" where
  "lowerChar c =
     (if (65 \<le> (of_char c :: nat) \<and> (of_char c :: nat) \<le> 90) \<or>
         (192 \<le> (of_char c :: nat) \<and> (of_char c :: nat) \<le> 222 \<and> (of_char c :: nat) \<noteq> 215)
      then char_of ((of_char c :: nat) + 32) else c)"

definition toLowerCase :: "string \<Rightarrow> string" where
  "toLowerCase s = map lowerChar s"

definition trim :: "string \<Rightarrow> string" where
  "trim s = rev (dropWhile isSpace (rev (dropWhile isSpace s)))"

definition digitChar :: "nat \<Rightarrow> char" where
  "digitChar d = char_of (48 + d)"

fun string_of_nat :: "nat \<Rightarrow> string" where
  "string_of_nat n =
     (if n < 10 then [digitChar n] else string_of_nat (n div 10) @ [digitChar (n mod 10)])"

declare string_of_nat.simps [simp del]

text \<open>\<open>String(i)\<close> for an integer, digit by digit.\<close>

function digits_of_int :: "int \<Rightarrow> string" where
  "digits_of_int i =
     (if i < 10 then [digitChar (nat i)]
      else digits_of_int (i div 10) @ [digitChar (nat (i mod 10))])"
  by pat_completeness auto
termination
  by (relation "measure nat") auto

declare digits_of_int.simps [simp del]

definition string_of_int :: "int \<Rightarrow> string" where
  "string_of_int i = (if i < 0 then ''-'' @ digits_of_int (- i) else digits_of_int i)"

definition padStart :: "nat \<Rightarrow> char \<Rightarrow> string \<Rightarrow> string" where
  "padStart n c s = replicate (n - length s) c @ s"

text \<open>\<open>parseInt\<close> on a string of decimal digits.\<close>

definition parseDigits :: "string \<Rightarrow> nat" where
  "parseDigits s = foldl (\<lambda>acc c. 10 * acc + ((of_char c :: nat) - 48)) 0 s"

section \<open>Data model\<close>

record family_ref =
  fr_name :: string
  fr_relationship :: string
  fr_addedDate :: string

record patient =
  p_id :: string
  p_fullName :: string
  p_phone :: string
  p_dateOfBirth :: string
  p_insurance :: string
  p_registeredDate :: string
  p_familyMembers :: "family_ref list option"

record slotday =
  s_date :: string
  s_slots :: "string list"

record appointment =
  a_id :: string
  a_patientId :: string
  a_patientName :: string
  a_relationship :: "string option"
  a_date :: string
  a_time :: string
  a_type :: string
  a_status :: string
  a_emergencyDetails :: "string option"
  a_createdAt :: "string option"
  a_bookedAt :: "string option"
  a_cancelledAt :: "string option"
  a_cancelReason :: "string option"
  a_rescheduledFrom :: "(string \<times> string) option"
  a_rescheduledAt :: "string option"

text \<open>
  \<open>e_alertedAt\<close> holds the instant in milliseconds: the source stores
  \<open>new Date().toISOString()\<close> and reads it back with \<open>new Date(alert.alertedAt).getTime()\<close>,
  which returns the same millisecond count.
\<close>

record alert =
  e_id :: string
  e_patientName :: string
  e_emergencyDetails :: string
  e_contactPhone :: string
  e_timestamp :: string
  e_status :: string
  e_alertedAt :: int

text \<open>The four persisted documents that \<open>writeDatabase\<close> writes.\<close>

record store =
  patients :: "patient list"
  appointments :: "appointment list"
  availableSlots :: "slotday list"
  emergencyAlerts :: "alert list"

text \<open>
  The clock of one request: \<open>Date.now()\<close>, \<open>new Date().toISOString()\<close>,
  \<open>new Date().toLocaleString()\<close> and \<open>new Date().getFullYear()\<close>.
\<close>

record clock =
  nowMs :: int
  nowIso :: string
  nowLocale :: string
  nowYear :: nat

definition isoDay :: "clock \<Rightarrow> string" where
  "isoDay clk = takeWhile (\<lambda>c. c \<noteq> CHR ''T'') (nowIso clk)"

record cancel_summary =
  c_id :: string
  c_patientName :: string
  c_date :: string
  c_time :: string
  c_type :: string

record member =
  m_name :: string
  m_relationship :: string
  m_appointmentType :: string

text \<open>
  The objects the operations return. \<open>Failure\<close>, \<open>DuplicateError\<close> and \<open>InsufficientSlots\<close>
  are the results with \<open>success: false\<close>; \<open>InsufficientSlots\<close> carries \<open>availableSlots\<close>,
  \<open>nextAvailableDate\<close>, \<open>nextAvailableSlots\<close> and the message. Messages are the source's
  text without its emoji.
\<close>

datatype result =
    Failure string
  | DuplicateError string patient
  | InsufficientSlots "string list" string "string list" string
  | Booked appointment
  | Registered patient
  | CancelledOne string cancel_summary string
  | CancelledAll string "cancel_summary list"
  | Rescheduled string appointment
  | EmergencyOk string
  | FamilyBooked "appointment list" nat string "string list"

fun success :: "result \<Rightarrow> bool" where
  "success (Failure _) = False"
| "success (DuplicateError _ _) = False"
| "success (InsufficientSlots _ _ _ _) = False"
| "success _ = True"

section \<open>Persistence\<close>

text \<open>
  \<open>readDatabase\<close> parses the documents afresh on every call, so the object an operation
  mutates is a private copy; \<open>writeDatabase\<close> writes the four arrays back (an array is always
  truthy). An operation is a function from the persisted store to its result and the
  persisted store it leaves behind.
\<close>

definition readDatabase :: "store \<Rightarrow> store" where
  "readDatabase persisted = persisted"

definition writeDatabase :: "store \<Rightarrow> store \<Rightarrow> store" where
  "writeDatabase data persisted =
     persisted\<lparr>patients := patients data, appointments := appointments data,
               availableSlots := availableSlots data, emergencyAlerts := emergencyAlerts data\<rparr>"

section \<open>Slot lists\<close>

text \<open>\<open>if (!slots.includes(t)) { slots.push(t); slots.sort(); }\<close>\<close>

definition releaseSlot :: "string \<Rightarrow> string list \<Rightarrow> string list" where
  "releaseSlot t sl = (if t \<in> set sl then sl else sort (sl @ [t]))"

text \<open>
  \<open>const x = xs.find(P); if (x) { mutate x }\<close>: the first element that satisfies \<open>P\<close> is the
  one that changes. For a day, \<open>const day = availableSlots.find(s => s.date === d)\<close> followed by
  a change of \<open>day.slots\<close>.
\<close>

fun updateFirst :: "('a \<Rightarrow> bool) \<Rightarrow> ('a \<Rightarrow> 'a) \<Rightarrow> 'a list \<Rightarrow> 'a list" where
  "updateFirst P f [] = []"
| "updateFirst P f (x # xs) = (if P x then f x # xs else x # updateFirst P f xs)"

definition updateDay :: "string \<Rightarrow> (string list \<Rightarrow> string list) \<Rightarrow> slotday list \<Rightarrow> slotday list" where
  "updateDay d f ss = updateFirst (\<lambda>s. s_date s = d) (\<lambda>s. s\<lparr>s_slots := f (s_slots s)\<rparr>) ss"

definition findDay :: "string \<Rightarrow> slotday list \<Rightarrow> slotday option" where
  "findDay d ss = find (\<lambda>s. s_date s = d) ss"

text \<open>The day's available list, when the store has an entry for the date.\<close>

definition daySlotsOf :: "store \<Rightarrow> string \<Rightarrow> string list option" where
  "daySlotsOf db d = map_option s_slots (findDay d (availableSlots db))"

section \<open>Validation (server.js 94--176)\<close>

datatype validation = Invalid string | Valid string

definition validatePhoneNumber :: "string \<Rightarrow> validation" where
  "validatePhoneNumber phone =
     (if phone = [] then Invalid ''Phone number is required''
      else let cleanPhone = filter isDigit phone in
        if length cleanPhone = 10 then Valid cleanPhone
        else if length cleanPhone = 11 \<and> hd cleanPhone = CHR ''1'' then Valid (tl cleanPhone)
        else Invalid ''Please provide a valid 10-digit US phone number'')"

definition validatePatientName :: "string \<Rightarrow> validation" where
  "validatePatientName name =
     (if name = [] \<or> length (trim name) < 2
      then Invalid ''Please provide a valid full name (at least 2 characters)''
      else if \<not> (trim name \<noteq> [] \<and>
                  list_all (\<lambda>c. isLetter c \<or> isSpace c \<or> c = CHR ''-'' \<or> c = CHR 0x27) (trim name))
      then Invalid ''Name can only contain letters, spaces, hyphens, and apostrophes''
      else Valid (trim name))"

definition validateDateOfBirth :: "clock \<Rightarrow> string \<Rightarrow> validation" where
  "validateDateOfBirth clk dob =
     (if dob = [] then Invalid ''Date of birth is required''
      else if \<not> (length dob = 8 \<and> list_all isDigit dob)
      then Invalid ''Please provide date of birth in MMDDYYYY format (e.g., 08272000)''
      else let month = parseDigits (take 2 dob);
               day = parseDigits (take 2 (drop 2 dob));
               year = parseDigits (take 4 (drop 4 dob)) in
        if month < 1 \<or> month > 12 then Invalid ''Invalid month in date of birth''
        else if day < 1 \<or> day > 31 then Invalid ''Invalid day in date of birth''
        else if year < 1900 \<or> year > nowYear clk then Invalid ''Invalid year in date of birth''
        else Valid dob)"

definition validInsurances :: "string list" where
  "validInsurances =
     [''Blue Cross Blue Shield'', ''Blue Cross'', ''Aetna'', ''Cigna'', ''Delta Dental'',
      ''MetLife'', ''United Healthcare'', ''Humana'', ''Other Insurance'', ''No Insurance'']"

fun joinWith :: "string \<Rightarrow> string list \<Rightarrow> string" where
  "joinWith sep [] = []"
| "joinWith sep [x] = x"
| "joinWith sep (x # y # ys) = x @ sep @ joinWith sep (y # ys)"

definition validateInsurance :: "string \<Rightarrow> validation" where
  "validateInsurance insurance =
     (if insurance = [] \<or> length (trim insurance) < 2
      then Invalid ''Please select an insurance provider''
      else case find (\<lambda>ins. toLowerCase ins = toLowerCase (trim insurance)) validInsurances of
             None \<Rightarrow> Invalid (''Please select from: '' @ joinWith '', '' validInsurances)
           | Some found \<Rightarrow> Valid found)"

section \<open>Patient directory\<close>

text \<open>\<open>normalizePhone\<close> inside \<open>findPatientByPhone\<close> (database-manager.js 101--116).\<close>

definition normalizePhone :: "string \<Rightarrow> string" where
  "normalizePhone p =
     (if p = [] then []
      else let cleanPhone = filter isDigit p in
        if length cleanPhone = 11 \<and> hd cleanPhone = CHR ''1'' then tl cleanPhone else cleanPhone)"

definition findPatientByPhone :: "store \<Rightarrow> string \<Rightarrow> patient option" where
  "findPatientByPhone persisted phone =
     find (\<lambda>p. normalizePhone (p_phone p) = normalizePhone phone) (patients persisted)"


datatype search_result =
    NotFoundResult string bool
  | Found patient "appointment list" "appointment list" "family_ref list"

text \<open>\<open>patient.familyMembers || []\<close>\<close>

definition familyMembersOf :: "patient \<Rightarrow> family_ref list" where
  "familyMembersOf p = (case p_familyMembers p of None \<Rightarrow> [] | Some fms \<Rightarrow> fms)"

text \<open>\<open>hay.includes(needle)\<close>\<close>

definition includesStr :: "string \<Rightarrow> string \<Rightarrow> bool" where
  "includesStr hay needle =
     list_ex (\<lambda>i. take (length needle) (drop i hay) = needle) [0..<Suc (length hay)]"

text \<open>
  \<open>searchPatient\<close> (server.js 178--230). The second component of \<open>NotFoundResult\<close> is
  \<open>validationError\<close>.
\<close>

definition searchPatient :: "store \<Rightarrow> string \<Rightarrow> string \<Rightarrow> search_result" where
  "searchPatient persisted phone name =
     (case (if phone \<noteq> [] then validatePhoneNumber phone else Valid []) of
        Invalid msg \<Rightarrow> NotFoundResult msg True
      | Valid normalized \<Rightarrow>
          let byPhone = (if phone \<noteq> [] then findPatientByPhone persisted normalized else None);
              patient = (if byPhone = None \<and> name \<noteq> []
                         then find (\<lambda>p. includesStr (toLowerCase (p_fullName p)) (toLowerCase name) \<or>
                                         includesStr (toLowerCase name) (toLowerCase (p_fullName p)))
                                (patients persisted)
                         else byPhone)
          in (case patient of
                Some p \<Rightarrow>
                  Found p (filter (\<lambda>a. a_patientId a = p_id p \<and> a_status a \<noteq> ''cancelled'')
                             (appointments persisted))
                    [] (familyMembersOf p)
              | None \<Rightarrow> NotFoundResult ''No patient found with that information'' False))"

text \<open>\<open>registerNewPatient\<close> (server.js 406--454); \<open>db.addPatient\<close> rewrites the patients document.\<close>

definition addPatient :: "patient \<Rightarrow> store \<Rightarrow> store" where
  "addPatient p persisted = persisted\<lparr>patients := patients persisted @ [p]\<rparr>"

definition registerNewPatient ::
  "clock \<Rightarrow> string \<Rightarrow> string \<Rightarrow> string \<Rightarrow> string \<Rightarrow> store \<Rightarrow> result \<times> store" where
  "registerNewPatient clk fullName phone dateOfBirth insurance persisted =
     (case validatePatientName fullName of
        Invalid msg \<Rightarrow> (Failure msg, persisted)
      | Valid nameN \<Rightarrow>
     (case validatePhoneNumber phone of
        Invalid msg \<Rightarrow> (Failure msg, persisted)
      | Valid phoneN \<Rightarrow>
     (case validateDateOfBirth clk dateOfBirth of
        Invalid msg \<Rightarrow> (Failure msg, persisted)
      | Valid dobN \<Rightarrow>
     (case validateInsurance insurance of
        Invalid msg \<Rightarrow> (Failure msg, persisted)
      | Valid insuranceN \<Rightarrow>
     (case searchPatient persisted phoneN [] of
        Found existing _ _ _ \<Rightarrow>
          (DuplicateError (''A patient with phone number '' @ phoneN @ '' already exists'') existing,
           persisted)
      | NotFoundResult _ _ \<Rightarrow>
          let patient = \<lparr>p_id = ''p'' @ padStart 3 (CHR ''0'')
                                        (string_of_nat (length (patients persisted) + 1)),
                         p_fullName = nameN, p_phone = phoneN, p_dateOfBirth = dobN,
                         p_insurance = insuranceN, p_registeredDate = isoDay clk,
                         p_familyMembers = Some []\<rparr>
          in (Registered patient, addPatient patient persisted))))))"

section \<open>Booking coordinator\<close>

text \<open>
  The overwrite loops of \<open>bookAppointment\<close> (server.js 358--375) and
  \<open>bookFamilyAppointments\<close> (703--722): every appointment selected by \<open>P\<close> has its time put
  back on the day found for \<open>d\<close> and is marked cancelled with the given reason. The
  \<open>length > 0\<close> guard of the source only skips an empty loop.
\<close>

definition softCancel :: "string \<Rightarrow> string \<Rightarrow> appointment \<Rightarrow> appointment" where
  "softCancel stamp reason a =
     a\<lparr>a_status := ''cancelled'', a_cancelledAt := Some stamp, a_cancelReason := Some reason\<rparr>"

definition overwriteSameDay ::
  "(appointment \<Rightarrow> bool) \<Rightarrow> string \<Rightarrow> string \<Rightarrow> string \<Rightarrow> store \<Rightarrow> store" where
  "overwriteSameDay P d reason stamp db =
     db\<lparr>appointments := map (\<lambda>a. if P a then softCancel stamp reason a else a) (appointments db),
        availableSlots :=
          foldl (\<lambda>ss a. updateDay d (releaseSlot (a_time a)) ss) (availableSlots db)
            (filter P (appointments db))\<rparr>"

text \<open>\<open>bookAppointment\<close> (server.js 332--404).\<close>

definition sameDayActive :: "string \<Rightarrow> string \<Rightarrow> appointment \<Rightarrow> bool" where
  "sameDayActive patientId date a =
     (a_patientId a = patientId \<and> a_date a = date \<and> a_status a \<noteq> ''cancelled'')"

definition nextAppointmentId :: "appointment list \<Rightarrow> string" where
  "nextAppointmentId appts = ''a'' @ padStart 3 (CHR ''0'') (string_of_nat (length appts + 1))"

definition newAppointment ::
  "clock \<Rightarrow> appointment list \<Rightarrow> string \<Rightarrow> string \<Rightarrow> string \<Rightarrow> string \<Rightarrow> string \<Rightarrow> string
     \<Rightarrow> appointment" where
  "newAppointment clk appts patientId patientName date time type emergencyDetails =
     \<lparr>a_id = nextAppointmentId appts,
      a_patientId = patientId, a_patientName = patientName, a_relationship = None,
      a_date = date, a_time = time, a_type = type, a_status = ''scheduled'',
      a_emergencyDetails = (if emergencyDetails = [] then None else Some emergencyDetails),
      a_createdAt = Some (nowIso clk), a_bookedAt = None, a_cancelledAt = None,
      a_cancelReason = None, a_rescheduledFrom = None, a_rescheduledAt = None\<rparr>"

definition bookAppointment ::
  "clock \<Rightarrow> string \<Rightarrow> string \<Rightarrow> string \<Rightarrow> string \<Rightarrow> string \<Rightarrow> string \<Rightarrow> store
     \<Rightarrow> result \<times> store" where
  "bookAppointment clk patientId patientName date time type emergencyDetails persisted =
     (let db = readDatabase persisted in
      case find (\<lambda>p. p_id p = patientId) (patients db) of
        None \<Rightarrow>
          (Failure (''Patient with ID '' @ patientId @
             '' not found. Please register the patient first using register_new_patient function.''),
           persisted)
      | Some patient \<Rightarrow>
          if p_fullName patient \<noteq> patientName
          then (Failure (''Patient name mismatch. Expected '' @ [CHR 0x22] @ p_fullName patient @
                  [CHR 0x22] @ '' but got '' @ [CHR 0x22] @ patientName @ [CHR 0x22] @
                  ''. Please use the correct patient name.''), persisted)
          else
            let db1 = overwriteSameDay (sameDayActive patientId date) date
                        ''overwritten_by_new_booking'' (nowIso clk) db
            in (case findDay date (availableSlots db1) of
                 None \<Rightarrow> (Failure ''This time slot is no longer available'', persisted)
               | Some daySlots \<Rightarrow>
                   if time \<notin> set (s_slots daySlots)
                   then (Failure ''This time slot is no longer available'', persisted)
                   else
                     let appointment = newAppointment clk (appointments db1) patientId patientName
                                         date time type emergencyDetails;
                         db2 = db1\<lparr>appointments := appointments db1 @ [appointment],
                                   availableSlots :=
                                     updateDay date (filter (\<lambda>s. s \<noteq> time)) (availableSlots db1)\<rparr>
                     in (Booked appointment, writeDatabase db2 persisted)))"

text \<open>\<open>cancelAppointment\<close> (server.js 456--511).\<close>

definition summaryOf :: "appointment \<Rightarrow> cancel_summary" where
  "summaryOf a = \<lparr>c_id = a_id a, c_patientName = a_patientName a, c_date = a_date a,
                   c_time = a_time a, c_type = a_type a\<rparr>"

definition cancelAppointment :: "clock \<Rightarrow> string \<Rightarrow> store \<Rightarrow> result \<times> store" where
  "cancelAppointment clk appointmentId persisted =
     (let db = readDatabase persisted in
      case find (\<lambda>a. a_id a = appointmentId) (appointments db) of
        None \<Rightarrow> (Failure ''Appointment not found'', persisted)
      | Some appointment \<Rightarrow>
          if a_status appointment = ''cancelled''
          then (Failure ''Appointment is already cancelled'', persisted)
          else
            let db1 = db\<lparr>availableSlots :=
                          updateDay (a_date appointment) (releaseSlot (a_time appointment))
                            (availableSlots db),
                        appointments :=
                          updateFirst (\<lambda>a. a_id a = appointmentId)
                            (\<lambda>a. a\<lparr>a_status := ''cancelled'', a_cancelledAt := Some (nowIso clk)\<rparr>)
                            (appointments db)\<rparr>
            in (CancelledOne ''Appointment cancelled successfully'' (summaryOf appointment)
                  ''cancelled'',
                writeDatabase db1 persisted))"

text \<open>\<open>cancelAllAppointments\<close> (server.js 514--573).\<close>

definition cancelAllAppointments :: "clock \<Rightarrow> string \<Rightarrow> store \<Rightarrow> result \<times> store" where
  "cancelAllAppointments clk patientId persisted =
     (let db = readDatabase persisted;
          active = (\<lambda>a. a_patientId a = patientId \<and> a_status a \<noteq> ''cancelled'');
          appts = filter active (appointments db)
      in if length appts = 0
         then (Failure ''No active appointments found to cancel'', persisted)
         else
           let db1 = db\<lparr>availableSlots :=
                         foldl (\<lambda>ss a. updateDay (a_date a) (releaseSlot (a_time a)) ss)
                           (availableSlots db) appts,
                       appointments :=
                         map (\<lambda>a. if active a
                                  then a\<lparr>a_status := ''cancelled'', a_cancelledAt := Some (nowIso clk)\<rparr>
                                  else a) (appointments db)\<rparr>
           in (CancelledAll (''Successfully cancelled '' @ string_of_nat (length appts) @
                               '' appointment(s)'') (map summaryOf appts),
               writeDatabase db1 persisted))"

text \<open>\<open>rescheduleAppointment\<close> (server.js 575--610).\<close>

definition rescheduleAppointment ::
  "clock \<Rightarrow> string \<Rightarrow> string \<Rightarrow> string \<Rightarrow> store \<Rightarrow> result \<times> store" where
  "rescheduleAppointment clk appointmentId newDate newTime persisted =
     (let db = readDatabase persisted in
      case find (\<lambda>a. a_id a = appointmentId) (appointments db) of
        None \<Rightarrow> (Failure ''Appointment not found'', persisted)
      | Some appointment \<Rightarrow>
          (case findDay newDate (availableSlots db) of
             None \<Rightarrow> (Failure ''The requested time slot is not available'', persisted)
           | Some newDaySlots \<Rightarrow>
               if newTime \<notin> set (s_slots newDaySlots)
               then (Failure ''The requested time slot is not available'', persisted)
               else
                 let released = updateDay (a_date appointment) (releaseSlot (a_time appointment))
                                  (availableSlots db);
                     reserved = updateDay newDate (filter (\<lambda>s. s \<noteq> newTime)) released;
                     moved = appointment\<lparr>a_date := newDate, a_time := newTime,
                               a_rescheduledFrom := Some (a_date appointment, a_time appointment),
                               a_rescheduledAt := Some (nowIso clk)\<rparr>;
                     db1 = db\<lparr>availableSlots := reserved,
                              appointments :=
                                updateFirst (\<lambda>a. a_id a = appointmentId) (\<lambda>_. moved)
                                  (appointments db)\<rparr>
                 in (Rescheduled ''Appointment rescheduled successfully'' moved,
                     writeDatabase db1 persisted)))"

section \<open>Emergency notifier\<close>

text \<open>\<open>notifyStaffEmergency\<close> (server.js 612--660).\<close>

definition recentlyAlerted :: "clock \<Rightarrow> string \<Rightarrow> alert list \<Rightarrow> bool" where
  "recentlyAlerted clk phoneN alerts =
     (let tenMinutesAgo = nowMs clk - 10 * 60 * 1000
      in list_ex (\<lambda>alert. e_contactPhone alert = phoneN \<and> e_alertedAt alert \<ge> tenMinutesAgo) alerts)"

definition notifyStaffEmergency ::
  "clock \<Rightarrow> string \<Rightarrow> string \<Rightarrow> string \<Rightarrow> store \<Rightarrow> result \<times> store" where
  "notifyStaffEmergency clk patientName emergencyDetails contactPhone persisted =
     (case validatePatientName patientName of
        Invalid msg \<Rightarrow> (Failure msg, persisted)
      | Valid nameN \<Rightarrow>
     (case validatePhoneNumber contactPhone of
        Invalid msg \<Rightarrow> (Failure msg, persisted)
      | Valid phoneN \<Rightarrow>
          if emergencyDetails = [] \<or> length (trim emergencyDetails) < 5
          then (Failure ''Please provide details about the emergency (at least 5 characters)'',
                persisted)
          else
            let db = readDatabase persisted in
            if recentlyAlerted clk phoneN (emergencyAlerts db)
            then (EmergencyOk ''Emergency already reported recently. Our team is on it.'', persisted)
            else
              let db1 = db\<lparr>emergencyAlerts := emergencyAlerts db @
                            [\<lparr>e_id = ''emg_'' @ string_of_int (nowMs clk), e_patientName = nameN,
                              e_emergencyDetails = trim emergencyDetails, e_contactPhone = phoneN,
                              e_timestamp = nowLocale clk, e_status = ''pending'',
                              e_alertedAt = nowMs clk\<rparr>]\<rparr>
              in (EmergencyOk (''EMERGENCY ALERT: Our dental team has been notified about '' @ nameN @
                    [CHR 0x27] @ ''s emergency ('' @ trim emergencyDetails @
                    ''). They are preparing to provide immediate care.''),
                  writeDatabase db1 persisted)))"

section \<open>Family booking coordinator\<close>

text \<open>The validation loop of \<open>bookFamilyAppointments\<close> (server.js 682--692): the first complaint.\<close>

fun validateMembers :: "member list \<Rightarrow> string option" where
  "validateMembers [] = None"
| "validateMembers (m # ms) =
     (if m_name m = [] \<or> length (trim (m_name m)) < 2
      then Some (''Invalid name for family member: '' @
                 (if m_name m = [] then ''unnamed'' else m_name m))
      else if m_relationship m = [] \<or> length (trim (m_relationship m)) < 2
      then Some (''Invalid relationship for '' @ m_name m)
      else if m_appointmentType m = [] \<or> length (trim (m_appointmentType m)) < 2
      then Some (''Invalid appointment type for '' @ m_name m)
      else validateMembers ms)"

text \<open>
  \<open>db.patients.find(p => p.fullName.toLowerCase() === member.name.toLowerCase() &&
  p.phone === primaryPatient.phone)\<close>
\<close>

definition findFamilyPatient :: "patient \<Rightarrow> member \<Rightarrow> patient list \<Rightarrow> patient option" where
  "findFamilyPatient primaryPatient m ps =
     find (\<lambda>p. toLowerCase (p_fullName p) = toLowerCase (m_name m) \<and>
               p_phone p = p_phone primaryPatient) ps"

text \<open>The set \<open>candidatesToOverwrite\<close> (server.js 704--708), as the list of its members.\<close>

definition candidatesToOverwrite :: "string \<Rightarrow> patient \<Rightarrow> member list \<Rightarrow> patient list \<Rightarrow> string list" where
  "candidatesToOverwrite primaryPatientId primaryPatient familyMembers ps =
     primaryPatientId #
     concat (map (\<lambda>m. case findFamilyPatient primaryPatient m ps of
                          None \<Rightarrow> [] | Some existing \<Rightarrow> [p_id existing]) familyMembers)"

text \<open>The family-ref update of the primary patient (server.js 815--826).\<close>

definition addFamilyRef :: "clock \<Rightarrow> member \<Rightarrow> patient \<Rightarrow> patient" where
  "addFamilyRef clk m p =
     (if list_ex (\<lambda>fm. fr_name fm = m_name m) (familyMembersOf p) then p
      else p\<lparr>p_familyMembers := Some (familyMembersOf p @
             [\<lparr>fr_name = m_name m,
               fr_relationship = (if m_relationship m = [] then ''family'' else m_relationship m),
               fr_addedDate = isoDay clk\<rparr>])\<rparr>)"

text \<open>The patient record created for a member who is not a patient yet (server.js 782--796).\<close>

definition newFamilyPatient :: "clock \<Rightarrow> patient \<Rightarrow> member \<Rightarrow> patient list \<Rightarrow> patient" where
  "newFamilyPatient clk primaryPatient m ps =
     \<lparr>p_id = ''p'' @ padStart 3 (CHR ''0'') (string_of_nat (length ps + 1)),
      p_fullName = m_name m, p_phone = p_phone primaryPatient,
      p_dateOfBirth = p_dateOfBirth primaryPatient, p_insurance = p_insurance primaryPatient,
      p_registeredDate = isoDay clk, p_familyMembers = Some []\<rparr>"

text \<open>The appointment of a family member (server.js 798--810).\<close>

definition familyAppointmentOf ::
  "clock \<Rightarrow> string \<Rightarrow> member \<Rightarrow> string \<Rightarrow> string list \<Rightarrow> nat \<Rightarrow> appointment" where
  "familyAppointmentOf clk patientId m preferredDate slots currentSlotIndex =
     \<lparr>a_id = ''a'' @ string_of_int (nowMs clk) @ ''_'' @ string_of_nat currentSlotIndex,
      a_patientId = patientId, a_patientName = m_name m,
      a_relationship = Some (m_relationship m), a_date = preferredDate,
      a_time = slots ! currentSlotIndex,
      a_type = (if m_appointmentType m = [] then ''General Checkup'' else m_appointmentType m),
      a_status = ''confirmed'', a_emergencyDetails = None, a_createdAt = None,
      a_bookedAt = Some (nowIso clk), a_cancelledAt = None, a_cancelReason = None,
      a_rescheduledFrom = None, a_rescheduledAt = None\<rparr>"

text \<open>
  The allocation loop (server.js 772--829) over the members still to book. Its state is
  \<open>db.patients\<close>, \<open>db.appointments\<close>, \<open>bookedAppointments\<close> and \<open>currentSlotIndex\<close>; the primary
  patient is the first patient with the primary's id, an object of \<open>db.patients\<close> that the
  loop mutates in place. The guard of the second equation is the \<open>break\<close>.
\<close>

fun familyLoop ::
  "clock \<Rightarrow> string \<Rightarrow> patient \<Rightarrow> string \<Rightarrow> string list \<Rightarrow> member list
     \<Rightarrow> patient list \<times> appointment list \<times> appointment list \<times> nat
     \<Rightarrow> patient list \<times> appointment list \<times> appointment list \<times> nat" where
  "familyLoop clk primaryPatientId primaryPatient preferredDate slots [] st = st"
| "familyLoop clk primaryPatientId primaryPatient preferredDate slots (m # ms)
     (ps, appts, booked, currentSlotIndex) =
     (if currentSlotIndex \<ge> length slots then (ps, appts, booked, currentSlotIndex)
      else
        let found = findFamilyPatient primaryPatient m ps;
            familyMemberPatient =
              (case found of None \<Rightarrow> newFamilyPatient clk primaryPatient m ps | Some p \<Rightarrow> p);
            ps1 = (case found of None \<Rightarrow> ps @ [familyMemberPatient] | Some p \<Rightarrow> ps);
            appointment = familyAppointmentOf clk (p_id familyMemberPatient) m preferredDate slots
                            currentSlotIndex;
            ps2 = updateFirst (\<lambda>p. p_id p = primaryPatientId) (addFamilyRef clk m) ps1
        in familyLoop clk primaryPatientId primaryPatient preferredDate slots ms
             (ps2, appts @ [appointment], booked @ [appointment], Suc currentSlotIndex))"

text \<open>
  \<open>bookFamilyAppointments\<close> (server.js 662--852). \<open>parseDate s\<close> stands for
  \<open>new Date(s).getTime()\<close>, with \<open>None\<close> for \<open>NaN\<close> (an invalid date, which compares false with
  everything); the \<open>timing\<close> argument is never read. \<open>primaryPatientAppointmentType\<close> is
  \<open>None\<close> when the caller leaves it out.
\<close>

definition laterDate :: "(string \<Rightarrow> int option) \<Rightarrow> string \<Rightarrow> string \<Rightarrow> bool" where
  "laterDate parseDate d preferredDate =
     (case (parseDate d, parseDate preferredDate) of
        (Some slotDate, Some preferDate) \<Rightarrow> slotDate > preferDate
      | _ \<Rightarrow> False)"

definition describeAppointment :: "appointment \<Rightarrow> string" where
  "describeAppointment a =
     a_patientName a @ '' - '' @ a_date a @ '' at '' @ a_time a @ '' - '' @ a_type a"

text \<open>
  The private copy after \<open>primaryPatient.familyMembers\<close> has been initialised and the
  same-day appointments of the party have been overwritten (server.js 694--722).
\<close>

definition familyPreempted ::
  "clock \<Rightarrow> string \<Rightarrow> patient \<Rightarrow> member list \<Rightarrow> string \<Rightarrow> store \<Rightarrow> store" where
  "familyPreempted clk primaryPatientId primaryPatient familyMembers preferredDate db =
     (let db0 = db\<lparr>patients :=
                    updateFirst (\<lambda>p. p_id p = primaryPatientId)
                      (\<lambda>p. p\<lparr>p_familyMembers := Some (familyMembersOf p)\<rparr>) (patients db)\<rparr>;
          candidates = candidatesToOverwrite primaryPatientId primaryPatient familyMembers
                         (patients db0)
      in overwriteSameDay
           (\<lambda>a. a_date a = preferredDate \<and> a_status a \<noteq> ''cancelled'' \<and>
                 a_patientId a \<in> set candidates)
           preferredDate ''overwritten_by_family_booking'' (nowIso clk) db0)"

text \<open>\<open>dateSlots?.slots || []\<close>\<close>

definition openSlots :: "store \<Rightarrow> string \<Rightarrow> string list" where
  "openSlots db d = (case findDay d (availableSlots db) of None \<Rightarrow> [] | Some day \<Rightarrow> s_slots day)"

definition primaryAppointmentOf ::
  "clock \<Rightarrow> string \<Rightarrow> patient \<Rightarrow> string \<Rightarrow> string list \<Rightarrow> string option \<Rightarrow> appointment" where
  "primaryAppointmentOf clk primaryPatientId primaryPatient preferredDate slots primaryType =
     \<lparr>a_id = ''a'' @ string_of_int (nowMs clk) @ ''_primary'',
      a_patientId = primaryPatientId, a_patientName = p_fullName primaryPatient,
      a_relationship = None, a_date = preferredDate, a_time = slots ! 0,
      a_type = (case primaryType of None \<Rightarrow> ''Cleaning'' | Some t \<Rightarrow> t),
      a_status = ''confirmed'', a_emergencyDetails = None, a_createdAt = None,
      a_bookedAt = Some (nowIso clk), a_cancelledAt = None, a_cancelReason = None,
      a_rescheduledFrom = None, a_rescheduledAt = None\<rparr>"

definition enoughSlots :: "nat \<Rightarrow> string \<Rightarrow> (string \<Rightarrow> int option) \<Rightarrow> slotday \<Rightarrow> bool" where
  "enoughSlots totalSlotsNeeded preferredDate parseDate s =
     (laterDate parseDate (s_date s) preferredDate \<and> length (s_slots s) \<ge> totalSlotsNeeded)"

definition bookFamilyAppointments ::
  "(string \<Rightarrow> int option) \<Rightarrow> clock \<Rightarrow> string \<Rightarrow> member list \<Rightarrow> string \<Rightarrow> string option \<Rightarrow> store
     \<Rightarrow> result \<times> store" where
  "bookFamilyAppointments parseDate clk primaryPatientId familyMembers preferredDate
       primaryPatientAppointmentType persisted =
     (let db = readDatabase persisted in
      case find (\<lambda>p. p_id p = primaryPatientId) (patients db) of
        None \<Rightarrow> (Failure ''Primary patient not found'', persisted)
      | Some primaryPatient \<Rightarrow>
          if length familyMembers = 0
          then (Failure ''Family members information is required'', persisted)
          else
          (case validateMembers familyMembers of
             Some msg \<Rightarrow> (Failure msg, persisted)
           | None \<Rightarrow>
               let totalSlotsNeeded = length familyMembers + 1;
                   db1 = familyPreempted clk primaryPatientId primaryPatient familyMembers
                           preferredDate db;
                   dateSlots = findDay preferredDate (availableSlots db1);
                   slots = openSlots db1 preferredDate
               in if dateSlots = None \<or> length slots < totalSlotsNeeded
                  then
                    (case find (enoughSlots totalSlotsNeeded preferredDate parseDate)
                            (availableSlots db1) of
                       Some nextAvailable \<Rightarrow>
                         (InsufficientSlots slots (s_date nextAvailable)
                            (take totalSlotsNeeded (s_slots nextAvailable))
                            (''Only '' @ string_of_nat (length slots) @ '' slot(s) available on '' @
                             preferredDate @ ''. Need '' @ string_of_nat totalSlotsNeeded @
                             '' slots for you and '' @ string_of_nat (length familyMembers) @
                             '' family members. Next available date is '' @
                             s_date nextAvailable @ ''.''),
                          persisted)
                     | None \<Rightarrow>
                         (Failure (''Not enough consecutive slots available. '' @
                                   ''Please book earlier times or contact us at 555-DENTAL.''),
                          persisted))
                  else
                    let primaryAppointment =
                          primaryAppointmentOf clk primaryPatientId primaryPatient preferredDate
                            slots primaryPatientAppointmentType;
                        final = familyLoop clk primaryPatientId primaryPatient preferredDate slots
                                  familyMembers
                                  (patients db1, appointments db1 @ [primaryAppointment],
                                   [primaryAppointment], 1);
                        bookedAppointments = fst (snd (snd final));
                        db2 = db1\<lparr>patients := fst final, appointments := fst (snd final),
                                  availableSlots :=
                                    updateDay preferredDate (drop (length bookedAppointments))
                                      (availableSlots db1)\<rparr>
                    in (FamilyBooked bookedAppointments (length familyMembers)
                          (''Successfully booked '' @ string_of_nat (length bookedAppointments) @
                           '' appointments for you and your family!'')
                          (map describeAppointment bookedAppointments),
                        writeDatabase db2 persisted)))"

section \<open>Dispatch\<close>

text \<open>
  The store-mutating cases of the switch in \<open>executeFunctionCall\<close> (server.js 855--879), with
  the arguments each case passes on.
\<close>

datatype action =
    BookAppointment string string string string string string
  | RegisterNewPatient string string string string
  | CancelAppointment string
  | CancelAllAppointments string
  | RescheduleAppointment string string string
  | NotifyStaffEmergency string string string
  | BookFamilyAppointments string "member list" string "string option"

fun executeFunctionCall ::
  "(string \<Rightarrow> int option) \<Rightarrow> clock \<Rightarrow> action \<Rightarrow> store \<Rightarrow> result \<times> store" where
  "executeFunctionCall parseDate clk (BookAppointment patientId patientName date time type details) st =
     bookAppointment clk patientId patientName date time type details st"
| "executeFunctionCall parseDate clk (RegisterNewPatient fullName phone dateOfBirth insurance) st =
     registerNewPatient clk fullName phone dateOfBirth insurance st"
| "executeFunctionCall parseDate clk (CancelAppointment appointmentId) st =
     cancelAppointment clk appointmentId st"
| "executeFunctionCall parseDate clk (CancelAllAppointments patientId) st =
     cancelAllAppointments clk patientId st"
| "executeFunctionCall parseDate clk (RescheduleAppointment appointmentId newDate newTime) st =
     rescheduleAppointment clk appointmentId newDate newTime st"
| "executeFunctionCall parseDate clk (NotifyStaffEmergency patientName details contactPhone) st =
     notifyStaffEmergency clk patientName details contactPhone st"
| "executeFunctionCall parseDate clk
     (BookFamilyAppointments primaryPatientId familyMembers preferredDate primaryType) st =
     bookFamilyAppointments parseDate clk primaryPatientId familyMembers preferredDate primaryType st"

section \<open>Example data\<close>

text \<open>
  \<open>isoDate\<close> is \<open>new Date(s).getTime()\<close> on the date-only form \<open>YYYY-MM-DD\<close> of a calendar
  day (midnight UTC, by the days-from-civil count); every other string is left invalid.
\<close>

definition daysInMonth :: "nat \<Rightarrow> nat \<Rightarrow> nat" where
  "daysInMonth y m =
     (if m = 2 then (if y mod 4 = 0 \<and> (y mod 100 \<noteq> 0 \<or> y mod 400 = 0) then 29 else 28)
      else if m \<in> {4, 6, 9, 11} then 30 else 31)"

definition daysFromCivil :: "nat \<Rightarrow> nat \<Rightarrow> nat \<Rightarrow> int" where
  "daysFromCivil y m d =
     (let y1 = (if m \<le> 2 then int y - 1 else int y);
          era = y1 div 400;
          yoe = y1 - era * 400;
          mp = (int m + 9) mod 12;
          doy = (153 * mp + 2) div 5 + int d - 1;
          doe = yoe * 365 + yoe div 4 - yoe div 100 + doy
      in era * 146097 + doe - 719468)"

definition isoDate :: "string \<Rightarrow> int option" where
  "isoDate s =
     (if length s = 10 \<and> s ! 4 = CHR ''-'' \<and> s ! 7 = CHR ''-'' \<and> list_all isDigit (take 4 s) \<and>
         list_all isDigit (take 2 (drop 5 s)) \<and> list_all isDigit (drop 8 s)
      then let y = parseDigits (take 4 s); m = parseDigits (take 2 (drop 5 s));
               d = parseDigits (drop 8 s)
           in if 1 \<le> m \<and> m \<le> 12 \<and> 1 \<le> d \<and> d \<le> daysInMonth y m
              then Some (daysFromCivil y m d * 86400000) else None
      else None)"

definition clock0 :: clock where
  "clock0 = \<lparr>nowMs = 1760868000000, nowIso = ''2025-10-19T10:00:00.000Z'',
             nowLocale = ''10/19/2025, 10:00:00 AM'', nowYear = 2025\<rparr>"

definition john :: patient where
  "john = \<lparr>p_id = ''p001'', p_fullName = ''John Doe'', p_phone = ''1234567890'',
           p_dateOfBirth = ''01151990'', p_insurance = ''Blue Cross'',
           p_registeredDate = ''2025-10-01'', p_familyMembers = Some []\<rparr>"

definition appt1 :: appointment where
  "appt1 = \<lparr>a_id = ''a001'', a_patientId = ''p001'', a_patientName = ''John Doe'',
            a_relationship = None, a_date = ''2025-10-25'', a_time = ''2:00 PM'',
            a_type = ''Cleaning'', a_status = ''scheduled'', a_emergencyDetails = None,
            a_createdAt = Some ''2025-10-18T09:00:00.000Z'', a_bookedAt = None,
            a_cancelledAt = None, a_cancelReason = None, a_rescheduledFrom = None,
            a_rescheduledAt = None\<rparr>"

definition appt2 :: appointment where
  "appt2 = \<lparr>a_id = ''a002'', a_patientId = ''p001'', a_patientName = ''John Doe'',
            a_relationship = None, a_date = ''2025-10-27'', a_time = ''9:00 AM'',
            a_type = ''Checkup'', a_status = ''cancelled'', a_emergencyDetails = None,
            a_createdAt = Some ''2025-10-18T09:05:00.000Z'', a_bookedAt = None,
            a_cancelledAt = Some ''2025-10-18T09:30:00.000Z'', a_cancelReason = None,
            a_rescheduledFrom = None, a_rescheduledAt = None\<rparr>"

definition store0 :: store where
  "store0 = \<lparr>patients = [john], appointments = [appt1, appt2],
             availableSlots =
               [\<lparr>s_date = ''2025-10-25'', s_slots = [''10:00 AM'', ''9:00 AM'']\<rparr>,
                \<lparr>s_date = ''2025-10-27'', s_slots = [''10:00 AM'', ''11:00 AM'', ''9:00 AM'']\<rparr>],
             emergencyAlerts = []\<rparr>"

definition maryMember :: member where
  "maryMember = \<lparr>m_name = ''Mary Doe'', m_relationship = ''spouse'', m_appointmentType = ''Cleaning''\<rparr>"

text \<open>A store whose days are not listed in date order.\<close>

definition storeUnordered :: store where
  "storeUnordered =
     \<lparr>patients = [john], appointments = [],
      availableSlots =
        [\<lparr>s_date = ''2025-10-25'', s_slots = [''9:00 AM'']\<rparr>,
         \<lparr>s_date = ''2025-10-29'', s_slots = [''10:00 AM'', ''11:00 AM'']\<rparr>,
         \<lparr>s_date = ''2025-10-27'', s_slots = [''10:00 AM'', ''9:00 AM'']\<rparr>],
      emergencyAlerts = []\<rparr>"

text \<open>
  The hour of the day of a 12-hour label that starts with its hour, as \<open>getAvailableSlots\<close>
  reads it (server.js 316--318).
\<close>

definition hour24 :: "string \<Rightarrow> nat" where
  "hour24 time =
     (let hour = parseDigits (takeWhile isDigit time);
          isPM = includesStr time ''PM''
      in if isPM \<and> hour \<noteq> 12 then hour + 12 else if hour = 12 \<and> \<not> isPM then 0 else hour)"

text \<open>The \<open>appointments\<close> field of a family booking result.\<close>

fun bookedAppointmentsOf :: "result \<Rightarrow> appointment list" where
  "bookedAppointmentsOf (FamilyBooked booked _ _ _) = booked"
| "bookedAppointmentsOf _ = []"

definition twoChildren :: "member list" where
  "twoChildren =
     [\<lparr>m_name = ''Ann Doe'', m_relationship = ''daughter'', m_appointmentType = ''Checkup''\<rparr>,
      \<lparr>m_name = ''Ben Doe'', m_relationship = ''son'', m_appointmentType = ''Checkup''\<rparr>]"

text \<open>
  The example store a little later: Mary has booked 9:00 AM on 2025-10-27, the slot that
  John's cancelled appointment a002 once held, so the label is off that day's list.
\<close>

definition appt3 :: appointment where
  "appt3 = \<lparr>a_id = ''a003'', a_patientId = ''p002'', a_patientName = ''Mary Major'',
            a_relationship = None, a_date = ''2025-10-27'', a_time = ''9:00 AM'',
            a_type = ''Filling'', a_status = ''scheduled'', a_emergencyDetails = None,
            a_createdAt = Some ''2025-10-18T10:00:00.000Z'', a_bookedAt = None,
            a_cancelledAt = None, a_cancelReason = None, a_rescheduledFrom = None,
            a_rescheduledAt = None\<rparr>"

definition storeHeld :: store where
  "storeHeld = \<lparr>patients = [john], appointments = [appt1, appt2, appt3],
                availableSlots =
                  [\<lparr>s_date = ''2025-10-25'', s_slots = [''10:00 AM'', ''9:00 AM'']\<rparr>,
                   \<lparr>s_date = ''2025-10-27'', s_slots = [''10:00 AM'', ''11:00 AM'']\<rparr>],
                emergencyAlerts = []\<rparr>"

text \<open>
  A ledger that was not numbered by \<open>bookAppointment\<close>: its only appointment carries the
  id a002.
\<close>

definition storeForeign :: store where
  "storeForeign = \<lparr>patients = [john], appointments = [appt2],
                   availableSlots =
                     [\<lparr>s_date = ''2025-10-25'', s_slots = [''10:00 AM'', ''9:00 AM'']\<rparr>],
                   emergencyAlerts = []\<rparr>"

definition afterForeignBook :: store where
  "afterForeignBook = snd (bookAppointment clock0 ''p001'' ''John Doe'' ''2025-10-25'' ''9:00 AM''
                             ''Filling'' [] storeForeign)"

section \<open>Slot consistency\<close>

text \<open>
  No appointment that is not cancelled has its time on the available list of its day (the
  first entry of the store for its date).
\<close>

definition slotInvariant :: "store \<Rightarrow> bool" where
  "slotInvariant db =
     list_all (\<lambda>a. a_time a \<notin> set (openSlots db (a_date a)))
       (filter (\<lambda>a. a_status a \<noteq> ''cancelled'') (appointments db))"

text \<open>
  The stronger condition that the operations maintain: moreover no two appointments that are
  not cancelled hold the same date and time, and no day lists a label twice.
\<close>

definition active :: "appointment \<Rightarrow> bool" where
  "active a = (a_status a \<noteq> ''cancelled'')"

definition slotOf :: "appointment \<Rightarrow> string \<times> string" where
  "slotOf a = (a_date a, a_time a)"

definition activeSlots :: "appointment list \<Rightarrow> (string \<times> string) list" where
  "activeSlots appts = map slotOf (filter active appts)"

definition consistent :: "store \<Rightarrow> bool" where
  "consistent db =
     (slotInvariant db \<and> distinct (activeSlots (appointments db)) \<and>
      list_all (\<lambda>s. distinct (s_slots s)) (availableSlots db))"

text \<open>
  A day in the life of the store: John books 2:00 PM and cancels, Mary books the freed 2:00 PM,
  and John's cancelled appointment is then rescheduled to 9:00 AM.
\<close>

definition maryPatient :: patient where
  "maryPatient = \<lparr>p_id = ''p002'', p_fullName = ''Mary Major'', p_phone = ''5551234567'',
                   p_dateOfBirth = ''03031985'', p_insurance = ''Aetna'',
                   p_registeredDate = ''2025-10-02'', p_familyMembers = Some []\<rparr>"

definition storeEmpty :: store where
  "storeEmpty =
     \<lparr>patients = [john, maryPatient], appointments = [],
      availableSlots = [\<lparr>s_date = ''2025-10-25'', s_slots = [''2:00 PM'', ''9:00 AM'']\<rparr>],
      emergencyAlerts = []\<rparr>"

definition afterBook :: store where
  "afterBook = snd (bookAppointment clock0 ''p001'' ''John Doe'' ''2025-10-25'' ''2:00 PM''
                      ''Cleaning'' [] storeEmpty)"

definition afterCancel :: store where
  "afterCancel = snd (cancelAppointment clock0 ''a001'' afterBook)"

definition afterRebook :: store where
  "afterRebook = snd (bookAppointment clock0 ''p002'' ''Mary Major'' ''2025-10-25'' ''2:00 PM''
                        ''Filling'' [] afterCancel)"

definition afterReschedule :: store where
  "afterReschedule = snd (rescheduleAppointment clock0 ''a001'' ''2025-10-25'' ''9:00 AM''
                            afterRebook)"

section \<open>Ledgers numbered by the coordinator\<close>

text \<open>
  The ids that the coordinator gives: \<open>bookAppointment\<close> numbers an appointment by the length of
  the ledger it is appended to, and \<open>bookFamilyAppointments\<close> gives ids that hold an underscore.
  In a ledger numbered by the coordinator every appointment carries, for its position, an id
  of one of these two kinds.
\<close>

definition issuedLedger :: "appointment list \<Rightarrow> bool" where
  "issuedLedger appts =
     list_all (\<lambda>i. a_id (appts ! i) = nextAppointmentId (take i appts) \<or>
                   CHR ''_'' \<in> set (a_id (appts ! i)))
       [0..<length appts]"

section \<open>Lists, days and slots\<close>

lemma writeDatabase_all: "writeDatabase (data :: store) persisted = data"
  by (cases data, cases persisted) (simp add: writeDatabase_def)

lemma find_SomeD: "find P xs = Some x \<Longrightarrow> P x \<and> x \<in> set xs"
  by (auto simp: find_Some_iff)

lemma find_updateFirst:
  "(\<And>x. P x \<Longrightarrow> P (f x)) \<Longrightarrow> find P (updateFirst P f xs) = map_option f (find P xs)"
  by (induction xs) auto

lemma length_updateFirst [simp]: "length (updateFirst P f xs) = length xs"
  by (induction xs) auto

lemma findDay_updateDay_same:
  "findDay d (updateDay d f ss) = map_option (\<lambda>s. s\<lparr>s_slots := f (s_slots s)\<rparr>) (findDay d ss)"
  unfolding findDay_def updateDay_def by (rule find_updateFirst) simp

lemma findDay_updateDay_other:
  "d' \<noteq> d \<Longrightarrow> findDay d' (updateDay d f ss) = findDay d' ss"
  unfolding findDay_def updateDay_def by (induction ss) auto

lemma slots_updateDay:
  "map_option s_slots (findDay d' (updateDay d f ss)) =
     (if d' = d then map_option f (map_option s_slots (findDay d ss))
      else map_option s_slots (findDay d' ss))"
  by (simp add: findDay_updateDay_same findDay_updateDay_other option.map_comp comp_def)

lemma set_releaseSlot [simp]: "set (releaseSlot t sl) = insert t (set sl)"
  by (auto simp: releaseSlot_def)

lemma daySlotsOf_simps [simp]:
  "daySlotsOf (db\<lparr>appointments := x\<rparr>) d = daySlotsOf db d"
  "daySlotsOf (db\<lparr>patients := y\<rparr>) d = daySlotsOf db d"
  "daySlotsOf (db\<lparr>availableSlots := ss\<rparr>) d = map_option s_slots (findDay d ss)"
  by (simp_all add: daySlotsOf_def)

section \<open>Failure leaves the persisted store alone\<close>

lemma bookAppointment_failure:
  "\<not> success (fst (bookAppointment clk pid pn d t ty ed st)) \<Longrightarrow>
   snd (bookAppointment clk pid pn d t ty ed st) = st"
  by (auto simp: bookAppointment_def Let_def split: option.splits if_splits)

lemma cancelAppointment_failure:
  "\<not> success (fst (cancelAppointment clk aid st)) \<Longrightarrow> snd (cancelAppointment clk aid st) = st"
  by (auto simp: cancelAppointment_def Let_def split: option.splits if_splits)

lemma cancelAllAppointments_failure:
  "\<not> success (fst (cancelAllAppointments clk pid st)) \<Longrightarrow>
   snd (cancelAllAppointments clk pid st) = st"
  by (auto simp: cancelAllAppointments_def Let_def split: if_splits)

lemma rescheduleAppointment_failure:
  "\<not> success (fst (rescheduleAppointment clk aid nd nt st)) \<Longrightarrow>
   snd (rescheduleAppointment clk aid nd nt st) = st"
  by (auto simp: rescheduleAppointment_def Let_def split: option.splits if_splits)

lemma bookFamilyAppointments_failure:
  "\<not> success (fst (bookFamilyAppointments pd clk pid ms d ty st)) \<Longrightarrow>
   snd (bookFamilyAppointments pd clk pid ms d ty st) = st"
  by (auto simp: bookFamilyAppointments_def Let_def split: option.splits if_splits)

lemma registerNewPatient_failure:
  "\<not> success (fst (registerNewPatient clk n p dob ins st)) \<Longrightarrow>
   snd (registerNewPatient clk n p dob ins st) = st"
  by (auto simp: registerNewPatient_def Let_def split: validation.splits search_result.splits)

lemma notifyStaffEmergency_failure:
  "\<not> success (fst (notifyStaffEmergency clk n det p st)) \<Longrightarrow>
   snd (notifyStaffEmergency clk n det p st) = st"
  by (auto simp: notifyStaffEmergency_def Let_def split: validation.splits if_splits)

text \<open>
  C1. Whatever the operation (book, register, cancel, cancel all, reschedule, emergency
  notify, family booking) and whatever the persisted store, an operation that returns a
  result with \<open>success: false\<close> leaves the four persisted documents exactly as they were: the
  soft-cancellations and slot releases it made on its private copy before the failed check
  are never written.
\<close>

theorem failure_leaves_store_unchanged:
  "\<not> success (fst (executeFunctionCall parseDate clk act st)) \<Longrightarrow>
   snd (executeFunctionCall parseDate clk act st) = st"
  by (cases act)
     (simp_all add: bookAppointment_failure cancelAppointment_failure
        cancelAllAppointments_failure rescheduleAppointment_failure
        bookFamilyAppointments_failure registerNewPatient_failure notifyStaffEmergency_failure)

text \<open>
  John already holds 2:00 PM on 2025-10-25 and asks for 3:00 PM, which is not open: the
  overwrite step changes the private copy, the availability check fails, and the persisted
  store is the one before the call.
\<close>

theorem failure_leaves_store_unchanged_witness:
  "\<not> success (fst (executeFunctionCall isoDate clock0
       (BookAppointment ''p001'' ''John Doe'' ''2025-10-25'' ''3:00 PM'' ''Filling'' []) store0)) \<and>
   overwriteSameDay (sameDayActive ''p001'' ''2025-10-25'')
     ''2025-10-25'' ''overwritten_by_new_booking'' (nowIso clock0) store0 \<noteq> store0 \<and>
   snd (executeFunctionCall isoDate clock0
       (BookAppointment ''p001'' ''John Doe'' ''2025-10-25'' ''3:00 PM'' ''Filling'' []) store0) = store0"
proof -
  have fails: "\<not> success (fst (executeFunctionCall isoDate clock0
       (BookAppointment ''p001'' ''John Doe'' ''2025-10-25'' ''3:00 PM'' ''Filling'' []) store0))"
    by (simp add: bookAppointment_def clock0_def store0_def john_def appt1_def appt2_def readDatabase_def
          overwriteSameDay_def findDay_def updateDay_def releaseSlot_def softCancel_def Let_def
          sameDayActive_def)
  have changed: "overwriteSameDay (sameDayActive ''p001'' ''2025-10-25'')
     ''2025-10-25'' ''overwritten_by_new_booking'' (nowIso clock0) store0 \<noteq> store0"
    by (simp add: clock0_def store0_def john_def appt1_def appt2_def overwriteSameDay_def updateDay_def
          releaseSlot_def softCancel_def sameDayActive_def)
  from fails changed failure_leaves_store_unchanged [OF fails] show ?thesis by blast
qed

section \<open>Cancel\<close>

text \<open>
  C7. \<open>cancelAppointment\<close> answers "Appointment not found" when no appointment has the
  id and "Appointment is already cancelled" when the one found is cancelled, and in both
  cases the store is the one before the call (so nothing is released again). Otherwise it
  succeeds, marks that appointment cancelled, and the appointment's time is on the list of
  its day whenever the store has an entry for that day.
\<close>

theorem cancelAppointment_cases:
  "(find (\<lambda>a. a_id a = appointmentId) (appointments st) = None \<longrightarrow>
      cancelAppointment clk appointmentId st = (Failure ''Appointment not found'', st)) \<and>
   (\<forall>a. find (\<lambda>a. a_id a = appointmentId) (appointments st) = Some a \<and> a_status a = ''cancelled'' \<longrightarrow>
      cancelAppointment clk appointmentId st = (Failure ''Appointment is already cancelled'', st)) \<and>
   (\<forall>a. find (\<lambda>a. a_id a = appointmentId) (appointments st) = Some a \<and> a_status a \<noteq> ''cancelled'' \<longrightarrow>
      success (fst (cancelAppointment clk appointmentId st)) \<and>
      find (\<lambda>a. a_id a = appointmentId) (appointments (snd (cancelAppointment clk appointmentId st))) =
        Some (a\<lparr>a_status := ''cancelled'', a_cancelledAt := Some (nowIso clk)\<rparr>) \<and>
      daySlotsOf (snd (cancelAppointment clk appointmentId st)) (a_date a) =
        map_option (releaseSlot (a_time a)) (daySlotsOf st (a_date a)) \<and>
      (\<forall>sl. daySlotsOf st (a_date a) = Some sl \<longrightarrow>
         (\<exists>sl'. daySlotsOf (snd (cancelAppointment clk appointmentId st)) (a_date a) = Some sl' \<and>
                a_time a \<in> set sl')))"
proof (intro conjI allI impI)
  assume "find (\<lambda>a. a_id a = appointmentId) (appointments st) = None"
  then show "cancelAppointment clk appointmentId st = (Failure ''Appointment not found'', st)"
    by (simp add: cancelAppointment_def readDatabase_def)
next
  fix a
  assume "find (\<lambda>a. a_id a = appointmentId) (appointments st) = Some a \<and> a_status a = ''cancelled''"
  then show "cancelAppointment clk appointmentId st = (Failure ''Appointment is already cancelled'', st)"
    by (simp add: cancelAppointment_def readDatabase_def)
next
  fix a
  assume h: "find (\<lambda>a. a_id a = appointmentId) (appointments st) = Some a \<and> a_status a \<noteq> ''cancelled''"
  then show "success (fst (cancelAppointment clk appointmentId st))"
    by (simp add: cancelAppointment_def readDatabase_def Let_def)
  from h show "find (\<lambda>a. a_id a = appointmentId)
                 (appointments (snd (cancelAppointment clk appointmentId st))) =
               Some (a\<lparr>a_status := ''cancelled'', a_cancelledAt := Some (nowIso clk)\<rparr>)"
    by (simp add: cancelAppointment_def readDatabase_def writeDatabase_all Let_def find_updateFirst)
  from h show rel: "daySlotsOf (snd (cancelAppointment clk appointmentId st)) (a_date a) =
                    map_option (releaseSlot (a_time a)) (daySlotsOf st (a_date a))"
    by (simp add: cancelAppointment_def readDatabase_def writeDatabase_all Let_def slots_updateDay
          daySlotsOf_def)
  fix sl
  assume "daySlotsOf st (a_date a) = Some sl"
  with rel show "\<exists>sl'. daySlotsOf (snd (cancelAppointment clk appointmentId st)) (a_date a) = Some sl' \<and>
                      a_time a \<in> set sl'"
    by simp
qed

text \<open>
  On the example store: no appointment a999; a002 is already cancelled; a001 is scheduled
  at 2:00 PM on 2025-10-25, and cancelling it puts 2:00 PM back on that day's list.
\<close>

theorem cancelAppointment_cases_witness:
  "cancelAppointment clock0 ''a999'' store0 = (Failure ''Appointment not found'', store0) \<and>
   cancelAppointment clock0 ''a002'' store0 = (Failure ''Appointment is already cancelled'', store0) \<and>
   success (fst (cancelAppointment clock0 ''a001'' store0)) \<and>
   map_option a_status (find (\<lambda>a. a_id a = ''a001'')
      (appointments (snd (cancelAppointment clock0 ''a001'' store0)))) = Some ''cancelled'' \<and>
   daySlotsOf (snd (cancelAppointment clock0 ''a001'' store0)) ''2025-10-25'' =
     Some [''10:00 AM'', ''2:00 PM'', ''9:00 AM'']"
proof -
  have none: "find (\<lambda>a. a_id a = ''a999'') (appointments store0) = None"
    by (simp add: store0_def appt1_def appt2_def)
  have two: "find (\<lambda>a. a_id a = ''a002'') (appointments store0) = Some appt2 \<and>
             a_status appt2 = ''cancelled''"
    by (simp add: store0_def appt1_def appt2_def)
  have one: "find (\<lambda>a. a_id a = ''a001'') (appointments store0) = Some appt1 \<and>
             a_status appt1 \<noteq> ''cancelled''"
    by (simp add: store0_def appt1_def appt2_def)
  have day: "daySlotsOf store0 ''2025-10-25'' = Some [''10:00 AM'', ''9:00 AM'']"
    by (simp add: daySlotsOf_def findDay_def store0_def)
  have fields: "a_date appt1 = ''2025-10-25''" "a_time appt1 = ''2:00 PM''"
    by (simp_all add: appt1_def)
  from cancelAppointment_cases [of "''a999''" store0 clock0] none
  have a: "cancelAppointment clock0 ''a999'' store0 = (Failure ''Appointment not found'', store0)"
    by blast
  from cancelAppointment_cases [of "''a002''" store0 clock0] two
  have b: "cancelAppointment clock0 ''a002'' store0 =
           (Failure ''Appointment is already cancelled'', store0)"
    by blast
  from cancelAppointment_cases [of "''a001''" store0 clock0] one
  have c: "success (fst (cancelAppointment clock0 ''a001'' store0)) \<and>
      find (\<lambda>a. a_id a = ''a001'') (appointments (snd (cancelAppointment clock0 ''a001'' store0))) =
        Some (appt1\<lparr>a_status := ''cancelled'', a_cancelledAt := Some (nowIso clock0)\<rparr>) \<and>
      daySlotsOf (snd (cancelAppointment clock0 ''a001'' store0)) (a_date appt1) =
        map_option (releaseSlot (a_time appt1)) (daySlotsOf store0 (a_date appt1))"
    by blast
  from c day fields have d: "daySlotsOf (snd (cancelAppointment clock0 ''a001'' store0)) ''2025-10-25'' =
     Some [''10:00 AM'', ''2:00 PM'', ''9:00 AM'']"
    by (simp add: releaseSlot_def)
  from a b c d show ?thesis by simp
qed

section \<open>Reschedule\<close>

text \<open>
  C10. \<open>rescheduleAppointment\<close> never looks at the status. Whatever the status of the
  appointment found for the id (cancelled included), when the new time is on the new day's
  available list the call succeeds; the appointment keeps its status and takes the new date
  and time; the new label is no longer on the new day's list; and the old label is on the old
  day's list afterwards (when the store has an entry for the old day and the old slot is not
  the new one): a list that lacked it now has it, sorted in, and a list that had it is as it
  was.
\<close>

theorem reschedule_ignores_status:
  assumes found: "find (\<lambda>a. a_id a = appointmentId) (appointments st) = Some a"
      and day: "daySlotsOf st newDate = Some sl"
      and free: "newTime \<in> set sl"
      and run: "rescheduleAppointment clk appointmentId newDate newTime st = (r, st')"
  shows "success r \<and>
         (\<exists>a'. find (\<lambda>a. a_id a = appointmentId) (appointments st') = Some a' \<and>
               a_status a' = a_status a \<and> a_date a' = newDate \<and> a_time a' = newTime \<and>
               a_rescheduledFrom a' = Some (a_date a, a_time a)) \<and>
         daySlotsOf st' newDate =
           Some (filter (\<lambda>s. s \<noteq> newTime)
                   (if a_date a = newDate then releaseSlot (a_time a) sl else sl)) \<and>
         (a_date a \<noteq> newDate \<longrightarrow>
            daySlotsOf st' (a_date a) =
              map_option (releaseSlot (a_time a)) (daySlotsOf st (a_date a))) \<and>
         (\<exists>sl'. daySlotsOf st' newDate = Some sl' \<and> newTime \<notin> set sl' \<and>
                set sl' = (set sl \<union> (if a_date a = newDate then {a_time a} else {})) - {newTime}) \<and>
         (\<forall>old. daySlotsOf st (a_date a) = Some old \<and> (a_date a, a_time a) \<noteq> (newDate, newTime) \<longrightarrow>
            (\<exists>old'. daySlotsOf st' (a_date a) = Some old' \<and> a_time a \<in> set old')) \<and>
         (\<forall>old. daySlotsOf st (a_date a) = Some old \<and> a_date a \<noteq> newDate \<longrightarrow>
            daySlotsOf st' (a_date a) =
              Some (if a_time a \<in> set old then old else sort (old @ [a_time a])))"
proof -
  let ?moved = "a\<lparr>a_date := newDate, a_time := newTime,
                   a_rescheduledFrom := Some (a_date a, a_time a),
                   a_rescheduledAt := Some (nowIso clk)\<rparr>"
  let ?slots = "updateDay newDate (filter (\<lambda>s. s \<noteq> newTime))
                  (updateDay (a_date a) (releaseSlot (a_time a)) (availableSlots st))"
  from day obtain nd where nd: "findDay newDate (availableSlots st) = Some nd" "s_slots nd = sl"
    by (auto simp: daySlotsOf_def)
  from found have aid: "a_id a = appointmentId" by (auto dest: find_SomeD)
  have res: "r = Rescheduled ''Appointment rescheduled successfully'' ?moved"
    and st': "st' = st\<lparr>availableSlots := ?slots,
                       appointments := updateFirst (\<lambda>a. a_id a = appointmentId) (\<lambda>_. ?moved) (appointments st)\<rparr>"
    using run found nd free
    by (simp_all add: rescheduleAppointment_def readDatabase_def writeDatabase_all Let_def)
  have 1: "success r" by (simp add: res)
  have 2: "find (\<lambda>a. a_id a = appointmentId) (appointments st') = Some ?moved"
    using found aid by (simp add: st' find_updateFirst)
  have 3: "daySlotsOf st' newDate =
           Some (filter (\<lambda>s. s \<noteq> newTime)
                   (if a_date a = newDate then releaseSlot (a_time a) sl else sl))"
    using nd by (auto simp add: st' daySlotsOf_def slots_updateDay)
  have 4: "a_date a \<noteq> newDate \<Longrightarrow>
            daySlotsOf st' (a_date a) =
              map_option (releaseSlot (a_time a)) (daySlotsOf st (a_date a))"
    by (simp add: st' daySlotsOf_def slots_updateDay)
  let ?sl' = "filter (\<lambda>s. s \<noteq> newTime)
                (if a_date a = newDate then releaseSlot (a_time a) sl else sl)"
  have gone: "newTime \<notin> set ?sl'" by simp
  have left: "set ?sl' = (set sl \<union> (if a_date a = newDate then {a_time a} else {})) - {newTime}"
    by auto
  have 5: "\<exists>sl'. daySlotsOf st' newDate = Some sl' \<and> newTime \<notin> set sl' \<and>
                set sl' = (set sl \<union> (if a_date a = newDate then {a_time a} else {})) - {newTime}"
    using 3 gone left by (intro exI [of _ ?sl'] conjI)
  have 6: "\<exists>old'. daySlotsOf st' (a_date a) = Some old' \<and> a_time a \<in> set old'"
    if old: "daySlotsOf st (a_date a) = Some old"
      and other: "(a_date a, a_time a) \<noteq> (newDate, newTime)" for old
  proof (cases "a_date a = newDate")
    case True
    with other have "a_time a \<noteq> newTime" by simp
    with True 3 show ?thesis by auto
  next
    case False
    from 4 [OF False] old show ?thesis by simp
  qed
  have 7: "daySlotsOf st' (a_date a) =
             Some (if a_time a \<in> set old then old else sort (old @ [a_time a]))"
    if "daySlotsOf st (a_date a) = Some old" and "a_date a \<noteq> newDate" for old
    using 4 [OF that(2)] that(1) by (simp add: releaseSlot_def)
  have c2: "\<exists>a'. find (\<lambda>a. a_id a = appointmentId) (appointments st') = Some a' \<and>
               a_status a' = a_status a \<and> a_date a' = newDate \<and> a_time a' = newTime \<and>
               a_rescheduledFrom a' = Some (a_date a, a_time a)"
    using 2 by simp
  have c4: "a_date a \<noteq> newDate \<longrightarrow>
            daySlotsOf st' (a_date a) =
              map_option (releaseSlot (a_time a)) (daySlotsOf st (a_date a))"
    using 4 by (rule impI)
  have c6: "\<forall>old. daySlotsOf st (a_date a) = Some old \<and> (a_date a, a_time a) \<noteq> (newDate, newTime) \<longrightarrow>
            (\<exists>old'. daySlotsOf st' (a_date a) = Some old' \<and> a_time a \<in> set old')"
    using 6 by (intro allI impI) (elim conjE)
  have c7: "\<forall>old. daySlotsOf st (a_date a) = Some old \<and> a_date a \<noteq> newDate \<longrightarrow>
            daySlotsOf st' (a_date a) =
              Some (if a_time a \<in> set old then old else sort (old @ [a_time a]))"
    using 7 by (intro allI impI) (elim conjE)
  show ?thesis
    using 1 c2 3 c4 5 c6 c7 by (intro conjI)
qed

text \<open>
  Two cancelled appointments whose old label is off the list of its day. In the first store
  Mary holds 9:00 AM on 2025-10-27, the old slot of John's cancelled a002: moving a002 to
  10:00 AM on 2025-10-25 succeeds, takes 10:00 AM off that day, puts 9:00 AM back on
  2025-10-27, and leaves a002 cancelled. In the second, John's cancelled a001 is moved within
  2025-10-25 from 2:00 PM, which Mary has booked since, to 9:00 AM: 2:00 PM is back on the
  list and 9:00 AM is gone.
\<close>

theorem reschedule_ignores_status_witness:
  "a_status appt2 = ''cancelled'' \<and>
   daySlotsOf storeHeld ''2025-10-27'' = Some [''10:00 AM'', ''11:00 AM''] \<and>
   success (fst (rescheduleAppointment clock0 ''a002'' ''2025-10-25'' ''10:00 AM'' storeHeld)) \<and>
   (\<exists>a'. find (\<lambda>a. a_id a = ''a002'')
            (appointments (snd (rescheduleAppointment clock0 ''a002'' ''2025-10-25'' ''10:00 AM''
                                  storeHeld))) = Some a' \<and>
         a_status a' = ''cancelled'' \<and> a_date a' = ''2025-10-25'' \<and> a_time a' = ''10:00 AM'') \<and>
   daySlotsOf (snd (rescheduleAppointment clock0 ''a002'' ''2025-10-25'' ''10:00 AM'' storeHeld))
     ''2025-10-25'' = Some [''9:00 AM''] \<and>
   daySlotsOf (snd (rescheduleAppointment clock0 ''a002'' ''2025-10-25'' ''10:00 AM'' storeHeld))
     ''2025-10-27'' = Some [''10:00 AM'', ''11:00 AM'', ''9:00 AM''] \<and>
   map a_status (appointments afterRebook) = [''cancelled'', ''scheduled''] \<and>
   daySlotsOf afterRebook ''2025-10-25'' = Some [''9:00 AM''] \<and>
   success (fst (rescheduleAppointment clock0 ''a001'' ''2025-10-25'' ''9:00 AM'' afterRebook)) \<and>
   (\<exists>old'. daySlotsOf (snd (rescheduleAppointment clock0 ''a001'' ''2025-10-25'' ''9:00 AM''
                              afterRebook)) ''2025-10-25'' = Some old' \<and>
           ''2:00 PM'' \<in> set old' \<and> ''9:00 AM'' \<notin> set old')"
proof -
  have found: "find (\<lambda>a. a_id a = ''a002'') (appointments storeHeld) = Some appt2"
    by (simp add: storeHeld_def appt1_def appt2_def)
  have day: "daySlotsOf storeHeld ''2025-10-25'' = Some [''10:00 AM'', ''9:00 AM'']"
    by (simp add: daySlotsOf_def findDay_def storeHeld_def)
  have old: "daySlotsOf storeHeld ''2025-10-27'' = Some [''10:00 AM'', ''11:00 AM'']"
    by (simp add: daySlotsOf_def findDay_def storeHeld_def)
  have free: "''10:00 AM'' \<in> set [''10:00 AM'', ''9:00 AM'']" by simp
  have fields: "a_status appt2 = ''cancelled''" "a_date appt2 = ''2025-10-27''"
    "a_time appt2 = ''9:00 AM''"
    by (simp_all add: appt2_def)
  have other: "a_date appt2 \<noteq> ''2025-10-25''" by (simp add: appt2_def)
  have sorted: "sort ([''10:00 AM'', ''11:00 AM''] @ [''9:00 AM'']) =
                  [''10:00 AM'', ''11:00 AM'', ''9:00 AM'']"
    by code_simp
  let ?run = "rescheduleAppointment clock0 ''a002'' ''2025-10-25'' ''10:00 AM'' storeHeld"
  note first = reschedule_ignores_status [OF found day free prod.collapse [symmetric], of clock0]
  note f1 = first [THEN conjunct1]
  note f2 = first [THEN conjunct2, THEN conjunct1]
  note f3 = first [THEN conjunct2, THEN conjunct2, THEN conjunct1]
  note f7 = first [THEN conjunct2, THEN conjunct2, THEN conjunct2, THEN conjunct2,
                   THEN conjunct2, THEN conjunct2]
  have a1: "success (fst ?run)" by (rule f1)
  from f2 obtain a' where a': "find (\<lambda>a. a_id a = ''a002'') (appointments (snd ?run)) = Some a'"
    "a_status a' = a_status appt2" "a_date a' = ''2025-10-25''" "a_time a' = ''10:00 AM''"
    by blast
  then have a2: "\<exists>a'. find (\<lambda>a. a_id a = ''a002'') (appointments (snd ?run)) = Some a' \<and>
         a_status a' = ''cancelled'' \<and> a_date a' = ''2025-10-25'' \<and> a_time a' = ''10:00 AM''"
    by (simp add: fields(1))
  have a3: "daySlotsOf (snd ?run) ''2025-10-25'' = Some [''9:00 AM'']"
    using f3 other by simp
  have absent: "a_time appt2 \<notin> set [''10:00 AM'', ''11:00 AM'']"
    by (simp add: fields(3))
  from f7 [rule_format, of "[''10:00 AM'', ''11:00 AM'']"] old other fields(2)
  have "daySlotsOf (snd ?run) ''2025-10-27'' =
      Some (if a_time appt2 \<in> set [''10:00 AM'', ''11:00 AM''] then [''10:00 AM'', ''11:00 AM'']
            else sort ([''10:00 AM'', ''11:00 AM''] @ [a_time appt2]))"
    by simp
  then have a4: "daySlotsOf (snd ?run) ''2025-10-27'' = Some [''10:00 AM'', ''11:00 AM'', ''9:00 AM'']"
    using absent by (simp only: if_False fields(3) sorted)
  have found2: "find (\<lambda>a. a_id a = ''a001'') (appointments afterRebook) =
                  Some (hd (appointments afterRebook))"
    by code_simp
  have fields2: "a_date (hd (appointments afterRebook)) = ''2025-10-25''"
    "a_time (hd (appointments afterRebook)) = ''2:00 PM''"
    by code_simp+
  have statuses: "map a_status (appointments afterRebook) = [''cancelled'', ''scheduled'']"
    by code_simp
  have day2: "daySlotsOf afterRebook ''2025-10-25'' = Some [''9:00 AM'']"
    by code_simp
  have free2: "''9:00 AM'' \<in> set [''9:00 AM'']" by simp
  let ?run2 = "rescheduleAppointment clock0 ''a001'' ''2025-10-25'' ''9:00 AM'' afterRebook"
  note second = reschedule_ignores_status [OF found2 day2 free2 prod.collapse [symmetric], of clock0]
  note s1 = second [THEN conjunct1]
  note s5 = second [THEN conjunct2, THEN conjunct2, THEN conjunct2, THEN conjunct2, THEN conjunct1]
  note s6 = second [THEN conjunct2, THEN conjunct2, THEN conjunct2, THEN conjunct2,
                    THEN conjunct2, THEN conjunct1]
  have b1: "success (fst ?run2)" by (rule s1)
  from s5 obtain sl' where b2: "daySlotsOf (snd ?run2) ''2025-10-25'' = Some sl'"
    "''9:00 AM'' \<notin> set sl'" by blast
  have "daySlotsOf afterRebook (a_date (hd (appointments afterRebook))) = Some [''9:00 AM''] \<and>
        (a_date (hd (appointments afterRebook)), a_time (hd (appointments afterRebook))) \<noteq>
          (''2025-10-25'', ''9:00 AM'')"
    by (simp add: fields2 day2)
  with s6 [rule_format, of "[''9:00 AM'']"]
  obtain old' where "daySlotsOf (snd ?run2) (a_date (hd (appointments afterRebook))) = Some old'"
    "a_time (hd (appointments afterRebook)) \<in> set old'"
    by blast
  then have b3: "daySlotsOf (snd ?run2) ''2025-10-25'' = Some old'" "''2:00 PM'' \<in> set old'"
    by (simp_all add: fields2)
  from b2 b3 have b4: "\<exists>old'. daySlotsOf (snd ?run2) ''2025-10-25'' = Some old' \<and>
           ''2:00 PM'' \<in> set old' \<and> ''9:00 AM'' \<notin> set old'"
    by simp
  show ?thesis
    using fields(1) old a1 a2 a3 a4 statuses day2 b1 b4
    by (intro conjI) assumption+
qed

section \<open>Overwrite and booking\<close>

lemma findDay_releaseAll_same:
  "findDay d (foldl (\<lambda>ss a. updateDay d (releaseSlot (a_time a)) ss) ss as) =
     map_option (\<lambda>s. s\<lparr>s_slots := foldl (\<lambda>sl a. releaseSlot (a_time a) sl) (s_slots s) as\<rparr>)
       (findDay d ss)"
proof (induction as arbitrary: ss)
  case Nil
  show ?case by (simp add: option.map_ident)
next
  case (Cons a as)
  show ?case
    by (simp add: Cons.IH findDay_updateDay_same option.map_comp comp_def)
qed

lemma findDay_releaseAll_other:
  "d' \<noteq> d \<Longrightarrow>
   findDay d' (foldl (\<lambda>ss a. updateDay d (releaseSlot (a_time a)) ss) ss as) = findDay d' ss"
  by (induction as arbitrary: ss) (simp_all add: findDay_updateDay_other)

lemma set_releaseAll:
  "set (foldl (\<lambda>sl a. releaseSlot (a_time a) sl) sl as) = set sl \<union> a_time ` set as"
  by (induction as arbitrary: sl) auto

lemma daySlotsOf_overwriteSameDay:
  "daySlotsOf (overwriteSameDay P d reason stamp db) d =
     map_option (\<lambda>sl. foldl (\<lambda>sl a. releaseSlot (a_time a) sl) sl (filter P (appointments db)))
       (daySlotsOf db d)"
  by (simp add: overwriteSameDay_def daySlotsOf_def findDay_releaseAll_same option.map_comp comp_def)

lemma appointments_overwriteSameDay:
  "appointments (overwriteSameDay P d reason stamp db) =
     map (\<lambda>a. if P a then softCancel stamp reason a else a) (appointments db)"
  by (simp add: overwriteSameDay_def)

lemma patients_overwriteSameDay [simp]:
  "patients (overwriteSameDay P d reason stamp db) = patients db"
  by (simp add: overwriteSameDay_def)

lemma newAppointment_map [simp]:
  "newAppointment clk (map f xs) pid pn d t ty ed = newAppointment clk xs pid pn d t ty ed"
  by (simp add: newAppointment_def nextAppointmentId_def)

text \<open>What a successful \<open>bookAppointment\<close> returns and writes.\<close>

lemma bookAppointment_success:
  assumes run: "bookAppointment clk patientId patientName date time type details st = (r, st1)"
      and ok: "success r"
  shows "\<exists>sl0. daySlotsOf (overwriteSameDay (sameDayActive patientId date) date
                   ''overwritten_by_new_booking'' (nowIso clk) st) date = Some sl0 \<and>
               time \<in> set sl0 \<and>
               r = Booked (newAppointment clk (appointments st) patientId patientName date time
                             type details) \<and>
               appointments st1 =
                 map (\<lambda>a. if sameDayActive patientId date a
                          then softCancel (nowIso clk) ''overwritten_by_new_booking'' a else a)
                   (appointments st) @
                 [newAppointment clk (appointments st) patientId patientName date time type details] \<and>
               daySlotsOf st1 date = Some (filter (\<lambda>s. s \<noteq> time) sl0)"
proof -
  let ?db1 = "overwriteSameDay (sameDayActive patientId date) date
                ''overwritten_by_new_booking'' (nowIso clk) st"
  from run ok obtain day where day: "findDay date (availableSlots ?db1) = Some day"
    and free: "time \<in> set (s_slots day)"
    by (auto simp: bookAppointment_def readDatabase_def Let_def split: option.splits if_splits)
  from run ok day free have r: "r = Booked (newAppointment clk (appointments ?db1) patientId
                                     patientName date time type details)"
    and st1: "st1 = ?db1\<lparr>appointments := appointments ?db1 @
                       [newAppointment clk (appointments ?db1) patientId patientName date time
                          type details],
                     availableSlots := updateDay date (filter (\<lambda>s. s \<noteq> time))
                                         (availableSlots ?db1)\<rparr>"
    by (auto simp: bookAppointment_def readDatabase_def writeDatabase_all Let_def
             split: option.splits if_splits)
  have len: "newAppointment clk (appointments ?db1) patientId patientName date time type details =
             newAppointment clk (appointments st) patientId patientName date time type details"
    by (simp add: appointments_overwriteSameDay)
  have d0: "daySlotsOf ?db1 date = Some (s_slots day)"
    using day by (simp add: daySlotsOf_def)
  have d1: "daySlotsOf st1 date = Some (filter (\<lambda>s. s \<noteq> time) (s_slots day))"
    using day by (simp add: st1 slots_updateDay)
  have ap: "appointments st1 =
              map (\<lambda>a. if sameDayActive patientId date a
                       then softCancel (nowIso clk) ''overwritten_by_new_booking'' a else a)
                (appointments st) @
              [newAppointment clk (appointments st) patientId patientName date time type details]"
    by (simp add: st1 appointments_overwriteSameDay)
  from d0 d1 free r len ap show ?thesis by simp
qed

text \<open>A request that names an existing patient correctly and an open slot is booked.\<close>

lemma bookAppointment_valid_succeeds:
  assumes patient: "find (\<lambda>p. p_id p = patientId) (patients st) = Some p"
      and name: "p_fullName p = patientName"
      and day: "daySlotsOf st date = Some sl"
      and free: "time \<in> set sl"
  shows "success (fst (bookAppointment clk patientId patientName date time type details st))"
proof -
  let ?db1 = "overwriteSameDay (sameDayActive patientId date) date
                ''overwritten_by_new_booking'' (nowIso clk) st"
  let ?sl0 = "foldl (\<lambda>sl a. releaseSlot (a_time a) sl) sl
                (filter (sameDayActive patientId date) (appointments st))"
  have "daySlotsOf ?db1 date = Some ?sl0"
    using day by (simp add: daySlotsOf_overwriteSameDay)
  then obtain dd where dd: "findDay date (availableSlots ?db1) = Some dd" "s_slots dd = ?sl0"
    by (auto simp: daySlotsOf_def)
  have "time \<in> set ?sl0" using free by (simp add: set_releaseAll)
  with dd patient name show ?thesis
    by (simp add: bookAppointment_def readDatabase_def Let_def)
qed

text \<open>What \<open>cancelAppointment\<close> writes for an appointment that is not cancelled.\<close>

lemma cancelAppointment_active:
  assumes "find (\<lambda>a. a_id a = appointmentId) (appointments st) = Some a"
      and "a_status a \<noteq> ''cancelled''"
  shows "success (fst (cancelAppointment clk appointmentId st))"
    and "daySlotsOf (snd (cancelAppointment clk appointmentId st)) (a_date a) =
           map_option (releaseSlot (a_time a)) (daySlotsOf st (a_date a))"
  using assms
  by (simp_all add: cancelAppointment_def readDatabase_def writeDatabase_all Let_def slots_updateDay
        daySlotsOf_def)

section \<open>Appointment ids\<close>

lemma issuedLedger_iff:
  "issuedLedger appts \<longleftrightarrow>
     (\<forall>i<length appts. a_id (appts ! i) = nextAppointmentId (take i appts) \<or>
                        CHR ''_'' \<in> set (a_id (appts ! i)))"
  by (auto simp: issuedLedger_def list_all_iff)

lemma parseDigits_snoc:
  "parseDigits (s @ [c]) = 10 * parseDigits s + ((of_char c :: nat) - 48)"
  by (simp add: parseDigits_def)

lemma of_char_digitChar: "d < 10 \<Longrightarrow> (of_char (digitChar d) :: nat) = 48 + d"
  by (simp add: digitChar_def)

lemma parseDigits_string_of_nat: "parseDigits (string_of_nat n) = n"
proof (induction n rule: string_of_nat.induct)
  case (1 n)
  show ?case
  proof (cases "n < 10")
    case True
    then show ?thesis
      by (simp add: string_of_nat.simps [of n] parseDigits_def of_char_digitChar)
  next
    case False
    with 1 have "parseDigits (string_of_nat (n div 10)) = n div 10" by simp
    with False show ?thesis
      by (simp add: string_of_nat.simps [of n] parseDigits_snoc of_char_digitChar)
  qed
qed

lemma parseDigits_zeros: "parseDigits (replicate k (CHR ''0'') @ s) = parseDigits s"
proof -
  have "foldl (\<lambda>acc c. 10 * acc + ((of_char c :: nat) - 48)) 0 (replicate k (CHR ''0'')) = 0"
    by (induction k) simp_all
  then show ?thesis by (simp add: parseDigits_def)
qed

lemma parseDigits_nextAppointmentId:
  "parseDigits (tl (nextAppointmentId appts)) = length appts + 1"
  by (simp add: nextAppointmentId_def padStart_def parseDigits_zeros parseDigits_string_of_nat)

text \<open>The number of an appointment determines the length of the ledger it was appended to.\<close>

lemma nextAppointmentId_inj:
  "nextAppointmentId xs = nextAppointmentId ys \<Longrightarrow> length xs = length ys"
  using parseDigits_nextAppointmentId [of xs] parseDigits_nextAppointmentId [of ys] by simp

lemma nextAppointmentId_length:
  "length xs = length ys \<Longrightarrow> nextAppointmentId xs = nextAppointmentId ys"
  by (simp add: nextAppointmentId_def)

lemma isDigit_string_of_nat: "c \<in> set (string_of_nat n) \<Longrightarrow> isDigit c"
proof (induction n rule: string_of_nat.induct)
  case (1 n)
  show ?case
  proof (cases "n < 10")
    case True
    with 1(2) show ?thesis
      by (simp add: string_of_nat.simps [of n] isDigit_def of_char_digitChar)
  next
    case False
    with 1(2) have "c \<in> set (string_of_nat (n div 10)) \<or> c = digitChar (n mod 10)"
      by (auto simp: string_of_nat.simps [of n])
    then show ?thesis
    proof
      assume "c \<in> set (string_of_nat (n div 10))"
      with 1(1) False show ?thesis by simp
    next
      assume "c = digitChar (n mod 10)"
      then show ?thesis by (simp add: isDigit_def of_char_digitChar)
    qed
  qed
qed

lemma nextAppointmentId_no_underscore: "CHR ''_'' \<notin> set (nextAppointmentId appts)"
proof
  assume "CHR ''_'' \<in> set (nextAppointmentId appts)"
  then have "CHR ''_'' \<in> set (string_of_nat (length appts + 1))"
    by (auto simp: nextAppointmentId_def padStart_def split: if_splits)
  then have "isDigit (CHR ''_'')" by (rule isDigit_string_of_nat)
  then show False by (simp add: isDigit_def)
qed

text \<open>
  On a ledger numbered by the coordinator the id that \<open>bookAppointment\<close> is about to give is
  carried by no appointment.
\<close>

lemma issuedLedger_fresh:
  assumes "issuedLedger appts"
  shows "\<forall>a\<in>set appts. a_id a \<noteq> nextAppointmentId appts"
proof
  fix a
  assume "a \<in> set appts"
  then obtain i where i: "i < length appts" "appts ! i = a"
    by (auto simp: in_set_conv_nth)
  with assms have "a_id a = nextAppointmentId (take i appts) \<or> CHR ''_'' \<in> set (a_id a)"
    by (auto simp: issuedLedger_iff)
  then show "a_id a \<noteq> nextAppointmentId appts"
  proof
    assume eq: "a_id a = nextAppointmentId (take i appts)"
    show ?thesis
    proof
      assume "a_id a = nextAppointmentId appts"
      with eq have "length (take i appts) = length appts"
        by (intro nextAppointmentId_inj) simp
      with i(1) show False by simp
    qed
  next
    assume "CHR ''_'' \<in> set (a_id a)"
    then show ?thesis using nextAppointmentId_no_underscore [of appts] by auto
  qed
qed

lemma issuedLedger_Nil [simp]: "issuedLedger []"
  by (simp add: issuedLedger_def)

lemma issuedLedger_cong:
  assumes "map a_id xs = map a_id ys"
  shows "issuedLedger xs = issuedLedger ys"
proof -
  from assms have len: "length xs = length ys" by (rule map_eq_imp_length_eq)
  have ids: "a_id (xs ! i) = a_id (ys ! i)" if "i < length ys" for i
    using assms that len by (metis nth_map)
  have nxt: "nextAppointmentId (take i xs) = nextAppointmentId (take i ys)" for i
    by (rule nextAppointmentId_length) (simp add: len)
  show ?thesis
    by (simp add: issuedLedger_iff len ids nxt)
qed

lemma issuedLedger_snoc:
  assumes "issuedLedger xs"
      and "a_id b = nextAppointmentId xs \<or> CHR ''_'' \<in> set (a_id b)"
  shows "issuedLedger (xs @ [b])"
  unfolding issuedLedger_iff
proof (intro allI impI)
  fix i
  assume "i < length (xs @ [b])"
  then consider "i < length xs" | "i = length xs" by fastforce
  then show "a_id ((xs @ [b]) ! i) = nextAppointmentId (take i (xs @ [b])) \<or>
             CHR ''_'' \<in> set (a_id ((xs @ [b]) ! i))"
  proof cases
    case 1
    with assms(1) show ?thesis by (simp add: issuedLedger_iff nth_append)
  next
    case 2
    with assms(2) show ?thesis by simp
  qed
qed

lemma map_a_id_updateFirst:
  "(\<And>a. P a \<Longrightarrow> a_id (f a) = a_id a) \<Longrightarrow> map a_id (updateFirst P f xs) = map a_id xs"
  by (induction xs) simp_all

text \<open>Every operation leaves a ledger numbered by the coordinator numbered by the coordinator.\<close>

lemma bookAppointment_issued:
  assumes "issuedLedger (appointments st)"
  shows "issuedLedger (appointments (snd (bookAppointment clk pid pn d t ty ed st)))"
proof (cases "success (fst (bookAppointment clk pid pn d t ty ed st))")
  case False
  with assms show ?thesis by (simp add: bookAppointment_failure)
next
  case True
  let ?g = "\<lambda>a. if sameDayActive pid d a
                then softCancel (nowIso clk) ''overwritten_by_new_booking'' a else a"
  let ?new = "newAppointment clk (appointments st) pid pn d t ty ed"
  obtain r st1 where run: "bookAppointment clk pid pn d t ty ed st = (r, st1)"
    by fastforce
  with True have ok: "success r" by simp
  have ap: "appointments st1 = map ?g (appointments st) @ [?new]"
    using bookAppointment_success [OF run ok] by (elim exE conjE)
  have ids: "map a_id (map ?g (appointments st)) = map a_id (appointments st)"
    by (simp add: softCancel_def)
  have old: "issuedLedger (map ?g (appointments st))"
    using assms by (simp add: issuedLedger_cong [OF ids])
  have new: "a_id ?new = nextAppointmentId (map ?g (appointments st)) \<or>
             CHR ''_'' \<in> set (a_id ?new)"
    by (simp add: newAppointment_def nextAppointmentId_def)
  have "issuedLedger (map ?g (appointments st) @ [?new])"
    using old new by (rule issuedLedger_snoc)
  then show ?thesis by (simp add: run ap)
qed

lemma cancelAppointment_ids:
  "map a_id (appointments (snd (cancelAppointment clk aid st))) = map a_id (appointments st)"
  by (simp add: cancelAppointment_def readDatabase_def writeDatabase_all Let_def
        map_a_id_updateFirst split: option.splits)

lemma cancelAllAppointments_ids:
  "map a_id (appointments (snd (cancelAllAppointments clk pid st))) = map a_id (appointments st)"
  by (simp add: cancelAllAppointments_def readDatabase_def writeDatabase_all Let_def)

lemma rescheduleAppointment_ids:
  "map a_id (appointments (snd (rescheduleAppointment clk aid nd nt st))) =
     map a_id (appointments st)"
proof (cases "find (\<lambda>a. a_id a = aid) (appointments st)")
  case None
  then show ?thesis by (simp add: rescheduleAppointment_def readDatabase_def)
next
  case (Some a)
  then have "a_id a = aid" by (auto dest: find_SomeD)
  with Some show ?thesis
    by (simp add: rescheduleAppointment_def readDatabase_def writeDatabase_all Let_def
          map_a_id_updateFirst split: option.splits)
qed

lemma familyLoop_issued:
  "issuedLedger appts \<Longrightarrow>
   issuedLedger (fst (snd (familyLoop clk ppid pp d slots ms (ps, appts, booked, i))))"
proof (induction ms arbitrary: ps appts booked i)
  case Nil
  then show ?case by simp
next
  case (Cons m ms)
  show ?case
  proof (cases "i \<ge> length slots")
    case True
    with Cons.prems show ?thesis by simp
  next
    case False
    have "issuedLedger (appts @ [familyAppointmentOf clk pid' m d slots i])" for pid'
      using Cons.prems by (intro issuedLedger_snoc) (simp_all add: familyAppointmentOf_def)
    with False show ?thesis
      by (simp add: Let_def Cons.IH)
  qed
qed

lemma bookFamilyAppointments_issued:
  assumes "issuedLedger (appointments st)"
  shows "issuedLedger (appointments (snd (bookFamilyAppointments pd clk pid ms d ty st)))"
proof -
  have pre: "issuedLedger (appointments (familyPreempted clk pid pp ms d st))" for pp
  proof -
    have ids: "map a_id (appointments (familyPreempted clk pid pp ms d st)) =
               map a_id (appointments st)"
      by (simp add: familyPreempted_def Let_def appointments_overwriteSameDay softCancel_def)
    show ?thesis using assms by (simp add: issuedLedger_cong [OF ids])
  qed
  have start: "issuedLedger (appointments (familyPreempted clk pid pp ms d st) @
                 [primaryAppointmentOf clk pid pp d slots ty])" for pp slots
    using pre [of pp] by (intro issuedLedger_snoc) (simp_all add: primaryAppointmentOf_def)
  show ?thesis
    using assms
    by (simp add: bookFamilyAppointments_def readDatabase_def writeDatabase_all Let_def
          familyLoop_issued [OF start] split: option.splits)
qed

lemma operations_keep_issued:
  assumes "issuedLedger (appointments st)"
  shows "issuedLedger (appointments (snd (executeFunctionCall parseDate clk act st)))"
proof (cases act)
  case (BookAppointment pid pn d t ty ed)
  with assms show ?thesis by (simp add: bookAppointment_issued)
next
  case (RegisterNewPatient n p dob ins)
  have "appointments (snd (registerNewPatient clk n p dob ins st)) = appointments st"
    by (auto simp: registerNewPatient_def addPatient_def Let_def
             split: validation.splits search_result.splits)
  with assms RegisterNewPatient show ?thesis by simp
next
  case (CancelAppointment aid)
  with assms show ?thesis
    by (simp add: issuedLedger_cong [OF cancelAppointment_ids])
next
  case (CancelAllAppointments pid)
  with assms show ?thesis
    by (simp add: issuedLedger_cong [OF cancelAllAppointments_ids])
next
  case (RescheduleAppointment aid nd nt)
  with assms show ?thesis
    by (simp add: issuedLedger_cong [OF rescheduleAppointment_ids])
next
  case (NotifyStaffEmergency n det p)
  have "appointments (snd (notifyStaffEmergency clk n det p st)) = appointments st"
    by (auto simp: notifyStaffEmergency_def readDatabase_def writeDatabase_all Let_def
             split: validation.splits)
  with assms NotifyStaffEmergency show ?thesis by simp
next
  case (BookFamilyAppointments pid ms d ty)
  with assms show ?thesis by (simp add: bookFamilyAppointments_issued)
qed

lemma store0_issued: "issuedLedger (appointments store0)"
  by code_simp

section \<open>Book, then cancel\<close>

lemma find_append_last:
  "\<forall>x\<in>set xs. \<not> P x \<Longrightarrow> P y \<Longrightarrow> find P (xs @ [y]) = Some y"
  by (induction xs) auto

lemma a_id_softCancel [simp]: "a_id (softCancel stamp reason a) = a_id a"
  by (simp add: softCancel_def)

lemma newAppointment_fields [simp]:
  "a_id (newAppointment clk appts pid pn d t ty ed) = nextAppointmentId appts"
  "a_patientId (newAppointment clk appts pid pn d t ty ed) = pid"
  "a_date (newAppointment clk appts pid pn d t ty ed) = d"
  "a_time (newAppointment clk appts pid pn d t ty ed) = t"
  "a_type (newAppointment clk appts pid pn d t ty ed) = ty"
  "a_status (newAppointment clk appts pid pn d t ty ed) = ''scheduled''"
  by (simp_all add: newAppointment_def)

text \<open>
  C6. On a ledger in which no appointment carries the id that the booking is about to assign
  (the letter a and the ledger's length plus one, padded to three digits), a booking that names
  an existing patient by the stored name and asks for a time on the day's available list
  succeeds, and afterwards that time is not on the day's list; cancelling the appointment just
  created, by its id, succeeds and the time is on the day's list again. The condition on the
  ledger is needed: \<open>cancelAppointment\<close> takes the first appointment of the given id, and on
  a ledger that already holds the id the call reaches the older appointment. It holds on every
  ledger numbered by the coordinator (\<open>issuedLedger_fresh\<close>), a property that the empty ledger
  has and every operation keeps (\<open>operations_keep_issued\<close>).
\<close>

theorem book_cancel_roundtrip:
  assumes patient: "find (\<lambda>p. p_id p = patientId) (patients st) = Some p"
      and name: "p_fullName p = patientName"
      and day: "daySlotsOf st date = Some sl"
      and free: "time \<in> set sl"
      and fresh: "\<forall>a\<in>set (appointments st). a_id a \<noteq> nextAppointmentId (appointments st)"
  shows "\<exists>new st1.
           bookAppointment clk patientId patientName date time type details st = (Booked new, st1) \<and>
           (\<exists>sl1. daySlotsOf st1 date = Some sl1 \<and> time \<notin> set sl1) \<and>
           success (fst (cancelAppointment clk2 (a_id new) st1)) \<and>
           (\<exists>sl2. daySlotsOf (snd (cancelAppointment clk2 (a_id new) st1)) date = Some sl2 \<and>
                  time \<in> set sl2)"
proof -
  let ?new = "newAppointment clk (appointments st) patientId patientName date time type details"
  let ?g = "\<lambda>a. if sameDayActive patientId date a
                then softCancel (nowIso clk) ''overwritten_by_new_booking'' a else a"
  obtain r st1 where run:
    "bookAppointment clk patientId patientName date time type details st = (r, st1)"
    by fastforce
  have ok: "success r"
    using bookAppointment_valid_succeeds [OF patient name day free, of clk type details] run
    by simp
  from bookAppointment_success [OF run ok] obtain sl0 where
    r: "r = Booked ?new" and
    ap: "appointments st1 = map ?g (appointments st) @ [?new]" and
    d1: "daySlotsOf st1 date = Some (filter (\<lambda>s. s \<noteq> time) sl0)"
    by blast
  have "\<forall>x\<in>set (map ?g (appointments st)). \<not> a_id x = a_id ?new"
    using fresh by auto
  then have found: "find (\<lambda>a. a_id a = a_id ?new) (appointments st1) = Some ?new"
    unfolding ap by (rule find_append_last) simp
  have active: "a_status ?new \<noteq> ''cancelled''" by simp
  note c = cancelAppointment_active [OF found active, of clk2]
  have d2: "daySlotsOf (snd (cancelAppointment clk2 (a_id ?new) st1)) date =
            Some (releaseSlot time (filter (\<lambda>s. s \<noteq> time) sl0))"
    using c(2) d1 by simp
  have "time \<in> set (releaseSlot time (filter (\<lambda>s. s \<noteq> time) sl0))" by simp
  with run r d1 d2 c(1) show ?thesis by auto
qed

text \<open>
  On the example store John (p001) books 9:00 AM on 2025-10-25, which is open; the ledger's
  two appointments are a001 and a002 and the new one is a003.
\<close>

theorem book_cancel_roundtrip_witness:
  "(\<exists>new st1.
      bookAppointment clock0 ''p001'' ''John Doe'' ''2025-10-25'' ''9:00 AM'' ''Filling'' [] store0 =
        (Booked new, st1) \<and>
      (\<exists>sl1. daySlotsOf st1 ''2025-10-25'' = Some sl1 \<and> ''9:00 AM'' \<notin> set sl1) \<and>
      success (fst (cancelAppointment clock0 (a_id new) st1)) \<and>
      (\<exists>sl2. daySlotsOf (snd (cancelAppointment clock0 (a_id new) st1)) ''2025-10-25'' = Some sl2 \<and>
             ''9:00 AM'' \<in> set sl2))"
proof -
  have patient: "find (\<lambda>p. p_id p = ''p001'') (patients store0) = Some john"
    by (simp add: store0_def john_def)
  have name: "p_fullName john = ''John Doe''" by (simp add: john_def)
  have day: "daySlotsOf store0 ''2025-10-25'' = Some [''10:00 AM'', ''9:00 AM'']"
    by (simp add: daySlotsOf_def findDay_def store0_def)
  have free: "''9:00 AM'' \<in> set [''10:00 AM'', ''9:00 AM'']" by simp
  have fresh: "\<forall>a\<in>set (appointments store0). a_id a \<noteq> nextAppointmentId (appointments store0)"
    by (rule issuedLedger_fresh [OF store0_issued])
  from book_cancel_roundtrip [OF patient name day free fresh] show ?thesis .
qed

text \<open>
  The ledger of \<open>storeForeign\<close> holds one appointment, the cancelled a002. John's booking of
  9:00 AM on 2025-10-25 is valid and succeeds; the ledger has length one, so the new
  appointment is numbered a002 as well, and 9:00 AM leaves the day's list. Cancelling a002 then
  reaches the first appointment of that id, the one that was cancelled all along: the call
  fails, nothing is written, and 9:00 AM stays off the list.
\<close>

theorem book_cancel_roundtrip_counterexample:
  "john \<in> set (patients storeForeign) \<and> p_id john = ''p001'' \<and> p_fullName john = ''John Doe'' \<and>
   openSlots storeForeign ''2025-10-25'' = [''10:00 AM'', ''9:00 AM''] \<and>
   map a_id (appointments storeForeign) = [''a002''] \<and>
   success (fst (bookAppointment clock0 ''p001'' ''John Doe'' ''2025-10-25'' ''9:00 AM'' ''Filling'' []
                   storeForeign)) \<and>
   fst (bookAppointment clock0 ''p001'' ''John Doe'' ''2025-10-25'' ''9:00 AM'' ''Filling'' []
          storeForeign) =
     Booked (newAppointment clock0 (appointments storeForeign) ''p001'' ''John Doe'' ''2025-10-25''
               ''9:00 AM'' ''Filling'' []) \<and>
   a_id (newAppointment clock0 (appointments storeForeign) ''p001'' ''John Doe'' ''2025-10-25''
           ''9:00 AM'' ''Filling'' []) = ''a002'' \<and>
   snd (bookAppointment clock0 ''p001'' ''John Doe'' ''2025-10-25'' ''9:00 AM'' ''Filling'' []
          storeForeign) = afterForeignBook \<and>
   map a_id (appointments afterForeignBook) = [''a002'', ''a002''] \<and>
   map a_status (appointments afterForeignBook) = [''cancelled'', ''scheduled''] \<and>
   openSlots afterForeignBook ''2025-10-25'' = [''10:00 AM''] \<and>
   cancelAppointment clock0 ''a002'' afterForeignBook =
     (Failure ''Appointment is already cancelled'', afterForeignBook) \<and>
   \<not> success (fst (cancelAppointment clock0 ''a002'' afterForeignBook)) \<and>
   ''9:00 AM'' \<notin> set (openSlots (snd (cancelAppointment clock0 ''a002'' afterForeignBook))
                       ''2025-10-25'')"
proof -
  have a: "john \<in> set (patients storeForeign)" "p_id john = ''p001''"
    "p_fullName john = ''John Doe''"
    by (simp_all add: storeForeign_def john_def)
  have b: "openSlots storeForeign ''2025-10-25'' = [''10:00 AM'', ''9:00 AM'']"
    by code_simp
  have c: "map a_id (appointments storeForeign) = [''a002'']"
    by (simp add: storeForeign_def appt2_def)
  have d: "success (fst (bookAppointment clock0 ''p001'' ''John Doe'' ''2025-10-25'' ''9:00 AM''
                           ''Filling'' [] storeForeign))"
    by code_simp
  have e: "fst (bookAppointment clock0 ''p001'' ''John Doe'' ''2025-10-25'' ''9:00 AM'' ''Filling'' []
                  storeForeign) =
             Booked (newAppointment clock0 (appointments storeForeign) ''p001'' ''John Doe''
                       ''2025-10-25'' ''9:00 AM'' ''Filling'' [])"
    by code_simp
  have e2: "a_id (newAppointment clock0 (appointments storeForeign) ''p001'' ''John Doe''
                    ''2025-10-25'' ''9:00 AM'' ''Filling'' []) = ''a002''"
    by code_simp
  have f: "snd (bookAppointment clock0 ''p001'' ''John Doe'' ''2025-10-25'' ''9:00 AM'' ''Filling'' []
                  storeForeign) = afterForeignBook"
    by (simp add: afterForeignBook_def)
  have g: "map a_id (appointments afterForeignBook) = [''a002'', ''a002'']"
    by code_simp
  have h: "map a_status (appointments afterForeignBook) = [''cancelled'', ''scheduled'']"
    by code_simp
  have i: "openSlots afterForeignBook ''2025-10-25'' = [''10:00 AM'']"
    by code_simp
  have found: "find (\<lambda>a. a_id a = ''a002'') (appointments afterForeignBook) = Some appt2"
    by code_simp
  have j: "cancelAppointment clock0 ''a002'' afterForeignBook =
             (Failure ''Appointment is already cancelled'', afterForeignBook)"
    by (simp add: cancelAppointment_def readDatabase_def Let_def found appt2_def)
  have k: "\<not> success (fst (cancelAppointment clock0 ''a002'' afterForeignBook))"
    by (simp add: j)
  have l: "''9:00 AM'' \<notin> set (openSlots (snd (cancelAppointment clock0 ''a002'' afterForeignBook))
                              ''2025-10-25'')"
    by (simp add: j i)
  show ?thesis
    using a b c d e e2 f g h i j k l by (intro conjI)
qed

section \<open>Overwrite policy\<close>

lemma sameDayActive_softCancel [simp]:
  "\<not> sameDayActive patientId date (softCancel stamp reason a)"
  by (simp add: sameDayActive_def softCancel_def)

lemma sameDayActive_newAppointment [simp]:
  "sameDayActive patientId date (newAppointment clk appts patientId pn date t ty ed)"
  by (simp add: sameDayActive_def)



section \<open>Phone normalization\<close>

lemma validatePhoneNumber_normalizePhone:
  "phone \<noteq> [] \<Longrightarrow>
   validatePhoneNumber phone =
     (if length (normalizePhone phone) = 10 then Valid (normalizePhone phone)
      else Invalid ''Please provide a valid 10-digit US phone number'')"
proof -
  assume ne: "phone \<noteq> []"
  define digits where "digits = filter isDigit phone"
  have v: "validatePhoneNumber phone =
             (if length digits = 10 then Valid digits
              else if length digits = 11 \<and> hd digits = CHR ''1'' then Valid (tl digits)
              else Invalid ''Please provide a valid 10-digit US phone number'')"
    using ne by (simp add: validatePhoneNumber_def digits_def Let_def)
  have n: "normalizePhone phone =
             (if length digits = 11 \<and> hd digits = CHR ''1'' then tl digits else digits)"
    using ne by (simp add: normalizePhone_def digits_def Let_def)
  show ?thesis
  proof (cases "length digits = 11 \<and> hd digits = CHR ''1''")
    case True
    then show ?thesis by (simp add: v n)
  next
    case False
    then show ?thesis by (simp only: v n if_False)
  qed
qed

lemma list_all_isDigit_normalizePhone: "list_all isDigit (normalizePhone phone)"
proof -
  define digits where "digits = filter isDigit phone"
  have d: "list_all isDigit digits"
    by (simp add: digits_def list_all_iff)
  have t: "list_all isDigit (tl digits)"
    using d by (cases digits) simp_all
  have "normalizePhone phone = [] \<or> normalizePhone phone = tl digits \<or>
        normalizePhone phone = digits"
    unfolding normalizePhone_def digits_def Let_def by presburger
  with d t show ?thesis by auto
qed

lemma normalizePhone_idem:
  assumes "length (normalizePhone phone) = 10"
  shows "normalizePhone (normalizePhone phone) = normalizePhone phone"
proof -
  let ?n = "normalizePhone phone"
  have "list_all isDigit ?n" by (rule list_all_isDigit_normalizePhone)
  then have "filter isDigit ?n = ?n" by (simp add: list_all_iff)
  moreover from assms have "?n \<noteq> []" by auto
  ultimately show ?thesis using assms by (simp add: normalizePhone_def [of ?n])
qed

text \<open>A search by a phone that validates is the lookup of its normalization.\<close>

lemma searchPatient_valid_phone:
  assumes "length (normalizePhone phone) = 10"
  shows "searchPatient st phone name =
           (case find (\<lambda>p. normalizePhone (p_phone p) = normalizePhone phone) (patients st) of
              Some p \<Rightarrow>
                Found p (filter (\<lambda>a. a_patientId a = p_id p \<and> a_status a \<noteq> ''cancelled'')
                           (appointments st)) [] (familyMembersOf p)
            | None \<Rightarrow> searchPatient st [] name)"
proof -
  from assms have ne: "phone \<noteq> []" by (auto simp: normalizePhone_def)
  with assms have v: "validatePhoneNumber phone = Valid (normalizePhone phone)"
    by (simp add: validatePhoneNumber_normalizePhone)
  have key: "findPatientByPhone st (normalizePhone phone) =
               find (\<lambda>p. normalizePhone (p_phone p) = normalizePhone phone) (patients st)"
    by (simp add: findPatientByPhone_def normalizePhone_idem [OF assms])
  show ?thesis
    by (cases "find (\<lambda>p. normalizePhone (p_phone p) = normalizePhone phone) (patients st)")
       (simp_all add: searchPatient_def ne v key Let_def)
qed

text \<open>
  C9. Normalization keeps the digits of the phone and, when that leaves eleven digits of
  which the first is 1, drops that first digit. \<open>validatePhoneNumber\<close> accepts a phone
  exactly when its normalization has ten digits and then returns the normalization;
  otherwise it rejects it, and \<open>searchPatient\<close> called with such a (non-empty) phone returns
  the rejection as a validation error. A search by an accepted phone is the lookup by its
  normalization: it finds the first patient whose stored phone normalizes to the same key,
  with that patient's appointments that are not cancelled, and falls back to the search by
  name alone when there is none. "555-123-4567" and "15551234567" both validate to the key
  "5551234567" and both look up the first patient whose phone normalizes to "5551234567",
  on every store.
\<close>

theorem phone_normalization:
  "normalizePhone phone =
     (let digits = filter isDigit phone
      in if length digits = 11 \<and> hd digits = CHR ''1'' then tl digits else digits) \<and>
   (length (normalizePhone phone) = 10 \<longrightarrow> validatePhoneNumber phone = Valid (normalizePhone phone)) \<and>
   (length (normalizePhone phone) \<noteq> 10 \<longrightarrow>
      (\<exists>msg. validatePhoneNumber phone = Invalid msg \<and>
             (phone \<noteq> [] \<longrightarrow> searchPatient st phone name = NotFoundResult msg True))) \<and>
   (\<forall>n. validatePhoneNumber phone = Valid n \<longrightarrow> length n = 10 \<and> list_all isDigit n) \<and>
   validatePhoneNumber ''555-123-4567'' = Valid ''5551234567'' \<and>
   validatePhoneNumber ''15551234567'' = Valid ''5551234567'' \<and>
   searchPatient st ''555-123-4567'' name = searchPatient st ''5551234567'' name \<and>
   searchPatient st ''15551234567'' name = searchPatient st ''5551234567'' name \<and>
   (length (normalizePhone phone) = 10 \<longrightarrow>
      searchPatient st phone name =
        (case find (\<lambda>p. normalizePhone (p_phone p) = normalizePhone phone) (patients st) of
           Some p \<Rightarrow>
             Found p (filter (\<lambda>a. a_patientId a = p_id p \<and> a_status a \<noteq> ''cancelled'')
                        (appointments st)) [] (familyMembersOf p)
         | None \<Rightarrow> searchPatient st [] name)) \<and>
   searchPatient st ''555-123-4567'' name =
     (case find (\<lambda>p. normalizePhone (p_phone p) = ''5551234567'') (patients st) of
        Some p \<Rightarrow>
          Found p (filter (\<lambda>a. a_patientId a = p_id p \<and> a_status a \<noteq> ''cancelled'')
                     (appointments st)) [] (familyMembersOf p)
      | None \<Rightarrow> searchPatient st [] name) \<and>
   searchPatient st ''15551234567'' name =
     (case find (\<lambda>p. normalizePhone (p_phone p) = ''5551234567'') (patients st) of
        Some p \<Rightarrow>
          Found p (filter (\<lambda>a. a_patientId a = p_id p \<and> a_status a \<noteq> ''cancelled'')
                     (appointments st)) [] (familyMembersOf p)
      | None \<Rightarrow> searchPatient st [] name)"
proof (intro conjI impI allI)
  show "normalizePhone phone =
     (let digits = filter isDigit phone
      in if length digits = 11 \<and> hd digits = CHR ''1'' then tl digits else digits)"
    by (simp add: normalizePhone_def Let_def)
next
  assume "length (normalizePhone phone) = 10"
  moreover from this have "phone \<noteq> []" by (auto simp: normalizePhone_def)
  ultimately show "validatePhoneNumber phone = Valid (normalizePhone phone)"
    by (simp add: validatePhoneNumber_normalizePhone)
next
  assume bad: "length (normalizePhone phone) \<noteq> 10"
  show "\<exists>msg. validatePhoneNumber phone = Invalid msg \<and>
             (phone \<noteq> [] \<longrightarrow> searchPatient st phone name = NotFoundResult msg True)"
  proof (cases "phone = []")
    case True
    then show ?thesis by (simp add: validatePhoneNumber_def)
  next
    case False
    with bad have "validatePhoneNumber phone =
                     Invalid ''Please provide a valid 10-digit US phone number''"
      by (simp add: validatePhoneNumber_normalizePhone)
    with False show ?thesis by (simp add: searchPatient_def)
  qed
next
  fix n
  assume v: "validatePhoneNumber phone = Valid n"
  then have ne: "phone \<noteq> []" by (auto simp: validatePhoneNumber_def)
  from v have n: "n = normalizePhone phone" and len: "length (normalizePhone phone) = 10"
    by (simp_all add: validatePhoneNumber_normalizePhone [OF ne] split: if_splits)
  from len show "length n = 10" by (simp add: n)
  show "list_all isDigit n" by (simp add: n list_all_isDigit_normalizePhone)
next
  show a: "validatePhoneNumber ''555-123-4567'' = Valid ''5551234567''"
    by code_simp
  show b: "validatePhoneNumber ''15551234567'' = Valid ''5551234567''"
    by code_simp
  have c: "validatePhoneNumber ''5551234567'' = Valid ''5551234567''"
    by code_simp
  show "searchPatient st ''555-123-4567'' name = searchPatient st ''5551234567'' name"
    unfolding searchPatient_def a c by simp
  show "searchPatient st ''15551234567'' name = searchPatient st ''5551234567'' name"
    unfolding searchPatient_def b c by simp
next
  assume "length (normalizePhone phone) = 10"
  then show "searchPatient st phone name =
        (case find (\<lambda>p. normalizePhone (p_phone p) = normalizePhone phone) (patients st) of
           Some p \<Rightarrow>
             Found p (filter (\<lambda>a. a_patientId a = p_id p \<and> a_status a \<noteq> ''cancelled'')
                        (appointments st)) [] (familyMembersOf p)
         | None \<Rightarrow> searchPatient st [] name)"
    by (rule searchPatient_valid_phone)
next
  have n1: "normalizePhone ''555-123-4567'' = ''5551234567''" by code_simp
  have l1: "length (normalizePhone ''555-123-4567'') = 10" by (simp add: n1)
  show "searchPatient st ''555-123-4567'' name =
     (case find (\<lambda>p. normalizePhone (p_phone p) = ''5551234567'') (patients st) of
        Some p \<Rightarrow>
          Found p (filter (\<lambda>a. a_patientId a = p_id p \<and> a_status a \<noteq> ''cancelled'')
                     (appointments st)) [] (familyMembersOf p)
      | None \<Rightarrow> searchPatient st [] name)"
    using searchPatient_valid_phone [OF l1, of st name] by (simp only: n1)
next
  have n2: "normalizePhone ''15551234567'' = ''5551234567''" by code_simp
  have l2: "length (normalizePhone ''15551234567'') = 10" by (simp add: n2)
  show "searchPatient st ''15551234567'' name =
     (case find (\<lambda>p. normalizePhone (p_phone p) = ''5551234567'') (patients st) of
        Some p \<Rightarrow>
          Found p (filter (\<lambda>a. a_patientId a = p_id p \<and> a_status a \<noteq> ''cancelled'')
                     (appointments st)) [] (familyMembersOf p)
      | None \<Rightarrow> searchPatient st [] name)"
    using searchPatient_valid_phone [OF l2, of st name] by (simp only: n2)
qed

text \<open>
  Mary's stored phone is "5551234567": a search by "555-123-4567" or by "15551234567" finds
  her, and on the store that has only John it finds nobody. "1 (555) 123-4567" has eleven
  digits with a leading 1 and validates to "5551234567"; "555-1234" has seven digits: it is
  rejected, and a search by it is a validation error.
\<close>

theorem phone_normalization_witness:
  "length (normalizePhone ''1 (555) 123-4567'') = 10 \<and>
   validatePhoneNumber ''1 (555) 123-4567'' = Valid ''5551234567'' \<and>
   length (normalizePhone ''555-1234'') \<noteq> 10 \<and>
   validatePhoneNumber ''555-1234'' = Invalid ''Please provide a valid 10-digit US phone number'' \<and>
   searchPatient store0 ''555-1234'' ''John'' =
     NotFoundResult ''Please provide a valid 10-digit US phone number'' True \<and>
   p_phone maryPatient = ''5551234567'' \<and>
   searchPatient storeEmpty ''555-123-4567'' [] = Found maryPatient [] [] [] \<and>
   searchPatient storeEmpty ''15551234567'' [] = Found maryPatient [] [] [] \<and>
   searchPatient store0 ''555-123-4567'' [] =
     NotFoundResult ''No patient found with that information'' False"
proof -
  have n1: "normalizePhone ''1 (555) 123-4567'' = ''5551234567''"
    by code_simp
  have n2: "normalizePhone ''555-1234'' = ''5551234''"
    by code_simp
  have l1: "length (normalizePhone ''1 (555) 123-4567'') = 10" by (simp add: n1)
  have l2: "length (normalizePhone ''555-1234'') \<noteq> 10" by (simp add: n2)
  from phone_normalization [of "''1 (555) 123-4567''" store0 "''John''"] l1
  have "validatePhoneNumber ''1 (555) 123-4567'' = Valid (normalizePhone ''1 (555) 123-4567'')"
    by blast
  then have v1: "validatePhoneNumber ''1 (555) 123-4567'' = Valid ''5551234567''"
    by (simp only: n1)
  have ne: "''555-1234'' \<noteq> []" by simp
  from phone_normalization [of "''555-1234''" store0 "''John''"] l2 ne
  obtain msg where m: "validatePhoneNumber ''555-1234'' = Invalid msg"
    "searchPatient store0 ''555-1234'' ''John'' = NotFoundResult msg True"
    by blast
  have "validatePhoneNumber ''555-1234'' =
          Invalid ''Please provide a valid 10-digit US phone number''"
    by code_simp
  with m have "msg = ''Please provide a valid 10-digit US phone number''" by simp
  with m have w1: "validatePhoneNumber ''555-1234'' =
                     Invalid ''Please provide a valid 10-digit US phone number''"
    "searchPatient store0 ''555-1234'' ''John'' =
       NotFoundResult ''Please provide a valid 10-digit US phone number'' True"
    by simp_all
  note t = phone_normalization [of "''555-123-4567''" storeEmpty "[]"]
  note byDash = t [THEN conjunct2, THEN conjunct2, THEN conjunct2, THEN conjunct2,
                   THEN conjunct2, THEN conjunct2, THEN conjunct2, THEN conjunct2,
                   THEN conjunct2, THEN conjunct1]
  note byOne = t [THEN conjunct2, THEN conjunct2, THEN conjunct2, THEN conjunct2,
                  THEN conjunct2, THEN conjunct2, THEN conjunct2, THEN conjunct2,
                  THEN conjunct2, THEN conjunct2]
  note t0 = phone_normalization [of "''555-123-4567''" store0 "[]"]
  note byDash0 = t0 [THEN conjunct2, THEN conjunct2, THEN conjunct2, THEN conjunct2,
                     THEN conjunct2, THEN conjunct2, THEN conjunct2, THEN conjunct2,
                     THEN conjunct2, THEN conjunct1]
  have mary: "find (\<lambda>p. normalizePhone (p_phone p) = ''5551234567'') (patients storeEmpty) =
                Some maryPatient"
    by code_simp
  have nobody: "find (\<lambda>p. normalizePhone (p_phone p) = ''5551234567'') (patients store0) = None"
    by code_simp
  have noappts: "filter (\<lambda>a. a_patientId a = p_id maryPatient \<and> a_status a \<noteq> ''cancelled'')
                   (appointments storeEmpty) = []"
    by (simp add: storeEmpty_def)
  have fam: "familyMembersOf maryPatient = []"
    by (simp add: familyMembersOf_def maryPatient_def)
  have phone: "p_phone maryPatient = ''5551234567''"
    by (simp add: maryPatient_def)
  have noname: "searchPatient store0 [] [] =
                  NotFoundResult ''No patient found with that information'' False"
    by (simp add: searchPatient_def)
  have s1: "searchPatient storeEmpty ''555-123-4567'' [] = Found maryPatient [] [] []"
    using byDash by (simp only: mary option.case noappts fam)
  have s2: "searchPatient storeEmpty ''15551234567'' [] = Found maryPatient [] [] []"
    using byOne by (simp only: mary option.case noappts fam)
  have s3: "searchPatient store0 ''555-123-4567'' [] =
              NotFoundResult ''No patient found with that information'' False"
    using byDash0 by (simp only: nobody option.case noname)
  show ?thesis
    using l1 v1 l2 w1 phone s1 s2 s3 by (intro conjI)
qed

section \<open>Emergency dedup window\<close>

lemma recentlyAlerted_iff:
  "recentlyAlerted clk phoneN alerts \<longleftrightarrow>
     (\<exists>al\<in>set alerts. e_contactPhone al = phoneN \<and> nowMs clk - 10 * 60 * 1000 \<le> e_alertedAt al)"
  by (simp add: recentlyAlerted_def list_ex_iff)

text \<open>What a notification that passes validation returns and writes.\<close>

lemma notifyStaffEmergency_valid:
  assumes "validatePatientName patientName = Valid nameN"
      and "validatePhoneNumber contactPhone = Valid phoneN"
      and "details \<noteq> [] \<and> 5 \<le> length (trim details)"
  shows "success (fst (notifyStaffEmergency clk patientName details contactPhone st))"
    and "recentlyAlerted clk phoneN (emergencyAlerts st) \<Longrightarrow>
           snd (notifyStaffEmergency clk patientName details contactPhone st) = st"
    and "\<not> recentlyAlerted clk phoneN (emergencyAlerts st) \<Longrightarrow>
           snd (notifyStaffEmergency clk patientName details contactPhone st) =
             st\<lparr>emergencyAlerts := emergencyAlerts st @
                  [\<lparr>e_id = ''emg_'' @ string_of_int (nowMs clk), e_patientName = nameN,
                    e_emergencyDetails = trim details, e_contactPhone = phoneN,
                    e_timestamp = nowLocale clk, e_status = ''pending'',
                    e_alertedAt = nowMs clk\<rparr>]\<rparr>"
  using assms
  by (simp_all add: notifyStaffEmergency_def readDatabase_def writeDatabase_all Let_def)

text \<open>
  C8. For notifications that pass validation: when a stored alert carries the normalized
  phone and was raised no more than ten minutes before the call, the call succeeds and the
  store is unchanged; otherwise it succeeds and appends exactly one alert, pending, with the
  normalized phone and the time of the call, and a second valid notification for the same
  normalized phone made within ten minutes of the first appends nothing more.
\<close>

theorem notify_dedup:
  assumes n1: "validatePatientName name1 = Valid nameN1"
      and p1: "validatePhoneNumber phone1 = Valid phoneN"
      and d1: "details1 \<noteq> [] \<and> 5 \<le> length (trim details1)"
      and n2: "validatePatientName name2 = Valid nameN2"
      and p2: "validatePhoneNumber phone2 = Valid phoneN"
      and d2: "details2 \<noteq> [] \<and> 5 \<le> length (trim details2)"
      and window: "nowMs clk2 - 10 * 60 * 1000 \<le> nowMs clk1"
      and run1: "notifyStaffEmergency clk1 name1 details1 phone1 st = (r1, st1)"
      and run2: "notifyStaffEmergency clk2 name2 details2 phone2 st1 = (r2, st2)"
  shows "success r1 \<and> success r2 \<and>
         ((\<exists>al\<in>set (emergencyAlerts st).
              e_contactPhone al = phoneN \<and> nowMs clk1 - 10 * 60 * 1000 \<le> e_alertedAt al) \<longrightarrow>
            st1 = st) \<and>
         (\<not> (\<exists>al\<in>set (emergencyAlerts st).
                e_contactPhone al = phoneN \<and> nowMs clk1 - 10 * 60 * 1000 \<le> e_alertedAt al) \<longrightarrow>
            (\<exists>new. st1 = st\<lparr>emergencyAlerts := emergencyAlerts st @ [new]\<rparr> \<and>
                   e_status new = ''pending'' \<and> e_contactPhone new = phoneN \<and>
                   e_alertedAt new = nowMs clk1) \<and>
            st2 = st1)"
proof -
  note first = notifyStaffEmergency_valid [OF n1 p1 d1, of clk1 st]
  note second = notifyStaffEmergency_valid [OF n2 p2 d2, of clk2 st1]
  have s1: "success r1" using first(1) run1 by simp
  have s2: "success r2" using second(1) run2 by simp
  have dup: "st1 = st" if "recentlyAlerted clk1 phoneN (emergencyAlerts st)"
    using first(2) [OF that] run1 by simp
  have fresh: "(\<exists>new. st1 = st\<lparr>emergencyAlerts := emergencyAlerts st @ [new]\<rparr> \<and>
                   e_status new = ''pending'' \<and> e_contactPhone new = phoneN \<and>
                   e_alertedAt new = nowMs clk1) \<and> st2 = st1"
    if no: "\<not> recentlyAlerted clk1 phoneN (emergencyAlerts st)"
  proof -
    let ?new = "\<lparr>e_id = ''emg_'' @ string_of_int (nowMs clk1), e_patientName = nameN1,
                  e_emergencyDetails = trim details1, e_contactPhone = phoneN,
                  e_timestamp = nowLocale clk1, e_status = ''pending'',
                  e_alertedAt = nowMs clk1\<rparr>"
    have st1: "st1 = st\<lparr>emergencyAlerts := emergencyAlerts st @ [?new]\<rparr>"
      using first(3) [OF no] run1 by simp
    have "recentlyAlerted clk2 phoneN (emergencyAlerts st1)"
      unfolding recentlyAlerted_iff st1 using window by simp
    from second(2) [OF this] run2 have "st2 = st1" by simp
    with st1 show ?thesis by (intro conjI exI [of _ ?new]) simp_all
  qed
  from s1 s2 dup fresh show ?thesis
    unfolding recentlyAlerted_iff by blast
qed

text \<open>
  Two notifications for phone "5551234567", five minutes apart, on a store without alerts:
  one alert is stored.
\<close>

theorem notify_dedup_witness:
  "nowMs (clock0\<lparr>nowMs := nowMs clock0 + 300000\<rparr>) - 10 * 60 * 1000 \<le> nowMs clock0 \<and>
   success (fst (notifyStaffEmergency clock0 ''John Doe'' ''Severe toothache'' ''5551234567'' store0)) \<and>
   success (fst (notifyStaffEmergency (clock0\<lparr>nowMs := nowMs clock0 + 300000\<rparr>) ''John Doe''
                   ''Severe toothache'' ''5551234567''
                   (snd (notifyStaffEmergency clock0 ''John Doe'' ''Severe toothache''
                           ''5551234567'' store0)))) \<and>
   length (emergencyAlerts
             (snd (notifyStaffEmergency (clock0\<lparr>nowMs := nowMs clock0 + 300000\<rparr>) ''John Doe''
                     ''Severe toothache'' ''5551234567''
                     (snd (notifyStaffEmergency clock0 ''John Doe'' ''Severe toothache''
                             ''5551234567'' store0))))) = 1"
proof -
  have n: "validatePatientName ''John Doe'' = Valid ''John Doe''" by code_simp
  have p: "validatePhoneNumber ''5551234567'' = Valid ''5551234567''" by code_simp
  have d: "''Severe toothache'' \<noteq> [] \<and> 5 \<le> length (trim ''Severe toothache'')" by code_simp
  have w: "nowMs (clock0\<lparr>nowMs := nowMs clock0 + 300000\<rparr>) - 10 * 60 * 1000 \<le> nowMs clock0"
    by simp
  have none: "\<not> (\<exists>al\<in>set (emergencyAlerts store0).
                e_contactPhone al = ''5551234567'' \<and> nowMs clock0 - 10 * 60 * 1000 \<le> e_alertedAt al)"
    by (simp add: store0_def)
  have e: "emergencyAlerts store0 = []" by (simp add: store0_def)
  let ?first = "notifyStaffEmergency clock0 ''John Doe'' ''Severe toothache'' ''5551234567'' store0"
  let ?second = "notifyStaffEmergency (clock0\<lparr>nowMs := nowMs clock0 + 300000\<rparr>) ''John Doe''
                   ''Severe toothache'' ''5551234567'' (snd ?first)"
  have run1: "?first = (fst ?first, snd ?first)" by simp
  have run2: "?second = (fst ?second, snd ?second)" by simp
  from notify_dedup [OF n p d n p d w run1 run2] none
  have "success (fst ?first)" "success (fst ?second)" "snd ?second = snd ?first"
    "\<exists>new. snd ?first = store0\<lparr>emergencyAlerts := emergencyAlerts store0 @ [new]\<rparr>"
    by blast+
  with e w show ?thesis by auto
qed

section \<open>Family booking\<close>

lemma find_updateFirst_unaffected:
  "(\<And>x. P x \<Longrightarrow> \<not> Q x \<and> \<not> Q (f x)) \<Longrightarrow> find Q (updateFirst P f xs) = find Q xs"
  by (induction xs) auto

lemma laterDate_irrefl [simp]: "\<not> laterDate parseDate d d"
  by (simp add: laterDate_def split: option.splits)

lemma find_enoughSlots_updateDay:
  "find (enoughSlots n d parseDate) (updateDay d f ss) = find (enoughSlots n d parseDate) ss"
  unfolding updateDay_def
  by (rule find_updateFirst_unaffected) (simp add: enoughSlots_def)

lemma find_enoughSlots_releaseAll:
  "find (enoughSlots n d parseDate)
     (foldl (\<lambda>ss a. updateDay d (releaseSlot (a_time a)) ss) ss as) =
   find (enoughSlots n d parseDate) ss"
  by (induction as arbitrary: ss) (simp_all add: find_enoughSlots_updateDay)

lemma find_enoughSlots_familyPreempted:
  "find (enoughSlots n d parseDate) (availableSlots (familyPreempted clk pid pp ms d db)) =
   find (enoughSlots n d parseDate) (availableSlots db)"
  by (simp add: familyPreempted_def overwriteSameDay_def Let_def find_enoughSlots_releaseAll)

lemma find_sorted_first:
  "sorted_wrt R xs \<Longrightarrow> find Q xs = Some y \<Longrightarrow> s \<in> set xs \<Longrightarrow> Q s \<Longrightarrow> s = y \<or> R y s"
  by (induction xs) (auto split: if_splits)

lemma validateMembers_None:
  "validateMembers ms = None \<Longrightarrow> m \<in> set ms \<Longrightarrow>
   m_name m \<noteq> [] \<and> m_relationship m \<noteq> [] \<and> m_appointmentType m \<noteq> []"
  by (induction ms) (auto split: if_splits)

lemma familyAppointmentOf_fields [simp]:
  "a_patientId (familyAppointmentOf clk pid m d slots i) = pid"
  "a_patientName (familyAppointmentOf clk pid m d slots i) = m_name m"
  "a_relationship (familyAppointmentOf clk pid m d slots i) = Some (m_relationship m)"
  "a_date (familyAppointmentOf clk pid m d slots i) = d"
  "a_time (familyAppointmentOf clk pid m d slots i) = slots ! i"
  "a_type (familyAppointmentOf clk pid m d slots i) =
     (if m_appointmentType m = [] then ''General Checkup'' else m_appointmentType m)"
  "a_status (familyAppointmentOf clk pid m d slots i) = ''confirmed''"
  by (simp_all add: familyAppointmentOf_def)

lemma primaryAppointmentOf_fields [simp]:
  "a_patientId (primaryAppointmentOf clk pid pp d slots ty) = pid"
  "a_patientName (primaryAppointmentOf clk pid pp d slots ty) = p_fullName pp"
  "a_date (primaryAppointmentOf clk pid pp d slots ty) = d"
  "a_time (primaryAppointmentOf clk pid pp d slots ty) = slots ! 0"
  "a_type (primaryAppointmentOf clk pid pp d slots ty) =
     (case ty of None \<Rightarrow> ''Cleaning'' | Some t \<Rightarrow> t)"
  "a_status (primaryAppointmentOf clk pid pp d slots ty) = ''confirmed''"
  by (simp_all add: primaryAppointmentOf_def)

text \<open>
  With a slot left for every member still to book, the loop never breaks: it appends one
  appointment per member, in the members' order, on consecutive slots.
\<close>

lemma familyLoop_allocates:
  "idx + length ms \<le> length slots \<Longrightarrow>
   \<exists>ps' new.
     familyLoop clk pid pp d slots ms (ps, appts, booked, idx) =
       (ps', appts @ new, booked @ new, idx + length ms) \<and>
     length new = length ms \<and>
     (\<forall>i<length ms.
        a_patientName (new ! i) = m_name (ms ! i) \<and>
        a_relationship (new ! i) = Some (m_relationship (ms ! i)) \<and>
        a_date (new ! i) = d \<and>
        a_time (new ! i) = slots ! (idx + i) \<and>
        a_type (new ! i) = (if m_appointmentType (ms ! i) = [] then ''General Checkup''
                            else m_appointmentType (ms ! i)) \<and>
        a_status (new ! i) = ''confirmed'')"
proof (induction ms arbitrary: ps appts booked idx)
  case Nil
  show ?case by simp
next
  case (Cons m ms)
  let ?found = "findFamilyPatient pp m ps"
  let ?fmp = "case ?found of None \<Rightarrow> newFamilyPatient clk pp m ps | Some p \<Rightarrow> p"
  let ?ps1 = "case ?found of None \<Rightarrow> ps @ [?fmp] | Some p \<Rightarrow> ps"
  let ?a = "familyAppointmentOf clk (p_id ?fmp) m d slots idx"
  let ?ps2 = "updateFirst (\<lambda>p. p_id p = pid) (addFamilyRef clk m) ?ps1"
  from Cons.prems have lt: "idx < length slots" and rest: "Suc idx + length ms \<le> length slots"
    by simp_all
  have step: "familyLoop clk pid pp d slots (m # ms) (ps, appts, booked, idx) =
              familyLoop clk pid pp d slots ms (?ps2, appts @ [?a], booked @ [?a], Suc idx)"
    using lt by (simp add: Let_def)
  from Cons.IH [OF rest, of ?ps2 "appts @ [?a]" "booked @ [?a]"]
  obtain ps' new where
    run: "familyLoop clk pid pp d slots ms (?ps2, appts @ [?a], booked @ [?a], Suc idx) =
            (ps', (appts @ [?a]) @ new, (booked @ [?a]) @ new, Suc idx + length ms)" and
    len: "length new = length ms" and
    each: "\<forall>i<length ms.
        a_patientName (new ! i) = m_name (ms ! i) \<and>
        a_relationship (new ! i) = Some (m_relationship (ms ! i)) \<and>
        a_date (new ! i) = d \<and>
        a_time (new ! i) = slots ! (Suc idx + i) \<and>
        a_type (new ! i) = (if m_appointmentType (ms ! i) = [] then ''General Checkup''
                            else m_appointmentType (ms ! i)) \<and>
        a_status (new ! i) = ''confirmed''"
    by blast
  have all: "\<forall>i<length (m # ms).
        a_patientName ((?a # new) ! i) = m_name ((m # ms) ! i) \<and>
        a_relationship ((?a # new) ! i) = Some (m_relationship ((m # ms) ! i)) \<and>
        a_date ((?a # new) ! i) = d \<and>
        a_time ((?a # new) ! i) = slots ! (idx + i) \<and>
        a_type ((?a # new) ! i) = (if m_appointmentType ((m # ms) ! i) = [] then ''General Checkup''
                            else m_appointmentType ((m # ms) ! i)) \<and>
        a_status ((?a # new) ! i) = ''confirmed''"
  proof (intro allI impI)
    fix i assume "i < length (m # ms)"
    then show "a_patientName ((?a # new) ! i) = m_name ((m # ms) ! i) \<and>
        a_relationship ((?a # new) ! i) = Some (m_relationship ((m # ms) ! i)) \<and>
        a_date ((?a # new) ! i) = d \<and>
        a_time ((?a # new) ! i) = slots ! (idx + i) \<and>
        a_type ((?a # new) ! i) = (if m_appointmentType ((m # ms) ! i) = [] then ''General Checkup''
                            else m_appointmentType ((m # ms) ! i)) \<and>
        a_status ((?a # new) ! i) = ''confirmed''"
      using each by (cases i) simp_all
  qed
  have eq: "familyLoop clk pid pp d slots (m # ms) (ps, appts, booked, idx) =
            (ps', appts @ (?a # new), booked @ (?a # new), idx + length (m # ms))"
    unfolding step run by simp
  have l: "length (?a # new) = length (m # ms)"
    using len by simp
  from eq l all show ?case by blast
qed

section \<open>Family booking: a day short of slots\<close>

text \<open>What a valid family request returns when the preferred day is short of slots.\<close>

lemma bookFamilyAppointments_short:
  assumes primary: "find (\<lambda>p. p_id p = primaryPatientId) (patients st) = Some primaryPatient"
      and members: "familyMembers \<noteq> []" "validateMembers familyMembers = None"
      and short: "length (openSlots (familyPreempted clk primaryPatientId primaryPatient
                    familyMembers preferredDate st) preferredDate) < length familyMembers + 1"
  shows "bookFamilyAppointments parseDate clk primaryPatientId familyMembers preferredDate
           primaryType st =
         (case find (enoughSlots (length familyMembers + 1) preferredDate parseDate)
                 (availableSlots st) of
            Some nextAvailable \<Rightarrow>
              (InsufficientSlots
                 (openSlots (familyPreempted clk primaryPatientId primaryPatient familyMembers
                    preferredDate st) preferredDate)
                 (s_date nextAvailable)
                 (take (length familyMembers + 1) (s_slots nextAvailable))
                 (''Only '' @ string_of_nat (length (openSlots (familyPreempted clk primaryPatientId
                      primaryPatient familyMembers preferredDate st) preferredDate)) @
                  '' slot(s) available on '' @ preferredDate @ ''. Need '' @
                  string_of_nat (length familyMembers + 1) @ '' slots for you and '' @
                  string_of_nat (length familyMembers) @
                  '' family members. Next available date is '' @ s_date nextAvailable @ ''.''),
               st)
          | None \<Rightarrow>
              (Failure (''Not enough consecutive slots available. '' @
                        ''Please book earlier times or contact us at 555-DENTAL.''), st))"
  using primary members short
  by (simp add: bookFamilyAppointments_def readDatabase_def Let_def
        find_enoughSlots_familyPreempted split: option.splits)

text \<open>
  C4, as the code has it. For a family request that passes validation (the primary patient
  exists, there is at least one member, every member has a name, a relationship and an
  appointment type) and whose preferred day has, after the pre-emption step, fewer than N+1
  open slots: when some stored day is strictly later and has at least N+1 slots, the result
  is \<open>InsufficientSlots\<close> carrying the first such day in the stored order and its first N+1
  slots, and the persisted store is unchanged; when the stored days are in ascending date
  order that day is the nearest such date. When no stored day qualifies the result is the
  generic capacity failure, and the store is unchanged.
\<close>

theorem family_insufficient_slots:
  assumes primary: "find (\<lambda>p. p_id p = primaryPatientId) (patients st) = Some primaryPatient"
      and members: "familyMembers \<noteq> []" "validateMembers familyMembers = None"
      and short: "length (openSlots (familyPreempted clk primaryPatientId primaryPatient
                    familyMembers preferredDate st) preferredDate) < length familyMembers + 1"
  shows "((\<exists>s\<in>set (availableSlots st).
             enoughSlots (length familyMembers + 1) preferredDate parseDate s) \<longrightarrow>
          (\<exists>day avail msg.
             find (enoughSlots (length familyMembers + 1) preferredDate parseDate)
               (availableSlots st) = Some day \<and>
             bookFamilyAppointments parseDate clk primaryPatientId familyMembers preferredDate
               primaryType st =
               (InsufficientSlots avail (s_date day)
                  (take (length familyMembers + 1) (s_slots day)) msg, st) \<and>
             (sorted_wrt (\<lambda>a b. \<not> laterDate parseDate (s_date a) (s_date b)) (availableSlots st) \<longrightarrow>
                (\<forall>s\<in>set (availableSlots st).
                   enoughSlots (length familyMembers + 1) preferredDate parseDate s \<longrightarrow>
                   \<not> laterDate parseDate (s_date day) (s_date s))))) \<and>
         (\<not> (\<exists>s\<in>set (availableSlots st).
                enoughSlots (length familyMembers + 1) preferredDate parseDate s) \<longrightarrow>
          bookFamilyAppointments parseDate clk primaryPatientId familyMembers preferredDate
            primaryType st =
            (Failure (''Not enough consecutive slots available. '' @
                      ''Please book earlier times or contact us at 555-DENTAL.''), st))"
proof (intro conjI impI)
  let ?Q = "enoughSlots (length familyMembers + 1) preferredDate parseDate"
  note run = bookFamilyAppointments_short [OF primary members short, of parseDate primaryType]
  assume "\<exists>s\<in>set (availableSlots st). ?Q s"
  then obtain day where day: "find ?Q (availableSlots st) = Some day"
    by (cases "find ?Q (availableSlots st)") (auto simp: find_None_iff)
  have nearest: "\<not> laterDate parseDate (s_date day) (s_date s)"
    if "sorted_wrt (\<lambda>a b. \<not> laterDate parseDate (s_date a) (s_date b)) (availableSlots st)"
      and "s \<in> set (availableSlots st)" and "?Q s" for s
    using find_sorted_first [OF that(1) day that(2) that(3)] by auto
  from run day nearest
  show "\<exists>day avail msg.
          find ?Q (availableSlots st) = Some day \<and>
          bookFamilyAppointments parseDate clk primaryPatientId familyMembers preferredDate
            primaryType st =
            (InsufficientSlots avail (s_date day)
               (take (length familyMembers + 1) (s_slots day)) msg, st) \<and>
          (sorted_wrt (\<lambda>a b. \<not> laterDate parseDate (s_date a) (s_date b)) (availableSlots st) \<longrightarrow>
             (\<forall>s\<in>set (availableSlots st). ?Q s \<longrightarrow> \<not> laterDate parseDate (s_date day) (s_date s)))"
    by (intro exI [of _ day]) simp
next
  let ?Q = "enoughSlots (length familyMembers + 1) preferredDate parseDate"
  note run = bookFamilyAppointments_short [OF primary members short, of parseDate primaryType]
  assume "\<not> (\<exists>s\<in>set (availableSlots st). ?Q s)"
  then have "find ?Q (availableSlots st) = None"
    by (simp add: find_None_iff)
  with run show "bookFamilyAppointments parseDate clk primaryPatientId familyMembers preferredDate
            primaryType st =
            (Failure (''Not enough consecutive slots available. '' @
                      ''Please book earlier times or contact us at 555-DENTAL.''), st)"
    by simp
qed

text \<open>
  The store lists 2025-10-25, 2025-10-29, 2025-10-27 in that order. John and one family
  member need two slots; 2025-10-25 has one. The result proposes 2025-10-29, although
  2025-10-27 is strictly later than the preferred day, has two open slots, and is nearer.
\<close>

theorem family_insufficient_slots_counterexample:
  "bookFamilyAppointments isoDate clock0 ''p001'' [maryMember] ''2025-10-25'' None storeUnordered =
     (InsufficientSlots [''9:00 AM''] ''2025-10-29'' [''10:00 AM'', ''11:00 AM'']
        (''Only 1 slot(s) available on 2025-10-25. Need 2 slots for you and 1 family members. '' @
         ''Next available date is 2025-10-29.''),
      storeUnordered) \<and>
   \<lparr>s_date = ''2025-10-27'', s_slots = [''10:00 AM'', ''9:00 AM'']\<rparr> \<in> set (availableSlots storeUnordered) \<and>
   enoughSlots 2 ''2025-10-25'' isoDate \<lparr>s_date = ''2025-10-27'', s_slots = [''10:00 AM'', ''9:00 AM'']\<rparr> \<and>
   laterDate isoDate ''2025-10-29'' ''2025-10-27''"
proof -
  have run: "bookFamilyAppointments isoDate clock0 ''p001'' [maryMember] ''2025-10-25'' None
               storeUnordered =
     (InsufficientSlots [''9:00 AM''] ''2025-10-29'' [''10:00 AM'', ''11:00 AM'']
        (''Only 1 slot(s) available on 2025-10-25. Need 2 slots for you and 1 family members. '' @
         ''Next available date is 2025-10-29.''),
      storeUnordered)"
    by code_simp
  have mem: "\<lparr>s_date = ''2025-10-27'', s_slots = [''10:00 AM'', ''9:00 AM'']\<rparr> \<in>
             set (availableSlots storeUnordered)"
    by (simp add: storeUnordered_def)
  have enough: "enoughSlots 2 ''2025-10-25'' isoDate
                  \<lparr>s_date = ''2025-10-27'', s_slots = [''10:00 AM'', ''9:00 AM'']\<rparr>"
    by code_simp
  have later: "laterDate isoDate ''2025-10-29'' ''2025-10-27''"
    by code_simp
  from run mem enough later show ?thesis by blast
qed

text \<open>
  On the example store, whose days are in date order: John and one family member ask for
  2025-10-24, which the store does not list, and are offered 2025-10-25, the nearest day
  with two slots; John and three family members need four slots, which no day has.
\<close>

theorem family_insufficient_slots_witness:
  "(\<exists>avail msg.
      bookFamilyAppointments isoDate clock0 ''p001'' [maryMember] ''2025-10-24'' None store0 =
        (InsufficientSlots avail ''2025-10-25'' [''10:00 AM'', ''9:00 AM''] msg, store0)) \<and>
   sorted_wrt (\<lambda>a b. \<not> laterDate isoDate (s_date a) (s_date b)) (availableSlots store0) \<and>
   map s_date (filter (enoughSlots 2 ''2025-10-24'' isoDate) (availableSlots store0)) =
     [''2025-10-25'', ''2025-10-27''] \<and>
   \<not> laterDate isoDate ''2025-10-25'' ''2025-10-27'' \<and>
   bookFamilyAppointments isoDate clock0 ''p001'' (maryMember # twoChildren) ''2025-10-25'' None
     store0 =
     (Failure (''Not enough consecutive slots available. '' @
               ''Please book earlier times or contact us at 555-DENTAL.''), store0)"
proof -
  have primary: "find (\<lambda>p. p_id p = ''p001'') (patients store0) = Some john"
    by (simp add: store0_def john_def)
  have ne1: "[maryMember] \<noteq> []" and ne3: "maryMember # twoChildren \<noteq> []"
    by simp_all
  have valid1: "validateMembers [maryMember] = None"
    by code_simp
  have valid3: "validateMembers (maryMember # twoChildren) = None"
    by code_simp
  have short1: "length (openSlots (familyPreempted clock0 ''p001'' john [maryMember]
                  ''2025-10-24'' store0) ''2025-10-24'') < length [maryMember] + 1"
    by code_simp
  have short3: "length (openSlots (familyPreempted clock0 ''p001'' john (maryMember # twoChildren)
                  ''2025-10-25'' store0) ''2025-10-25'') < length (maryMember # twoChildren) + 1"
    by code_simp
  have two: "length [maryMember] + 1 = 2" by simp
  have first: "find (enoughSlots 2 ''2025-10-24'' isoDate) (availableSlots store0) =
               Some \<lparr>s_date = ''2025-10-25'', s_slots = [''10:00 AM'', ''9:00 AM'']\<rparr>"
    by code_simp
  have ordered: "sorted_wrt (\<lambda>a b. \<not> laterDate isoDate (s_date a) (s_date b))
                   (availableSlots store0)"
    by code_simp
  have some: "\<exists>s\<in>set (availableSlots store0). enoughSlots 2 ''2025-10-24'' isoDate s"
    by code_simp
  have none: "\<not> (\<exists>s\<in>set (availableSlots store0).
                enoughSlots (length (maryMember # twoChildren) + 1) ''2025-10-25'' isoDate s)"
    by code_simp
  from family_insufficient_slots [OF primary ne1 valid1 short1, of isoDate None, unfolded two] some
  obtain day avail msg where
    f: "find (enoughSlots 2 ''2025-10-24'' isoDate) (availableSlots store0) = Some day" and
    r: "bookFamilyAppointments isoDate clock0 ''p001'' [maryMember] ''2025-10-24'' None store0 =
          (InsufficientSlots avail (s_date day) (take 2 (s_slots day)) msg, store0)" and
    n: "sorted_wrt (\<lambda>a b. \<not> laterDate isoDate (s_date a) (s_date b)) (availableSlots store0) \<longrightarrow>
          (\<forall>s\<in>set (availableSlots store0).
             enoughSlots 2 ''2025-10-24'' isoDate s \<longrightarrow> \<not> laterDate isoDate (s_date day) (s_date s))"
    by blast
  from f first have day: "day = \<lparr>s_date = ''2025-10-25'', s_slots = [''10:00 AM'', ''9:00 AM'']\<rparr>"
    by simp
  from r have a1: "\<exists>avail msg.
      bookFamilyAppointments isoDate clock0 ''p001'' [maryMember] ''2025-10-24'' None store0 =
        (InsufficientSlots avail ''2025-10-25'' [''10:00 AM'', ''9:00 AM''] msg, store0)"
    by (simp add: day)
  from n ordered have a2: "\<forall>s\<in>set (availableSlots store0).
        enoughSlots 2 ''2025-10-24'' isoDate s \<longrightarrow> \<not> laterDate isoDate ''2025-10-25'' (s_date s)"
    by (simp add: day)
  have qualifying: "map s_date (filter (enoughSlots 2 ''2025-10-24'' isoDate) (availableSlots store0)) =
                      [''2025-10-25'', ''2025-10-27'']"
    by code_simp
  have other: "\<lparr>s_date = ''2025-10-27'', s_slots = [''10:00 AM'', ''11:00 AM'', ''9:00 AM'']\<rparr>
                 \<in> set (availableSlots store0)"
    by (simp add: store0_def)
  have "enoughSlots 2 ''2025-10-24'' isoDate
          \<lparr>s_date = ''2025-10-27'', s_slots = [''10:00 AM'', ''11:00 AM'', ''9:00 AM'']\<rparr>"
    by code_simp
  with a2 other have a3: "\<not> laterDate isoDate ''2025-10-25'' ''2025-10-27''"
    by fastforce
  note a = conjI [OF a1 conjI [OF qualifying a3]]
  from family_insufficient_slots [OF primary ne3 valid3 short3, of isoDate None] none
  have b: "bookFamilyAppointments isoDate clock0 ''p001'' (maryMember # twoChildren) ''2025-10-25''
             None store0 =
     (Failure (''Not enough consecutive slots available. '' @
               ''Please book earlier times or contact us at 555-DENTAL.''), store0)"
    by blast
  from a b ordered show ?thesis by blast
qed

section \<open>Family booking: allocation\<close>

lemma appointments_familyPreempted_length [simp]:
  "length (appointments (familyPreempted clk pid pp ms d db)) = length (appointments db)"
  by (simp add: familyPreempted_def overwriteSameDay_def Let_def)

lemma openSlots_daySlotsOf:
  "openSlots db d \<noteq> [] \<Longrightarrow> daySlotsOf db d = Some (openSlots db d)"
  by (auto simp: openSlots_def daySlotsOf_def split: option.splits)

text \<open>
  C5, as the code has it. For a family request that passes validation, with N members
  (N at least 1: an empty member list is refused), whose preferred day has at least N+1
  open slots after the pre-emption step, the booking succeeds and appends exactly N+1
  appointments to the ledger. The first is the primary patient's, of type
  \<open>primaryPatientAppointmentType\<close> (Cleaning when left out), on the first entry of the day's list;
  member i, in listed order, gets entry i+1 with the member's name, relationship and
  appointment type; and the day's list afterwards is the old list without its first N+1
  entries. The order of the list is the stored one: nothing is said here about which label is
  the earliest by the clock.
\<close>

theorem family_booking_allocates:
  assumes primary: "find (\<lambda>p. p_id p = primaryPatientId) (patients st) = Some primaryPatient"
      and members: "familyMembers \<noteq> []" "validateMembers familyMembers = None"
      and enough: "length familyMembers + 1 \<le>
                     length (openSlots (familyPreempted clk primaryPatientId primaryPatient
                       familyMembers preferredDate st) preferredDate)"
      and slots: "slots = openSlots (familyPreempted clk primaryPatientId primaryPatient
                            familyMembers preferredDate st) preferredDate"
  shows "\<exists>booked msg details st'.
           bookFamilyAppointments parseDate clk primaryPatientId familyMembers preferredDate
             primaryType st = (FamilyBooked booked (length familyMembers) msg details, st') \<and>
           length booked = length familyMembers + 1 \<and>
           appointments st' =
             appointments (familyPreempted clk primaryPatientId primaryPatient familyMembers
                             preferredDate st) @ booked \<and>
           length (appointments st') = length (appointments st) + (length familyMembers + 1) \<and>
           map a_time booked = take (length familyMembers + 1) slots \<and>
           a_patientId (booked ! 0) = primaryPatientId \<and>
           a_time (booked ! 0) = slots ! 0 \<and>
           a_type (booked ! 0) = (case primaryType of None \<Rightarrow> ''Cleaning'' | Some t \<Rightarrow> t) \<and>
           (\<forall>i<length familyMembers.
              a_patientName (booked ! Suc i) = m_name (familyMembers ! i) \<and>
              a_relationship (booked ! Suc i) = Some (m_relationship (familyMembers ! i)) \<and>
              a_type (booked ! Suc i) = m_appointmentType (familyMembers ! i) \<and>
              a_time (booked ! Suc i) = slots ! Suc i) \<and>
           daySlotsOf st' preferredDate = Some (drop (length familyMembers + 1) slots)"
proof -
  let ?db1 = "familyPreempted clk primaryPatientId primaryPatient familyMembers preferredDate st"
  let ?n = "length familyMembers"
  let ?pa = "primaryAppointmentOf clk primaryPatientId primaryPatient preferredDate slots primaryType"
  from enough slots have ne: "openSlots ?db1 preferredDate \<noteq> []" by auto
  then obtain day where day: "findDay preferredDate (availableSlots ?db1) = Some day"
    and day_slots: "s_slots day = slots"
    by (auto simp: openSlots_def slots split: option.splits)
  from enough slots have fits: "1 + ?n \<le> length slots" by simp
  from familyLoop_allocates [OF fits, of clk primaryPatientId primaryPatient preferredDate
         "patients ?db1" "appointments ?db1 @ [?pa]" "[?pa]"]
  obtain ps' new where
    loop: "familyLoop clk primaryPatientId primaryPatient preferredDate slots familyMembers
             (patients ?db1, appointments ?db1 @ [?pa], [?pa], 1) =
           (ps', (appointments ?db1 @ [?pa]) @ new, [?pa] @ new, 1 + ?n)" and
    len: "length new = ?n" and
    each: "\<forall>i < ?n.
        a_patientName (new ! i) = m_name (familyMembers ! i) \<and>
        a_relationship (new ! i) = Some (m_relationship (familyMembers ! i)) \<and>
        a_date (new ! i) = preferredDate \<and>
        a_time (new ! i) = slots ! (1 + i) \<and>
        a_type (new ! i) = (if m_appointmentType (familyMembers ! i) = [] then ''General Checkup''
                            else m_appointmentType (familyMembers ! i)) \<and>
        a_status (new ! i) = ''confirmed''"
    by blast
  let ?booked = "?pa # new"
  let ?st' = "?db1\<lparr>patients := ps', appointments := appointments ?db1 @ ?booked,
                    availableSlots := updateDay preferredDate (drop (length ?booked))
                                        (availableSlots ?db1)\<rparr>"
  have loop': "familyLoop clk primaryPatientId primaryPatient preferredDate slots familyMembers
             (patients ?db1, appointments ?db1 @ [?pa], [?pa], Suc 0) =
           (ps', appointments ?db1 @ ?pa # new, ?pa # new, Suc ?n)"
    using loop by simp
  have not_short: "\<not> length slots < ?n + 1" using fits by simp
  have run: "bookFamilyAppointments parseDate clk primaryPatientId familyMembers preferredDate
               primaryType st =
             (FamilyBooked ?booked ?n
                (''Successfully booked '' @ string_of_nat (length ?booked) @
                 '' appointments for you and your family!'')
                (map describeAppointment ?booked), ?st')"
    using primary members day not_short
    by (simp add: bookFamilyAppointments_def readDatabase_def writeDatabase_all Let_def
          slots [symmetric] loop')
  have blen: "length ?booked = ?n + 1" by (simp add: len)
  have typed: "\<forall>i < ?n. a_type (new ! i) = m_appointmentType (familyMembers ! i)"
    using each validateMembers_None [OF members(2)] by simp
  have times: "map a_time ?booked = take (?n + 1) slots"
  proof (rule nth_equalityI)
    show "length (map a_time ?booked) = length (take (?n + 1) slots)"
      using fits by (simp add: len)
  next
    fix i assume "i < length (map a_time ?booked)"
    then have i: "i < ?n + 1" by (simp add: len)
    show "map a_time ?booked ! i = take (?n + 1) slots ! i"
    proof (cases i)
      case 0
      then show ?thesis by simp
    next
      case (Suc j)
      with i have "j < ?n" by simp
      with each Suc i len show ?thesis by simp
    qed
  qed
  have members_ok: "\<forall>i < ?n.
              a_patientName (?booked ! Suc i) = m_name (familyMembers ! i) \<and>
              a_relationship (?booked ! Suc i) = Some (m_relationship (familyMembers ! i)) \<and>
              a_type (?booked ! Suc i) = m_appointmentType (familyMembers ! i) \<and>
              a_time (?booked ! Suc i) = slots ! Suc i"
    using each typed by simp
  have after: "daySlotsOf ?st' preferredDate = Some (drop (?n + 1) slots)"
    using day day_slots by (simp add: slots_updateDay len)
  have total: "length (appointments ?st') = length (appointments st) + (?n + 1)"
    by (simp add: len)
  have app: "appointments ?st' = appointments ?db1 @ ?booked" by simp
  have p0: "a_patientId (?booked ! 0) = primaryPatientId \<and> a_time (?booked ! 0) = slots ! 0 \<and>
            a_type (?booked ! 0) = (case primaryType of None \<Rightarrow> ''Cleaning'' | Some t \<Rightarrow> t)"
    by simp
  from run blen app total times p0 members_ok after show ?thesis
    by blast
qed

text \<open>
  On the example store the list of 2025-10-25 is 10:00 AM, 9:00 AM, and John holds 2:00 PM
  that day. A family request with no member is refused although the day has a slot for the
  primary patient. With one member, the pre-emption puts 2:00 PM back and sorts the labels as
  strings: John gets 10:00 AM and the member 2:00 PM, while 9:00 AM, the earliest label of the
  day by the clock, stays open.
\<close>

theorem family_booking_allocates_counterexample:
  "openSlots store0 ''2025-10-25'' = [''10:00 AM'', ''9:00 AM''] \<and>
   bookFamilyAppointments isoDate clock0 ''p001'' [] ''2025-10-25'' None store0 =
     (Failure ''Family members information is required'', store0) \<and>
   map a_time (bookedAppointmentsOf (fst (bookFamilyAppointments isoDate clock0 ''p001''
      [maryMember] ''2025-10-25'' None store0))) = [''10:00 AM'', ''2:00 PM''] \<and>
   openSlots (snd (bookFamilyAppointments isoDate clock0 ''p001'' [maryMember] ''2025-10-25'' None
      store0)) ''2025-10-25'' = [''9:00 AM''] \<and>
   hour24 ''9:00 AM'' < hour24 ''10:00 AM''"
proof -
  have a: "openSlots store0 ''2025-10-25'' = [''10:00 AM'', ''9:00 AM'']"
    by code_simp
  have b: "bookFamilyAppointments isoDate clock0 ''p001'' [] ''2025-10-25'' None store0 =
             (Failure ''Family members information is required'', store0)"
    by code_simp
  have c: "map a_time (bookedAppointmentsOf (fst (bookFamilyAppointments isoDate clock0 ''p001''
             [maryMember] ''2025-10-25'' None store0))) = [''10:00 AM'', ''2:00 PM'']"
    by code_simp
  have d: "openSlots (snd (bookFamilyAppointments isoDate clock0 ''p001'' [maryMember]
             ''2025-10-25'' None store0)) ''2025-10-25'' = [''9:00 AM'']"
    by code_simp
  have e: "hour24 ''9:00 AM'' < hour24 ''10:00 AM''"
    by code_simp
  from a b c d e show ?thesis by blast
qed

text \<open>
  John and Mary Doe on 2025-10-25: three labels are open after the pre-emption, two
  appointments are created on the first two, and the third label is what is left.
\<close>

theorem family_booking_allocates_witness:
  "\<exists>booked msg details st'.
     bookFamilyAppointments isoDate clock0 ''p001'' [maryMember] ''2025-10-25'' (Some ''Checkup'')
       store0 = (FamilyBooked booked 1 msg details, st') \<and>
     length booked = 2 \<and>
     length (appointments st') = length (appointments store0) + 2 \<and>
     map a_time booked = [''10:00 AM'', ''2:00 PM''] \<and>
     a_patientId (booked ! 0) = ''p001'' \<and> a_type (booked ! 0) = ''Checkup'' \<and>
     a_patientName (booked ! 1) = ''Mary Doe'' \<and> a_type (booked ! 1) = ''Cleaning'' \<and>
     daySlotsOf st' ''2025-10-25'' = Some [''9:00 AM'']"
proof -
  have primary: "find (\<lambda>p. p_id p = ''p001'') (patients store0) = Some john"
    by (simp add: store0_def john_def)
  have ne: "[maryMember] \<noteq> []" by simp
  have valid: "validateMembers [maryMember] = None" by code_simp
  have pre: "openSlots (familyPreempted clock0 ''p001'' john [maryMember] ''2025-10-25'' store0)
               ''2025-10-25'' = [''10:00 AM'', ''2:00 PM'', ''9:00 AM'']"
    by code_simp
  have enough: "length [maryMember] + 1 \<le>
                  length (openSlots (familyPreempted clock0 ''p001'' john [maryMember]
                            ''2025-10-25'' store0) ''2025-10-25'')"
    by (simp add: pre)
  from family_booking_allocates [OF primary ne valid enough pre [symmetric],
         of isoDate "Some ''Checkup''"]
  obtain booked msg details st' where
    run: "bookFamilyAppointments isoDate clock0 ''p001'' [maryMember] ''2025-10-25''
            (Some ''Checkup'') store0 = (FamilyBooked booked (length [maryMember]) msg details, st')"
    and facts:
      "length booked = length [maryMember] + 1"
      "length (appointments st') = length (appointments store0) + (length [maryMember] + 1)"
      "map a_time booked = take (length [maryMember] + 1) [''10:00 AM'', ''2:00 PM'', ''9:00 AM'']"
      "a_patientId (booked ! 0) = ''p001''"
      "a_type (booked ! 0) = (case Some ''Checkup'' of None \<Rightarrow> ''Cleaning'' | Some t \<Rightarrow> t)"
      "\<forall>i<length [maryMember].
         a_patientName (booked ! Suc i) = m_name ([maryMember] ! i) \<and>
         a_relationship (booked ! Suc i) = Some (m_relationship ([maryMember] ! i)) \<and>
         a_type (booked ! Suc i) = m_appointmentType ([maryMember] ! i) \<and>
         a_time (booked ! Suc i) = [''10:00 AM'', ''2:00 PM'', ''9:00 AM''] ! Suc i"
      "daySlotsOf st' ''2025-10-25'' =
         Some (drop (length [maryMember] + 1) [''10:00 AM'', ''2:00 PM'', ''9:00 AM''])"
    by blast
  from facts(6) have mary: "a_patientName (booked ! 1) = ''Mary Doe''"
    "a_type (booked ! 1) = ''Cleaning''"
    by (simp_all add: maryMember_def)
  from run facts(1-5,7) mary show ?thesis
    by (intro exI [of _ booked] exI [of _ msg] exI [of _ details] exI [of _ st']) simp
qed

section \<open>What the operations preserve\<close>

text \<open>
  The condition on the slot lists \<open>ss\<close> and on the list \<open>AS\<close> of the dates and times held by
  appointments that are not cancelled.
\<close>

lemma consistent_iff:
  "consistent db \<longleftrightarrow>
     (\<forall>(d, t)\<in>set (activeSlots (appointments db)). t \<notin> set (openSlots db d)) \<and>
     distinct (activeSlots (appointments db)) \<and>
     (\<forall>s\<in>set (availableSlots db). distinct (s_slots s))"
  by (auto simp: consistent_def slotInvariant_def activeSlots_def slotOf_def active_def list_all_iff)

lemma openSlots_simps [simp]:
  "openSlots (db\<lparr>appointments := x\<rparr>) d = openSlots db d"
  "openSlots (db\<lparr>patients := y\<rparr>) d = openSlots db d"
  by (simp_all add: openSlots_def)

lemma openSlots_updateDay:
  "openSlots (db\<lparr>availableSlots := updateDay d f (availableSlots db)\<rparr>) d' =
     (if d' = d \<and> findDay d (availableSlots db) \<noteq> None then f (openSlots db d)
      else openSlots db d')"
proof (cases "d' = d")
  case True
  then show ?thesis
    by (cases "findDay d (availableSlots db)") (simp_all add: openSlots_def findDay_updateDay_same)
next
  case False
  then show ?thesis
    by (simp add: openSlots_def findDay_updateDay_other)
qed

lemma set_updateFirst:
  "x \<in> set (updateFirst P f xs) \<Longrightarrow> x \<in> set xs \<or> (\<exists>y\<in>set xs. x = f y)"
  by (induction xs) (auto split: if_splits)

lemma distinct_updateDay:
  assumes "\<forall>s\<in>set ss. distinct (s_slots s)" and "\<And>sl. distinct sl \<Longrightarrow> distinct (f sl)"
  shows "\<forall>s\<in>set (updateDay d f ss). distinct (s_slots s)"
proof
  fix s assume "s \<in> set (updateDay d f ss)"
  then have "s \<in> set ss \<or> (\<exists>y\<in>set ss. s = y\<lparr>s_slots := f (s_slots y)\<rparr>)"
    unfolding updateDay_def by (rule set_updateFirst)
  with assms show "distinct (s_slots s)" by auto
qed

lemma distinct_releaseSlot: "distinct sl \<Longrightarrow> distinct (releaseSlot t sl)"
  by (simp add: releaseSlot_def)

text \<open>Releasing a slot that no remaining appointment holds, and reserving an open one.\<close>

lemma consistent_release:
  assumes "consistent db" and "(d, t) \<notin> set (activeSlots (appointments db))"
  shows "consistent (db\<lparr>availableSlots := updateDay d (releaseSlot t) (availableSlots db)\<rparr>)"
proof -
  let ?db' = "db\<lparr>availableSlots := updateDay d (releaseSlot t) (availableSlots db)\<rparr>"
  from assms(1) have held: "\<forall>(d, t)\<in>set (activeSlots (appointments db)). t \<notin> set (openSlots db d)"
    and dist: "distinct (activeSlots (appointments db))"
    and days: "\<forall>s\<in>set (availableSlots db). distinct (s_slots s)"
    by (simp_all add: consistent_iff)
  have "\<forall>(d', t')\<in>set (activeSlots (appointments ?db')). t' \<notin> set (openSlots ?db' d')"
  proof (clarify)
    fix d' t'
    assume in_as: "(d', t') \<in> set (activeSlots (appointments ?db'))"
      and opened: "t' \<in> set (openSlots ?db' d')"
    from in_as have as: "(d', t') \<in> set (activeSlots (appointments db))" by simp
    with held have "t' \<notin> set (openSlots db d')" by auto
    with opened have "d' = d \<and> t' = t"
      by (auto simp: openSlots_updateDay split: if_splits)
    with as assms(2) show False by simp
  qed
  moreover have "distinct (activeSlots (appointments ?db'))" using dist by simp
  moreover have "\<forall>s\<in>set (availableSlots ?db'). distinct (s_slots s)"
    using distinct_updateDay [OF days, of "releaseSlot t" d] by (simp add: distinct_releaseSlot)
  ultimately show ?thesis by (simp add: consistent_iff)
qed

lemma consistent_forget:
  assumes "consistent db" and "set (activeSlots appts') \<subseteq> set (activeSlots (appointments db))"
      and "distinct (activeSlots appts')"
  shows "consistent (db\<lparr>appointments := appts'\<rparr>)"
  using assms by (auto simp: consistent_iff)

lemma consistent_patients [simp]: "consistent (db\<lparr>patients := ps\<rparr>) = consistent db"
  by (simp add: consistent_iff)

lemma consistent_alerts [simp]: "consistent (db\<lparr>emergencyAlerts := al\<rparr>) = consistent db"
  by (simp add: consistent_iff openSlots_def)

text \<open>Releasing, one after the other, slots that no remaining appointment holds.\<close>

lemma consistent_release_all:
  assumes "consistent db"
      and "\<forall>a\<in>set rel. (dayOf a, a_time a) \<notin> set (activeSlots (appointments db))"
  shows "consistent (db\<lparr>availableSlots :=
           foldl (\<lambda>ss a. updateDay (dayOf a) (releaseSlot (a_time a)) ss) (availableSlots db) rel\<rparr>)"
  using assms
proof (induction rel arbitrary: db)
  case Nil
  then show ?case by simp
next
  case (Cons a rel)
  let ?db1 = "db\<lparr>availableSlots := updateDay (dayOf a) (releaseSlot (a_time a)) (availableSlots db)\<rparr>"
  from Cons.prems have "(dayOf a, a_time a) \<notin> set (activeSlots (appointments db))"
    by simp
  with Cons.prems(1) have c1: "consistent ?db1" by (rule consistent_release)
  have "\<forall>b\<in>set rel. (dayOf b, a_time b) \<notin> set (activeSlots (appointments ?db1))"
    using Cons.prems(2) by simp
  from Cons.IH [OF c1 this] show ?case by simp
qed

text \<open>Reserving the first \<open>n\<close> labels of a day for \<open>n\<close> new appointments.\<close>

lemma consistent_reserve_prefix:
  assumes c: "consistent db" and n: "n \<le> length (openSlots db d)"
      and new: "activeSlots appts' =
                  activeSlots (appointments db) @ map (\<lambda>t. (d, t)) (take n (openSlots db d))"
  shows "consistent (db\<lparr>appointments := appts',
                         availableSlots := updateDay d (drop n) (availableSlots db)\<rparr>)"
proof -
  let ?sl = "openSlots db d"
  let ?db' = "db\<lparr>appointments := appts', availableSlots := updateDay d (drop n) (availableSlots db)\<rparr>"
  from c have held: "\<forall>(d, t)\<in>set (activeSlots (appointments db)). t \<notin> set (openSlots db d)"
    and dist: "distinct (activeSlots (appointments db))"
    and days: "\<forall>s\<in>set (availableSlots db). distinct (s_slots s)"
    by (simp_all add: consistent_iff)
  have dsl: "distinct ?sl"
    using days by (auto simp: openSlots_def findDay_def split: option.splits dest: find_SomeD)
  have open': "openSlots ?db' d' =
                 (if d' = d \<and> findDay d (availableSlots db) \<noteq> None then drop n ?sl
                  else openSlots db d')" for d'
    using openSlots_updateDay [where db = db and d = d and f = "drop n" and d' = d']
    by (simp add: openSlots_def)
  have sub: "set (openSlots ?db' d') \<subseteq> set (openSlots db d')" for d'
    by (auto simp: open' dest: in_set_dropD)
  have disj: "set (take n ?sl) \<inter> set (drop n ?sl) = {}"
    using dsl by (metis append_take_drop_id distinct_append)
  have 1: "\<forall>(d', t')\<in>set (activeSlots appts'). t' \<notin> set (openSlots ?db' d')"
  proof (clarify)
    fix d' t'
    assume m: "(d', t') \<in> set (activeSlots appts')" and o: "t' \<in> set (openSlots ?db' d')"
    from m new consider "(d', t') \<in> set (activeSlots (appointments db))"
      | "d' = d" "t' \<in> set (take n ?sl)"
      by auto
    then show False
    proof cases
      case 1
      with held have "t' \<notin> set (openSlots db d')" by auto
      with o sub show False by blast
    next
      case 2
      from 2(2) have "?sl \<noteq> []" by auto
      then have "findDay d (availableSlots db) \<noteq> None"
        by (auto simp: openSlots_def split: option.splits)
      with o 2(1) have "t' \<in> set (drop n ?sl)" by (simp add: open')
      with 2(2) disj show False by blast
    qed
  qed
  have fresh: "(d, t) \<notin> set (activeSlots (appointments db))" if "t \<in> set (take n ?sl)" for t
    using held that by (auto dest: in_set_takeD)
  have 2: "distinct (activeSlots appts')"
    unfolding new using dist dsl fresh
    by (auto simp: distinct_map inj_on_def)
  have 3: "\<forall>s\<in>set (availableSlots ?db'). distinct (s_slots s)"
    using distinct_updateDay [OF days, of "drop n" d] by simp
  from 1 2 3 show ?thesis by (simp add: consistent_iff)
qed

text \<open>Reserving one open label for one new holder.\<close>

lemma consistent_reserve:
  assumes c: "consistent db" and free: "t \<in> set (openSlots db d)"
      and new: "set (activeSlots appts') = insert (d, t) (set (activeSlots (appointments db)))"
      and dist': "distinct (activeSlots appts')"
  shows "consistent (db\<lparr>appointments := appts',
                         availableSlots := updateDay d (filter (\<lambda>s. s \<noteq> t)) (availableSlots db)\<rparr>)"
proof -
  let ?db' = "db\<lparr>appointments := appts',
                  availableSlots := updateDay d (filter (\<lambda>s. s \<noteq> t)) (availableSlots db)\<rparr>"
  from c have held: "\<forall>(d, t)\<in>set (activeSlots (appointments db)). t \<notin> set (openSlots db d)"
    and days: "\<forall>s\<in>set (availableSlots db). distinct (s_slots s)"
    by (simp_all add: consistent_iff)
  from free have day: "findDay d (availableSlots db) \<noteq> None"
    by (cases "findDay d (availableSlots db)") (simp_all add: openSlots_def)
  have open': "openSlots ?db' d' =
                 (if d' = d then filter (\<lambda>s. s \<noteq> t) (openSlots db d) else openSlots db d')" for d'
    using openSlots_updateDay [where db = db and d = d and f = "filter (\<lambda>s. s \<noteq> t)" and d' = d'] day
    by (simp add: openSlots_def)
  have 1: "\<forall>(d', t')\<in>set (activeSlots appts'). t' \<notin> set (openSlots ?db' d')"
  proof (clarify)
    fix d' t'
    assume m: "(d', t') \<in> set (activeSlots appts')" and o: "t' \<in> set (openSlots ?db' d')"
    from o have o': "t' \<in> set (openSlots db d')" and ne: "\<not> (d' = d \<and> t' = t)"
      by (auto simp: open' split: if_splits)
    from m new ne have "(d', t') \<in> set (activeSlots (appointments db))" by auto
    with held o' show False by auto
  qed
  have 3: "\<forall>s\<in>set (availableSlots ?db'). distinct (s_slots s)"
    using distinct_updateDay [OF days, of "filter (\<lambda>s. s \<noteq> t)" d] by simp
  from 1 dist' 3 show ?thesis by (simp add: consistent_iff)
qed

text \<open>How the ledger changes of the operations change the list of held slots.\<close>

lemma activeSlots_append [simp]: "activeSlots (xs @ ys) = activeSlots xs @ activeSlots ys"
  by (simp add: activeSlots_def)

lemma activeSlots_mark:
  assumes "\<And>a. Q a \<Longrightarrow> \<not> active (g a)"
  shows "activeSlots (map (\<lambda>a. if Q a then g a else a) xs) =
           map slotOf (filter (\<lambda>a. \<not> Q a) (filter active xs))"
  using assms by (induction xs) (auto simp: activeSlots_def)

lemma marked_slot_free:
  assumes dist: "distinct (activeSlots xs)" and a: "a \<in> set xs" "active a" "Q a"
  shows "slotOf a \<notin> set (map slotOf (filter (\<lambda>a. \<not> Q a) (filter active xs)))"
proof
  assume "slotOf a \<in> set (map slotOf (filter (\<lambda>a. \<not> Q a) (filter active xs)))"
  then obtain b where b: "b \<in> set xs" "active b" "\<not> Q b" "slotOf b = slotOf a"
    by auto
  from dist have "inj_on slotOf (set (filter active xs))"
    by (simp add: activeSlots_def distinct_map)
  with a b have "a = b" by (auto simp: inj_on_def)
  with a b show False by simp
qed

text \<open>
  Cancelling the appointments selected by \<open>Q\<close>, all of them not cancelled before, and putting
  each one's time back on the day \<open>dayOf\<close> names, which is its own date.
\<close>

lemma consistent_cancel_many:
  assumes c: "consistent db"
      and sel: "\<And>a. Q a \<Longrightarrow> active a \<and> \<not> active (g a) \<and> dayOf a = a_date a"
  shows "consistent (db\<lparr>appointments := map (\<lambda>a. if Q a then g a else a) (appointments db),
                         availableSlots :=
                           foldl (\<lambda>ss a. updateDay (dayOf a) (releaseSlot (a_time a)) ss)
                             (availableSlots db) (filter Q (appointments db))\<rparr>)"
proof -
  let ?xs = "appointments db"
  let ?xs' = "map (\<lambda>a. if Q a then g a else a) ?xs"
  from c have dist: "distinct (activeSlots ?xs)" by (simp add: consistent_iff)
  have as': "activeSlots ?xs' = map slotOf (filter (\<lambda>a. \<not> Q a) (filter active ?xs))"
    using sel by (intro activeSlots_mark) simp
  have sub: "set (activeSlots ?xs') \<subseteq> set (activeSlots ?xs)"
    unfolding as' by (auto simp: activeSlots_def)
  have dist': "distinct (activeSlots ?xs')"
    unfolding as'
    using dist distinct_map_filter [of slotOf "filter active ?xs" "\<lambda>a. \<not> Q a"]
    by (simp only: activeSlots_def)
  have c1: "consistent (db\<lparr>appointments := ?xs'\<rparr>)"
    using c sub dist' by (rule consistent_forget)
  have "\<forall>a\<in>set (filter Q ?xs). (dayOf a, a_time a) \<notin> set (activeSlots ?xs')"
  proof
    fix a assume "a \<in> set (filter Q ?xs)"
    then have a: "a \<in> set ?xs" "Q a" by simp_all
    with sel have "active a" "dayOf a = a_date a" by simp_all
    with marked_slot_free [where Q = Q and a = a and xs = "?xs", OF dist a(1) \<open>active a\<close> a(2)] show
      "(dayOf a, a_time a) \<notin> set (activeSlots ?xs')"
      by (simp add: as' slotOf_def)
  qed
  then have "\<forall>a\<in>set (filter Q ?xs).
               (dayOf a, a_time a) \<notin> set (activeSlots (appointments (db\<lparr>appointments := ?xs'\<rparr>)))"
    by simp
  from consistent_release_all [OF c1 this] show ?thesis by simp
qed

lemma consistent_overwriteSameDay:
  assumes "consistent db" and "\<And>a. Q a \<Longrightarrow> active a \<and> a_date a = d"
  shows "consistent (overwriteSameDay Q d reason stamp db)"
proof -
  have "consistent (db\<lparr>appointments := map (\<lambda>a. if Q a then softCancel stamp reason a else a)
                                          (appointments db),
                      availableSlots :=
                        foldl (\<lambda>ss a. updateDay ((\<lambda>_. d) a) (releaseSlot (a_time a)) ss)
                          (availableSlots db) (filter Q (appointments db))\<rparr>)"
    using assms by (intro consistent_cancel_many) (auto simp: active_def softCancel_def)
  then show ?thesis by (simp add: overwriteSameDay_def)
qed

text \<open>\<open>cancelAllAppointments\<close> and \<open>bookAppointment\<close> keep the store consistent.\<close>

lemma cancelAllAppointments_consistent:
  assumes "consistent st"
  shows "consistent (snd (cancelAllAppointments clk patientId st))"
proof -
  let ?Q = "\<lambda>a. a_patientId a = patientId \<and> a_status a \<noteq> ''cancelled''"
  let ?g = "\<lambda>a. a\<lparr>a_status := ''cancelled'', a_cancelledAt := Some (nowIso clk)\<rparr>"
  let ?db1 = "st\<lparr>appointments := map (\<lambda>a. if ?Q a then ?g a else a) (appointments st),
                  availableSlots :=
                    foldl (\<lambda>ss a. updateDay (a_date a) (releaseSlot (a_time a)) ss)
                      (availableSlots st) (filter ?Q (appointments st))\<rparr>"
  have c1: "consistent ?db1"
    using assms by (intro consistent_cancel_many) (auto simp: active_def)
  have "snd (cancelAllAppointments clk patientId st) = st \<or>
        snd (cancelAllAppointments clk patientId st) = ?db1"
    by (simp add: cancelAllAppointments_def readDatabase_def writeDatabase_all Let_def)
  with assms c1 show ?thesis by (elim disjE) (simp_all only:)
qed

lemma bookAppointment_consistent:
  assumes c: "consistent st"
  shows "consistent (snd (bookAppointment clk patientId patientName date time type details st))"
proof (cases "success (fst (bookAppointment clk patientId patientName date time type details st))")
  case False
  with c show ?thesis by (simp add: bookAppointment_failure)
next
  case True
  let ?Q = "sameDayActive patientId date"
  let ?db1 = "overwriteSameDay ?Q date ''overwritten_by_new_booking'' (nowIso clk) st"
  let ?new = "newAppointment clk (appointments ?db1) patientId patientName date time type details"
  have c1: "consistent ?db1"
    using c by (rule consistent_overwriteSameDay) (simp add: sameDayActive_def active_def)
  from True obtain day where day: "findDay date (availableSlots ?db1) = Some day"
    and free: "time \<in> set (s_slots day)"
    by (auto simp: bookAppointment_def readDatabase_def Let_def split: option.splits if_splits)
  from day free True have st1: "snd (bookAppointment clk patientId patientName date time type details st) =
      ?db1\<lparr>appointments := appointments ?db1 @ [?new],
            availableSlots := updateDay date (filter (\<lambda>s. s \<noteq> time)) (availableSlots ?db1)\<rparr>"
    by (auto simp: bookAppointment_def readDatabase_def writeDatabase_all Let_def
             split: option.splits if_splits)
  from day free have open1: "time \<in> set (openSlots ?db1 date)"
    by (simp add: openSlots_def)
  from c1 have held: "\<forall>(d, t)\<in>set (activeSlots (appointments ?db1)). t \<notin> set (openSlots ?db1 d)"
    and dist: "distinct (activeSlots (appointments ?db1))"
    by (simp_all add: consistent_iff)
  from held open1 have fresh: "(date, time) \<notin> set (activeSlots (appointments ?db1))" by auto
  have new: "activeSlots [?new] = [(date, time)]"
    by (simp add: activeSlots_def active_def slotOf_def newAppointment_def)
  have "consistent (?db1\<lparr>appointments := appointments ?db1 @ [?new],
            availableSlots := updateDay date (filter (\<lambda>s. s \<noteq> time)) (availableSlots ?db1)\<rparr>)"
    using c1 open1 by (rule consistent_reserve) (simp_all add: new dist fresh)
  then show ?thesis by (simp only: st1)
qed

lemma store_update_swap:
  "(st :: store)\<lparr>availableSlots := x, appointments := y\<rparr> =
   st\<lparr>appointments := y, availableSlots := x\<rparr>"
  by (cases st) simp

lemma updateFirst_found:
  "find P xs = Some a \<Longrightarrow> updateFirst P g xs = updateFirst P (\<lambda>_. g a) xs"
  by (induction xs) (auto split: if_splits)

lemma activeSlots_Cons:
  "activeSlots (x # xs) = (if active x then slotOf x # activeSlots xs else activeSlots xs)"
  by (simp add: activeSlots_def)

lemma activeSlots_updateFirst:
  assumes "find P xs = Some a" and "active a" and "distinct (activeSlots xs)"
  shows "set (activeSlots (updateFirst P (\<lambda>_. m) xs)) =
           (set (activeSlots xs) - {slotOf a}) \<union> (if active m then {slotOf m} else {}) \<and>
         ((active m \<longrightarrow> slotOf m \<notin> set (activeSlots xs) - {slotOf a}) \<longrightarrow>
            distinct (activeSlots (updateFirst P (\<lambda>_. m) xs)))"
  using assms
proof (induction xs)
  case Nil
  then show ?case by simp
next
  case (Cons x xs)
  show ?case
  proof (cases "P x")
    case True
    with Cons.prems have "x = a" by simp
    with True Cons.prems show ?thesis
      by (auto simp: activeSlots_Cons)
  next
    case False
    with Cons.prems have f: "find P xs = Some a" by simp
    then have a_in: "a \<in> set xs" by (auto dest: find_SomeD)
    with Cons.prems(2) have a_as: "slotOf a \<in> set (activeSlots xs)"
      by (auto simp: activeSlots_def)
    from Cons.prems(3) have d: "distinct (activeSlots xs)"
      by (simp add: activeSlots_Cons split: if_splits)
    note ih = Cons.IH [OF f Cons.prems(2) d]
    show ?thesis
    proof (cases "active x")
      case inactive: False
      with False ih show ?thesis by (simp add: activeSlots_Cons)
    next
      case True
      with Cons.prems(3) have nx: "slotOf x \<notin> set (activeSlots xs)"
        by (simp add: activeSlots_Cons)
      with a_as have ne: "slotOf x \<noteq> slotOf a" by auto
      from False True ih nx ne show ?thesis
        by (auto simp: activeSlots_Cons)
    qed
  qed
qed

text \<open>\<open>cancelAppointment\<close> keeps the store consistent.\<close>

lemma cancelAppointment_consistent:
  assumes c: "consistent st"
  shows "consistent (snd (cancelAppointment clk appointmentId st))"
proof (cases "success (fst (cancelAppointment clk appointmentId st))")
  case False
  with c show ?thesis by (simp add: cancelAppointment_failure)
next
  case True
  then obtain a where found: "find (\<lambda>a. a_id a = appointmentId) (appointments st) = Some a"
    and act: "a_status a \<noteq> ''cancelled''"
    by (auto simp: cancelAppointment_def readDatabase_def Let_def split: option.splits if_splits)
  let ?m = "a\<lparr>a_status := ''cancelled'', a_cancelledAt := Some (nowIso clk)\<rparr>"
  let ?xs' = "updateFirst (\<lambda>a. a_id a = appointmentId) (\<lambda>_. ?m) (appointments st)"
  from c have dist: "distinct (activeSlots (appointments st))" by (simp add: consistent_iff)
  from act have aa: "active a" by (simp add: active_def)
  have nm: "\<not> active ?m" by (simp add: active_def)
  from activeSlots_updateFirst [OF found aa dist, of ?m] nm
  have set': "set (activeSlots ?xs') = set (activeSlots (appointments st)) - {slotOf a}"
    and dist': "distinct (activeSlots ?xs')"
    by simp_all
  have uf: "updateFirst (\<lambda>a. a_id a = appointmentId)
              (\<lambda>a. a\<lparr>a_status := ''cancelled'', a_cancelledAt := Some (nowIso clk)\<rparr>)
              (appointments st) = ?xs'"
    by (rule updateFirst_found [OF found])
  have c1: "consistent (st\<lparr>appointments := ?xs'\<rparr>)"
    using c _ dist' by (rule consistent_forget) (simp add: set')
  have "(a_date a, a_time a) \<notin> set (activeSlots (appointments (st\<lparr>appointments := ?xs'\<rparr>)))"
    by (simp add: set' slotOf_def)
  with c1 have c2: "consistent (st\<lparr>appointments := ?xs',
                      availableSlots := updateDay (a_date a) (releaseSlot (a_time a))
                                          (availableSlots st)\<rparr>)"
    using consistent_release [of "st\<lparr>appointments := ?xs'\<rparr>" "a_date a" "a_time a"] by simp
  have "snd (cancelAppointment clk appointmentId st) =
          st\<lparr>availableSlots := updateDay (a_date a) (releaseSlot (a_time a)) (availableSlots st),
             appointments := ?xs'\<rparr>"
    using found act uf
    by (simp add: cancelAppointment_def readDatabase_def writeDatabase_all Let_def)
  with c2 show ?thesis by (simp only: store_update_swap)
qed

text \<open>
  \<open>rescheduleAppointment\<close> keeps the store consistent when the appointment it moves is not
  cancelled.
\<close>

lemma rescheduleAppointment_consistent:
  assumes c: "consistent st"
      and act: "\<And>a. find (\<lambda>a. a_id a = appointmentId) (appointments st) = Some a \<Longrightarrow> active a"
  shows "consistent (snd (rescheduleAppointment clk appointmentId newDate newTime st))"
proof (cases "success (fst (rescheduleAppointment clk appointmentId newDate newTime st))")
  case False
  with c show ?thesis by (simp add: rescheduleAppointment_failure)
next
  case True
  then obtain a nd where found: "find (\<lambda>a. a_id a = appointmentId) (appointments st) = Some a"
    and nd: "findDay newDate (availableSlots st) = Some nd" and free: "newTime \<in> set (s_slots nd)"
    by (auto simp: rescheduleAppointment_def readDatabase_def Let_def
             split: option.splits if_splits)
  let ?gone = "a\<lparr>a_status := ''cancelled''\<rparr>"
  let ?m = "a\<lparr>a_date := newDate, a_time := newTime,
              a_rescheduledFrom := Some (a_date a, a_time a),
              a_rescheduledAt := Some (nowIso clk)\<rparr>"
  let ?P = "\<lambda>a. a_id a = appointmentId"
  let ?xs = "appointments st"
  from c have held: "\<forall>(d, t)\<in>set (activeSlots ?xs). t \<notin> set (openSlots st d)"
    and dist: "distinct (activeSlots ?xs)"
    by (simp_all add: consistent_iff)
  from act [OF found] have aa: "active a" .
  then have am: "active ?m" by (simp add: active_def)
  have sm: "slotOf ?m = (newDate, newTime)" by (simp add: slotOf_def)
  from nd free have open0: "newTime \<in> set (openSlots st newDate)" by (simp add: openSlots_def)
  with held have fresh: "(newDate, newTime) \<notin> set (activeSlots ?xs)" by auto
  from found aa have "slotOf a \<in> set (activeSlots ?xs)"
    by (auto simp: activeSlots_def dest: find_SomeD)
  with fresh have moved: "slotOf a \<noteq> (newDate, newTime)" by auto
  have ng: "\<not> active ?gone" by (simp add: active_def)
  from activeSlots_updateFirst [OF found aa dist, of ?gone] ng
  have set1: "set (activeSlots (updateFirst ?P (\<lambda>_. ?gone) ?xs)) = set (activeSlots ?xs) - {slotOf a}"
    and dist1: "distinct (activeSlots (updateFirst ?P (\<lambda>_. ?gone) ?xs))"
    by simp_all
  from activeSlots_updateFirst [OF found aa dist, of ?m] am sm fresh
  have set2: "set (activeSlots (updateFirst ?P (\<lambda>_. ?m) ?xs)) =
                insert (newDate, newTime) (set (activeSlots ?xs) - {slotOf a})"
    and dist2: "distinct (activeSlots (updateFirst ?P (\<lambda>_. ?m) ?xs))"
    by simp_all
  let ?db1 = "st\<lparr>appointments := updateFirst ?P (\<lambda>_. ?gone) ?xs\<rparr>"
  have c1: "consistent ?db1"
    using c _ dist1 by (rule consistent_forget) (simp add: set1)
  let ?db2 = "?db1\<lparr>availableSlots := updateDay (a_date a) (releaseSlot (a_time a))
                                         (availableSlots ?db1)\<rparr>"
  have "(a_date a, a_time a) \<notin> set (activeSlots (appointments ?db1))"
    by (simp add: set1 slotOf_def)
  with c1 have c2: "consistent ?db2" by (rule consistent_release)
  have open2: "newTime \<in> set (openSlots ?db2 newDate)"
    using open0 openSlots_updateDay [where db = ?db1 and d = "a_date a"
        and f = "releaseSlot (a_time a)" and d' = newDate]
    by (auto split: if_splits)
  have c3: "consistent (?db2\<lparr>appointments := updateFirst ?P (\<lambda>_. ?m) ?xs,
                              availableSlots := updateDay newDate (filter (\<lambda>s. s \<noteq> newTime))
                                                  (availableSlots ?db2)\<rparr>)"
    using c2 open2 by (rule consistent_reserve) (simp_all add: set1 set2 dist2)
  have "snd (rescheduleAppointment clk appointmentId newDate newTime st) =
          st\<lparr>availableSlots := updateDay newDate (filter (\<lambda>s. s \<noteq> newTime))
                                  (updateDay (a_date a) (releaseSlot (a_time a)) (availableSlots st)),
             appointments := updateFirst ?P (\<lambda>_. ?m) ?xs\<rparr>"
    using found nd free
    by (simp add: rescheduleAppointment_def readDatabase_def writeDatabase_all Let_def)
  moreover have "?db2\<lparr>appointments := updateFirst ?P (\<lambda>_. ?m) ?xs,
                      availableSlots := updateDay newDate (filter (\<lambda>s. s \<noteq> newTime))
                                          (availableSlots ?db2)\<rparr> =
                 st\<lparr>appointments := updateFirst ?P (\<lambda>_. ?m) ?xs,
                    availableSlots := updateDay newDate (filter (\<lambda>s. s \<noteq> newTime))
                      (updateDay (a_date a) (releaseSlot (a_time a)) (availableSlots st))\<rparr>"
    by (cases st) simp
  ultimately show ?thesis using c3 by (simp only: store_update_swap)
qed

text \<open>\<open>bookFamilyAppointments\<close> keeps the store consistent.\<close>

lemma consistent_familyPreempted:
  assumes "consistent db"
  shows "consistent (familyPreempted clk pid pp ms d db)"
  unfolding familyPreempted_def Let_def
  by (rule consistent_overwriteSameDay) (simp_all add: assms active_def)

lemma bookFamilyAppointments_consistent:
  assumes c: "consistent st"
  shows "consistent (snd (bookFamilyAppointments parseDate clk primaryPatientId familyMembers
                            preferredDate primaryType st))"
proof (cases "success (fst (bookFamilyAppointments parseDate clk primaryPatientId familyMembers
                              preferredDate primaryType st))")
  case False
  with c show ?thesis by (simp add: bookFamilyAppointments_failure)
next
  case True
  then obtain pp where primary: "find (\<lambda>p. p_id p = primaryPatientId) (patients st) = Some pp"
    by (auto simp: bookFamilyAppointments_def readDatabase_def Let_def split: option.splits)
  let ?db1 = "familyPreempted clk primaryPatientId pp familyMembers preferredDate st"
  let ?slots = "openSlots ?db1 preferredDate"
  let ?n = "length familyMembers"
  let ?pa = "primaryAppointmentOf clk primaryPatientId pp preferredDate ?slots primaryType"
  from True primary have members: "familyMembers \<noteq> []" "validateMembers familyMembers = None"
    and day: "findDay preferredDate (availableSlots ?db1) \<noteq> None"
    and fits: "\<not> length ?slots < ?n + 1"
    by (auto simp: bookFamilyAppointments_def readDatabase_def Let_def
             split: option.splits if_splits)
  from fits have fits': "1 + ?n \<le> length ?slots" by simp
  from familyLoop_allocates [OF fits', of clk primaryPatientId pp preferredDate
         "patients ?db1" "appointments ?db1 @ [?pa]" "[?pa]"]
  obtain ps' new where
    loop: "familyLoop clk primaryPatientId pp preferredDate ?slots familyMembers
             (patients ?db1, appointments ?db1 @ [?pa], [?pa], 1) =
           (ps', (appointments ?db1 @ [?pa]) @ new, [?pa] @ new, 1 + ?n)" and
    len: "length new = ?n" and
    each: "\<forall>i < ?n. a_date (new ! i) = preferredDate \<and> a_time (new ! i) = ?slots ! (1 + i) \<and>
                     a_status (new ! i) = ''confirmed''"
    by blast
  have loop': "familyLoop clk primaryPatientId pp preferredDate ?slots familyMembers
             (patients ?db1, appointments ?db1 @ [?pa], [?pa], Suc 0) =
           (ps', appointments ?db1 @ ?pa # new, ?pa # new, Suc ?n)"
    using loop by simp
  let ?booked = "?pa # new"
  have run: "snd (bookFamilyAppointments parseDate clk primaryPatientId familyMembers preferredDate
                    primaryType st) =
             ?db1\<lparr>patients := ps', appointments := appointments ?db1 @ ?booked,
                   availableSlots := updateDay preferredDate (drop (?n + 1)) (availableSlots ?db1)\<rparr>"
  proof -
    from day obtain dd where "findDay preferredDate (availableSlots ?db1) = Some dd"
      by auto
    with primary members fits show ?thesis
      by (simp add: bookFamilyAppointments_def readDatabase_def writeDatabase_all Let_def
            loop' len)
  qed
  have all_active: "filter active ?booked = ?booked"
  proof (rule filter_True, clarify)
    fix x assume "x \<in> set ?booked"
    then obtain i where "i < length ?booked" "x = ?booked ! i"
      unfolding in_set_conv_nth by blast
    with each len show "active x"
      by (cases i) (simp_all add: active_def)
  qed
  have slots: "map slotOf ?booked = map (\<lambda>t. (preferredDate, t)) (take (?n + 1) ?slots)"
  proof (rule nth_equalityI)
    show "length (map slotOf ?booked) = length (map (\<lambda>t. (preferredDate, t)) (take (?n + 1) ?slots))"
      using fits' by (simp add: len)
  next
    fix i assume "i < length (map slotOf ?booked)"
    then have i: "i < ?n + 1" by (simp add: len)
    show "map slotOf ?booked ! i = map (\<lambda>t. (preferredDate, t)) (take (?n + 1) ?slots) ! i"
    proof (cases i)
      case 0
      with fits' show ?thesis by (simp add: slotOf_def)
    next
      case (Suc j)
      with i have "j < ?n" by simp
      with each Suc i len fits' show ?thesis by (simp add: slotOf_def)
    qed
  qed
  have as: "activeSlots (appointments ?db1 @ ?booked) =
              activeSlots (appointments ?db1) @
              map (\<lambda>t. (preferredDate, t)) (take (?n + 1) ?slots)"
    unfolding activeSlots_append using all_active slots by (simp only: activeSlots_def)
  have c1: "consistent ?db1"
    using c by (rule consistent_familyPreempted)
  from fits have "?n + 1 \<le> length ?slots" by simp
  with c1 have "consistent (?db1\<lparr>appointments := appointments ?db1 @ ?booked,
                   availableSlots := updateDay preferredDate (drop (?n + 1)) (availableSlots ?db1)\<rparr>)"
    using as by (rule consistent_reserve_prefix)
  then have "consistent (?db1\<lparr>appointments := appointments ?db1 @ ?booked,
                   availableSlots := updateDay preferredDate (drop (?n + 1)) (availableSlots ?db1),
                   patients := ps'\<rparr>)"
    by (simp only: consistent_patients)
  moreover have "?db1\<lparr>appointments := appointments ?db1 @ ?booked,
                   availableSlots := updateDay preferredDate (drop (?n + 1)) (availableSlots ?db1),
                   patients := ps'\<rparr> =
                 ?db1\<lparr>patients := ps', appointments := appointments ?db1 @ ?booked,
                   availableSlots := updateDay preferredDate (drop (?n + 1)) (availableSlots ?db1)\<rparr>"
    by (cases ?db1) simp
  ultimately show ?thesis by (simp only: run)
qed

text \<open>
  Every operation of the dispatcher keeps a consistent store consistent, provided a
  reschedule is asked for an appointment that is not cancelled.
\<close>

lemma operations_keep_consistent:
  assumes "consistent st"
      and "\<And>appointmentId newDate newTime a.
             act = RescheduleAppointment appointmentId newDate newTime \<Longrightarrow>
             find (\<lambda>a. a_id a = appointmentId) (appointments st) = Some a \<Longrightarrow> active a"
  shows "consistent (snd (executeFunctionCall parseDate clk act st))"
proof (cases act)
  case (BookAppointment pid pn d t ty ed)
  with assms(1) show ?thesis by (simp add: bookAppointment_consistent)
next
  case (RegisterNewPatient n p dob ins)
  have "snd (registerNewPatient clk n p dob ins st) = st \<or>
        (\<exists>ps. snd (registerNewPatient clk n p dob ins st) = st\<lparr>patients := ps\<rparr>)"
    by (auto simp: registerNewPatient_def addPatient_def Let_def
             split: validation.splits search_result.splits)
  with assms(1) RegisterNewPatient show ?thesis by auto
next
  case (CancelAppointment aid)
  with assms(1) show ?thesis by (simp add: cancelAppointment_consistent)
next
  case (CancelAllAppointments pid)
  with assms(1) show ?thesis by (simp add: cancelAllAppointments_consistent)
next
  case (RescheduleAppointment aid nd nt)
  with assms show ?thesis by (simp add: rescheduleAppointment_consistent)
next
  case (NotifyStaffEmergency n det p)
  have "snd (notifyStaffEmergency clk n det p st) = st \<or>
        (\<exists>al. snd (notifyStaffEmergency clk n det p st) = st\<lparr>emergencyAlerts := al\<rparr>)"
    by (auto simp: notifyStaffEmergency_def readDatabase_def writeDatabase_all Let_def
             split: validation.splits)
  with assms(1) NotifyStaffEmergency show ?thesis by auto
next
  case (BookFamilyAppointments pid ms d ty)
  with assms(1) show ?thesis by (simp add: bookFamilyAppointments_consistent)
qed

section \<open>Slot consistency across operations\<close>

text \<open>
  C2. The claim: every store-mutating operation keeps the time of every appointment that is
  not cancelled off the available list of its day. \<open>rescheduleAppointment\<close> does not: it
  releases the old slot of the appointment it moves without looking at the appointment's
  status. In the run below the store starts consistent and stays so through John's booking
  of 2:00 PM, his cancellation and Mary's booking of the freed 2:00 PM; rescheduling John's
  cancelled appointment to 9:00 AM then succeeds and puts 2:00 PM, which Mary holds, back
  on the available list.
\<close>

theorem reschedule_breaks_slot_invariant:
  "consistent storeEmpty \<and> consistent afterRebook \<and>
   slotInvariant storeEmpty \<and> slotInvariant afterBook \<and> slotInvariant afterCancel \<and>
   slotInvariant afterRebook \<and>
   map a_id (appointments afterRebook) = [''a001'', ''a002''] \<and>
   map a_status (appointments afterRebook) = [''cancelled'', ''scheduled''] \<and>
   openSlots afterRebook ''2025-10-25'' = [''9:00 AM''] \<and>
   success (fst (rescheduleAppointment clock0 ''a001'' ''2025-10-25'' ''9:00 AM'' afterRebook)) \<and>
   map a_status (appointments afterReschedule) = [''cancelled'', ''scheduled''] \<and>
   map a_time (appointments afterReschedule) = [''9:00 AM'', ''2:00 PM''] \<and>
   openSlots afterReschedule ''2025-10-25'' = [''2:00 PM''] \<and>
   \<not> slotInvariant afterReschedule"
proof -
  have a: "slotInvariant storeEmpty" "slotInvariant afterBook" "slotInvariant afterCancel"
    "slotInvariant afterRebook"
    by code_simp+
  have b: "map a_id (appointments afterRebook) = [''a001'', ''a002'']"
    "map a_status (appointments afterRebook) = [''cancelled'', ''scheduled'']"
    "openSlots afterRebook ''2025-10-25'' = [''9:00 AM'']"
    by code_simp+
  have c: "success (fst (rescheduleAppointment clock0 ''a001'' ''2025-10-25'' ''9:00 AM''
                           afterRebook))"
    by code_simp
  have d: "map a_status (appointments afterReschedule) = [''cancelled'', ''scheduled'']"
    "map a_time (appointments afterReschedule) = [''9:00 AM'', ''2:00 PM'']"
    "openSlots afterReschedule ''2025-10-25'' = [''2:00 PM'']"
    by code_simp+
  have e: "\<not> slotInvariant afterReschedule"
    by code_simp
  have f: "consistent storeEmpty" "consistent afterRebook"
    by code_simp+
  from a b c d e f show ?thesis by blast
qed

end
